(* ===== verification/Prelude.thy ===== *)
theory Prelude
  imports Main "HOL-Library.Word" "HOL-Library.Multiset" "HOL-Library.Monad_Syntax"
begin

text \<open>
  Shared vocabulary of the development: the machine types of the C code, the outcome type of
  calls that may block or run into undefined behaviour, and the generic lemmas on lists, words
  and pointer-updated stores that the component theories use.
\<close>

section \<open>Machine types\<close>

type_synonym byte = "8 word"
type_synonym u8 = "8 word"
type_synonym u32 = "32 word"
type_synonym u64 = "64 word"

text \<open>File descriptors are plain \<open>int\<close>s in the code; only their identity matters.\<close>

type_synonym fd = int

text \<open>\<open>wire\<close> collects the byte-level round trips, \<open>frame\<close> the facts that an operation
  leaves a part of a state alone.\<close>

named_theorems wire
named_theorems frame

section \<open>Outcomes of calls\<close>

text \<open>
  A call of the C code returns a value, waits forever on a semaphore that nobody posts, or runs
  into undefined behaviour (an access outside of a buffer, a NULL dereference).
\<close>

datatype 'a run = Ret 'a | Blocks | Undef

primrec and_then :: "'a run \<Rightarrow> ('a \<Rightarrow> 'b run) \<Rightarrow> 'b run" where
  "and_then (Ret x) f = f x"
| "and_then Blocks f = Blocks"
| "and_then Undef f = Undef"

definition returns :: "'a run \<Rightarrow> bool" where
  "returns r \<longleftrightarrow> (\<exists>x. r = Ret x)"

lemma and_then_Ret [simp]: "and_then r Ret = r"
  by (cases r) auto

lemma and_then_eq_Ret: "and_then r f = Ret y \<longleftrightarrow> (\<exists>x. r = Ret x \<and> f x = Ret y)"
  by (cases r) auto

lemma and_then_assoc: "and_then (and_then r f) g = and_then r (\<lambda>x. and_then (f x) g)"
  by (cases r) auto

lemma and_then_cong [fundef_cong]:
  "r = r' \<Longrightarrow> (\<And>x. r' = Ret x \<Longrightarrow> f x = f' x) \<Longrightarrow> and_then r f = and_then r' f'"
  by (cases r') auto

primrec of_option :: "'a option \<Rightarrow> 'a run" where
  "of_option None = Undef"
| "of_option (Some x) = Ret x"

lemma of_option_eq_Ret [simp]: "of_option m = Ret x \<longleftrightarrow> m = Some x"
  by (cases m) auto

text \<open>Partial correctness of an outcome, for statements about what a call returns if it does.\<close>

definition yields :: "('a \<Rightarrow> bool) \<Rightarrow> 'a run \<Rightarrow> bool" where
  "yields P r \<longleftrightarrow> (\<forall>x. r = Ret x \<longrightarrow> P x)"

lemma yields_simps [simp]: "yields P (Ret x) = P x" "yields P Blocks" "yields P Undef"
  by (auto simp: yields_def)

lemma yields_and_then: "(\<And>x. r = Ret x \<Longrightarrow> yields P (f x)) \<Longrightarrow> yields P (and_then r f)"
  by (cases r) auto

lemma yields_mono: "yields P r \<Longrightarrow> (\<And>x. P x \<Longrightarrow> Q x) \<Longrightarrow> yields Q r"
  by (simp add: yields_def)

lemma yieldsD: "yields P r \<Longrightarrow> r = Ret x \<Longrightarrow> P x"
  by (simp add: yields_def)

section \<open>Lists\<close>

text \<open>
  A \<open>t_list\<close> of the commons library is represented by the list of its elements:
  \<open>list_add\<close> appends, \<open>list_find\<close> is the first element that satisfies the
  predicate, \<open>list_remove_element\<close> removes the first occurrence. \<open>list_sort\<close> is a
  parameter of the definitions that call it, with the documented behaviour below.
\<close>

definition sorts_by :: "(('a \<Rightarrow> 'a \<Rightarrow> bool) \<Rightarrow> 'a list \<Rightarrow> 'a list) \<Rightarrow> ('a \<Rightarrow> 'a \<Rightarrow> bool) \<Rightarrow> bool" where
  "sorts_by list_sort lt \<longleftrightarrow>
     (\<forall>xs. mset (list_sort lt xs) = mset xs \<and>
           sorted_wrt (\<lambda>a b. \<not> lt b a) (list_sort lt xs))"

text \<open>A concrete sort with that behaviour, used to show that the hypothesis can hold.\<close>

fun insert_by :: "('a \<Rightarrow> 'a \<Rightarrow> bool) \<Rightarrow> 'a \<Rightarrow> 'a list \<Rightarrow> 'a list" where
  "insert_by lt x [] = [x]"
| "insert_by lt x (y # ys) = (if lt y x then y # insert_by lt x ys else x # y # ys)"

fun sort_by :: "('a \<Rightarrow> 'a \<Rightarrow> bool) \<Rightarrow> 'a list \<Rightarrow> 'a list" where
  "sort_by lt [] = []"
| "sort_by lt (x # xs) = insert_by lt x (sort_by lt xs)"

lemma mset_insert_by [simp]: "mset (insert_by lt x xs) = add_mset x (mset xs)"
  by (induction xs) auto

lemma set_insert_by [simp]: "set (insert_by lt x xs) = insert x (set xs)"
  by (induction xs) auto

lemma mset_sort_by [simp]: "mset (sort_by lt xs) = mset xs"
  by (induction xs) auto

lemma sorts_by_sort_by:
  fixes key :: "'a \<Rightarrow> 'k::linorder"
  assumes "lt = (\<lambda>a b. key a < key b)"
  shows "sorts_by sort_by lt"
proof -
  have ins: "sorted_wrt (\<lambda>a b. \<not> lt b a) (insert_by lt x xs)"
    if "sorted_wrt (\<lambda>a b. \<not> lt b a) xs" for x xs
    using that by (induction xs) (auto simp: assms)
  have "sorted_wrt (\<lambda>a b. \<not> lt b a) (sort_by lt xs)" for xs
    by (induction xs) (auto intro: ins)
  then show ?thesis by (simp add: sorts_by_def)
qed

lemma sorts_byD:
  assumes "sorts_by list_sort lt"
  shows "mset (list_sort lt xs) = mset xs"
    and "set (list_sort lt xs) = set xs"
    and "length (list_sort lt xs) = length xs"
    and "distinct (list_sort lt xs) = distinct xs"
    and "sorted_wrt (\<lambda>a b. \<not> lt b a) (list_sort lt xs)"
proof -
  show m: "mset (list_sort lt xs) = mset xs"
    using assms by (simp add: sorts_by_def)
  from m show "set (list_sort lt xs) = set xs" by (rule mset_eq_setD)
  from m show "length (list_sort lt xs) = length xs" by (rule mset_eq_length)
  from m show "distinct (list_sort lt xs) = distinct xs" by (rule mset_eq_imp_distinct_iff)
  show "sorted_wrt (\<lambda>a b. \<not> lt b a) (list_sort lt xs)"
    using assms by (simp add: sorts_by_def)
qed

text \<open>
  A list of pointers that are looked up by a key: \<open>list_find\<close> and then an assignment through
  the pointer, or \<open>list_remove_element\<close> of it.
\<close>

fun update_first :: "('a \<Rightarrow> bool) \<Rightarrow> ('a \<Rightarrow> 'a) \<Rightarrow> 'a list \<Rightarrow> 'a list" where
  "update_first P f [] = []"
| "update_first P f (x # xs) = (if P x then f x # xs else x # update_first P f xs)"

fun remove_first :: "('a \<Rightarrow> bool) \<Rightarrow> 'a list \<Rightarrow> 'a list" where
  "remove_first P [] = []"
| "remove_first P (x # xs) = (if P x then xs else x # remove_first P xs)"

lemma find_split:
  "List.find P xs = Some x \<Longrightarrow>
   \<exists>ys zs. xs = ys @ x # zs \<and> P x \<and> (\<forall>y \<in> set ys. \<not> P y)"
proof (induction xs)
  case (Cons a xs)
  show ?case
  proof (cases "P a")
    case True
    with Cons.prems have "a # xs = [] @ x # xs \<and> P x" by simp
    then show ?thesis by (metis empty_iff empty_set)
  next
    case False
    with Cons obtain ys zs where "xs = ys @ x # zs \<and> P x \<and> (\<forall>y \<in> set ys. \<not> P y)" by auto
    with False have "a # xs = (a # ys) @ x # zs \<and> P x \<and> (\<forall>y \<in> set (a # ys). \<not> P y)" by auto
    then show ?thesis by blast
  qed
qed simp

lemma first_split [simp]:
  assumes "\<forall>y \<in> set ys. \<not> P y" and "P x"
  shows "update_first P f (ys @ x # zs) = ys @ f x # zs"
    and "remove_first P (ys @ x # zs) = ys @ zs"
    and "List.find P (ys @ x # zs) = Some x"
  using assms by (induction ys) auto

lemma update_first_id: "List.find P xs = None \<Longrightarrow> update_first P f xs = xs"
  by (induction xs) (auto split: if_splits)

lemma length_update_first [simp]: "length (update_first P f xs) = length xs"
  by (induction xs) auto

lemma map_update_first [simp]: "(\<And>x. P x \<Longrightarrow> g (f x) = g x) \<Longrightarrow> map g (update_first P f xs) = map g xs"
  by (induction xs) auto

text \<open>A property of all pairs does not depend on the order when it is symmetric.\<close>

lemma sorted_wrt_perm:
  assumes sym: "\<And>a b. R a b \<Longrightarrow> R b a" and "mset xs = mset ys" and "sorted_wrt R xs"
  shows "sorted_wrt R ys"
  using assms(2,3)
proof (induction xs arbitrary: ys)
  case (Cons x xs)
  then have "x \<in> set ys" by (metis list.set_intros(1) set_mset_mset)
  then obtain us vs where ys: "ys = us @ x # vs" by (meson split_list)
  with Cons.prems have m: "mset xs = mset (us @ vs)" by simp
  with Cons have "sorted_wrt R (us @ vs)" by simp
  moreover have "\<forall>y \<in> set (us @ vs). R x y"
    using Cons.prems(2) mset_eq_setD [OF m] by simp
  ultimately show ?case using sym by (auto simp: ys sorted_wrt_append)
qed simp

lemma length_filter_le_mono: "(\<And>x. Q x \<Longrightarrow> P x) \<Longrightarrow> length (filter Q xs) \<le> length (filter P xs)"
  by (induction xs) (auto simp: le_SucI)

lemma length_filter_less_mono:
  assumes "c \<in> set xs" "P c" "\<not> Q c" "\<And>x. Q x \<Longrightarrow> P x"
  shows "length (filter Q xs) < length (filter P xs)"
  using assms(1)
proof (induction xs)
  case (Cons x xs)
  then show ?case
    using assms(2-4) length_filter_le_mono [of Q P xs] by (auto simp: less_Suc_eq_le)
qed simp

text \<open>Slices of a byte array, and overwriting one.\<close>

definition slice :: "nat \<Rightarrow> nat \<Rightarrow> 'a list \<Rightarrow> 'a list" where
  "slice off n xs = take n (drop off xs)"

definition overwrite :: "nat \<Rightarrow> 'a list \<Rightarrow> 'a list \<Rightarrow> 'a list" where
  "overwrite off ys xs = take off xs @ ys @ drop (off + length ys) xs"

lemma length_slice [simp]: "off + n \<le> length xs \<Longrightarrow> length (slice off n xs) = n"
  by (simp add: slice_def)

lemma length_overwrite [simp]:
  "off + length ys \<le> length xs \<Longrightarrow> length (overwrite off ys xs) = length xs"
  by (simp add: overwrite_def)

lemma slice_0 [simp]: "slice off 0 xs = []"
  by (simp add: slice_def)

lemma overwrite_Nil [simp]: "overwrite off [] xs = xs"
  by (simp add: overwrite_def)

lemma nth_slice [simp]: "i < n \<Longrightarrow> off + n \<le> length xs \<Longrightarrow> slice off n xs ! i = xs ! (off + i)"
  by (simp add: slice_def)

lemma nth_overwrite:
  "off + length ys \<le> length xs \<Longrightarrow> i < length xs \<Longrightarrow>
   overwrite off ys xs ! i = (if off \<le> i \<and> i < off + length ys then ys ! (i - off) else xs ! i)"
  by (auto simp: overwrite_def nth_append)

lemma slice_overwrite_same:
  "off + length ys \<le> length xs \<Longrightarrow> n = length ys \<Longrightarrow> slice off n (overwrite off ys xs) = ys"
  by (simp add: slice_def overwrite_def)

lemma slice_overwrite_disjoint:
  assumes "off + length ys \<le> length xs" "p + n \<le> length xs"
    and "p + n \<le> off \<or> off + length ys \<le> p"
  shows "slice p n (overwrite off ys xs) = slice p n xs"
  using assms by (intro nth_equalityI) (auto simp: nth_overwrite)

lemma take_overwrite [simp]:
  "n \<le> off \<Longrightarrow> off \<le> length xs \<Longrightarrow> take n (overwrite off ys xs) = take n xs"
  by (simp add: overwrite_def min_absorb1)

lemma slice_append_slice:
  "slice off n xs @ slice (off + n) m xs = slice off (n + m) xs"
  by (simp add: slice_def take_add add.commute [of off n])

lemma overwrite_overwrite_adjacent:
  assumes "off + length ys + length zs \<le> length xs"
  shows "overwrite (off + length ys) zs (overwrite off ys xs) = overwrite off (ys @ zs) xs"
  using assms by (simp add: overwrite_def ac_simps)

text \<open>Finding and updating an element of a list through a predicate on it.\<close>

lemma find_Some_iff_set: "List.find P xs = Some x \<Longrightarrow> x \<in> set xs \<and> P x"
  by (auto simp: find_Some_iff)

lemma find_None_iff_set: "List.find P xs = None \<longleftrightarrow> (\<forall>x \<in> set xs. \<not> P x)"
  by (auto simp: find_None_iff)

lemma mset_remove1_add: "x \<in> set xs \<Longrightarrow> add_mset x (mset (remove1 x xs)) = mset xs"
  by simp

section \<open>Words\<close>

lemma unat_add_no_wrap:
  fixes a b :: "'a::len word"
  shows "unat a + unat b < 2 ^ LENGTH('a) \<Longrightarrow> unat (a + b) = unat a + unat b"
  by (simp add: unat_word_ariths)

lemma unat_sub_le:
  fixes a b :: "'a::len word"
  shows "b \<le> a \<Longrightarrow> unat (a - b) = unat a - unat b"
  by (rule unat_sub)

lemma u32_bound [simp]: "unat (w :: u32) < 4294967296"
  using unsigned_less [of w] by simp

lemma u32_not_ge [simp]: "\<not> 4294967296 \<le> unat (w :: u32)"
  using u32_bound [of w] by linarith

lemma unat_of_nat_u32 [simp]: "n < 4294967296 \<Longrightarrow> unat (of_nat n :: u32) = n"
  by (simp add: unat_of_nat)

lemma u32_less_iff: "(a :: u32) < b \<longleftrightarrow> unat a < unat b"
  by (rule word_less_nat_alt)

lemma u32_le_iff: "(a :: u32) \<le> b \<longleftrightarrow> unat a \<le> unat b"
  by (rule word_le_nat_alt)

lemma u32_add_unat:
  "unat (a :: u32) + unat b < 4294967296 \<Longrightarrow> unat (a + b) = unat a + unat b"
  by (rule unat_add_no_wrap) simp

lemma u32_add_mod:
  "unat (a + b :: u32) =
   (if unat a + unat b < 4294967296 then unat a + unat b else unat a + unat b - 4294967296)"
proof (cases "unat a + unat b < 4294967296")
  case True
  then show ?thesis by (simp add: u32_add_unat)
next
  case False
  then have "(unat a + unat b) mod 4294967296 = unat a + unat b - 4294967296"
  proof -
    have "unat a + unat b - 4294967296 < 4294967296"
      using False u32_bound [of a] u32_bound [of b] by linarith
    then show ?thesis using False by (simp add: le_mod_geq)
  qed
  with False show ?thesis by (simp add: unat_word_ariths)
qed

lemma u32_sub_unat: "b \<le> a \<Longrightarrow> unat (a - b :: u32) = unat a - unat b"
  by (rule unat_sub_le)

text \<open>The unsigned sum of a list of words and its value when it does not wrap around.\<close>

lemma unat_sum_list_u32:
  "sum_list (map unat (ws :: u32 list)) < 4294967296 \<Longrightarrow>
   unat (sum_list ws) = sum_list (map unat ws)"
proof (induction ws)
  case (Cons w ws)
  then have "unat (sum_list ws) = sum_list (map unat ws)" by simp
  with Cons.prems show ?case by (simp add: u32_add_unat)
qed simp

end
