(* ===== verification/Net_Utils.thy ===== *)
theory Net_Utils
  imports Prelude
begin

text \<open>
  \<open>utils/src/utils/net_utils.c\<close> and \<open>server_utils.c\<close>: the operation codes, the
  client descriptors, and the binary protocol. A package is an operation code, the size of its
  stream and the stream; the stream is a sequence of fields, each a 4-byte size and that many
  bytes. Integers are little-endian (the code copies them with \<open>memcpy\<close> and is built for
  x86-64). A reader that walks a buffer with an \<open>offset\<close> is modelled by the bytes that are
  left from that offset on; a read outside of the buffer, or of a field whose size is not the size
  of the variable it is copied into, is \<open>None\<close>. A socket is the sequence of bytes that
  will still arrive on it before it is closed.
\<close>

section \<open>Enumerations and descriptors\<close>

datatype op_code =
    MESSAGE | PACKAGE | HANDSHAKE | CONFIRMATION | CREDENTIALS_UPDATE
  | PROCESS_CREATE | PROCESS_END | PROCESS_EVICT | PROCESS_EXECUTE | PROCESS_INTERRUPTED
  | CONTEXT_TRANSFER | CONTEXT_SEEK | STATE_UPDATE | IO_MEMORY_READ | IO_MEMORY_WRITE
  | IO_PROCESS | MEM_ALLOC | MEM_FREE | SLEEP | STDOUT
  | STDIN | INSTRUCTION_FETCH | MUTEX_CREATE | MUTEX_LOCK | MUTEX_UNLOCK
  | CORRUPTED_MEMORY | MEMORY_UPDATE | SEGMENT_CREATE | SEGMENT_DELETE | SEGMENT_RESULT
  | SEGMENTATION_FAULT | COMPACTION_REQUEST | COMPACTION_READY | COMPACTION_FINISHED | MS_READ
  | MS_WRITE | MS_READ_RESPONSE | MS_WRITE_RESPONSE | SWAP_IN | SWAP_OUT

fun op_code_int :: "op_code \<Rightarrow> u32" where
  "op_code_int MESSAGE = 0"
| "op_code_int PACKAGE = 1"
| "op_code_int HANDSHAKE = 2"
| "op_code_int CONFIRMATION = 3"
| "op_code_int CREDENTIALS_UPDATE = 4"
| "op_code_int PROCESS_CREATE = 5"
| "op_code_int PROCESS_END = 6"
| "op_code_int PROCESS_EVICT = 7"
| "op_code_int PROCESS_EXECUTE = 8"
| "op_code_int PROCESS_INTERRUPTED = 9"
| "op_code_int CONTEXT_TRANSFER = 10"
| "op_code_int CONTEXT_SEEK = 11"
| "op_code_int STATE_UPDATE = 12"
| "op_code_int IO_MEMORY_READ = 13"
| "op_code_int IO_MEMORY_WRITE = 14"
| "op_code_int IO_PROCESS = 15"
| "op_code_int MEM_ALLOC = 16"
| "op_code_int MEM_FREE = 17"
| "op_code_int SLEEP = 18"
| "op_code_int STDOUT = 19"
| "op_code_int STDIN = 20"
| "op_code_int INSTRUCTION_FETCH = 21"
| "op_code_int MUTEX_CREATE = 22"
| "op_code_int MUTEX_LOCK = 23"
| "op_code_int MUTEX_UNLOCK = 24"
| "op_code_int CORRUPTED_MEMORY = 25"
| "op_code_int MEMORY_UPDATE = 26"
| "op_code_int SEGMENT_CREATE = 27"
| "op_code_int SEGMENT_DELETE = 28"
| "op_code_int SEGMENT_RESULT = 29"
| "op_code_int SEGMENTATION_FAULT = 30"
| "op_code_int COMPACTION_REQUEST = 31"
| "op_code_int COMPACTION_READY = 32"
| "op_code_int COMPACTION_FINISHED = 33"
| "op_code_int MS_READ = 34"
| "op_code_int MS_WRITE = 35"
| "op_code_int MS_READ_RESPONSE = 36"
| "op_code_int MS_WRITE_RESPONSE = 37"
| "op_code_int SWAP_IN = 38"
| "op_code_int SWAP_OUT = 39"

definition op_codes :: "op_code list" where
  "op_codes =
     [MESSAGE, PACKAGE, HANDSHAKE, CONFIRMATION, CREDENTIALS_UPDATE,
      PROCESS_CREATE, PROCESS_END, PROCESS_EVICT, PROCESS_EXECUTE, PROCESS_INTERRUPTED,
      CONTEXT_TRANSFER, CONTEXT_SEEK, STATE_UPDATE, IO_MEMORY_READ, IO_MEMORY_WRITE,
      IO_PROCESS, MEM_ALLOC, MEM_FREE, SLEEP, STDOUT,
      STDIN, INSTRUCTION_FETCH, MUTEX_CREATE, MUTEX_LOCK, MUTEX_UNLOCK,
      CORRUPTED_MEMORY, MEMORY_UPDATE, SEGMENT_CREATE, SEGMENT_DELETE, SEGMENT_RESULT,
      SEGMENTATION_FAULT, COMPACTION_REQUEST, COMPACTION_READY, COMPACTION_FINISHED, MS_READ,
      MS_WRITE, MS_READ_RESPONSE, MS_WRITE_RESPONSE, SWAP_IN, SWAP_OUT]"

definition op_code_of :: "u32 \<Rightarrow> op_code option" where
  "op_code_of n = (if unat n < length op_codes then Some (op_codes ! unat n) else None)"

datatype t_module_id =
  MODULE_KERNEL_SCHEDULER | MODULE_CPU | MODULE_IO | MODULE_SWAP | MODULE_MEMORY_STICK

fun module_id_int :: "t_module_id \<Rightarrow> u32" where
  "module_id_int MODULE_KERNEL_SCHEDULER = 0"
| "module_id_int MODULE_CPU = 1"
| "module_id_int MODULE_IO = 2"
| "module_id_int MODULE_SWAP = 3"
| "module_id_int MODULE_MEMORY_STICK = 4"

definition module_id_of :: "u32 \<Rightarrow> t_module_id option" where
  "module_id_of n =
     (if n = 0 then Some MODULE_KERNEL_SCHEDULER else if n = 1 then Some MODULE_CPU
      else if n = 2 then Some MODULE_IO else if n = 3 then Some MODULE_SWAP
      else if n = 4 then Some MODULE_MEMORY_STICK else None)"

datatype t_io_type = IO_TYPE_STDIN | IO_TYPE_STDOUT | IO_TYPE_SLEEP

fun io_type_int :: "t_io_type \<Rightarrow> u32" where
  "io_type_int IO_TYPE_STDIN = 0"
| "io_type_int IO_TYPE_STDOUT = 1"
| "io_type_int IO_TYPE_SLEEP = 2"

definition io_type_of :: "u32 \<Rightarrow> t_io_type option" where
  "io_type_of n =
     (if n = 0 then Some IO_TYPE_STDIN else if n = 1 then Some IO_TYPE_STDOUT
      else if n = 2 then Some IO_TYPE_SLEEP else None)"

lemma op_code_of_int [wire, simp]: "op_code_of (op_code_int c) = Some c"
  by (cases c) (simp_all add: op_code_of_def op_codes_def)

lemma module_id_of_int [wire, simp]: "module_id_of (module_id_int m) = Some m"
  by (cases m) (simp_all add: module_id_of_def)

lemma io_type_of_int [wire, simp]: "io_type_of (io_type_int t) = Some t"
  by (cases t) (simp_all add: io_type_of_def)

text \<open>
  \<open>t_client_info\<close>. The two \<open>pthread_mutex_t\<close> members have no state of their own in
  the model: the steps of the model are the critical sections they protect.
\<close>

record t_client_info =
  ci_fd :: fd
  ci_id :: u32
  is_available :: bool
  is_evicting :: bool
  response_sem :: nat

definition create_client_info :: "fd \<Rightarrow> u32 \<Rightarrow> t_client_info" where
  "create_client_info client_fd i =
     \<lparr>ci_fd = client_fd, ci_id = i, is_available = True, is_evicting = False, response_sem = 0\<rparr>"

definition add_client_to_list :: "t_client_info list \<Rightarrow> fd \<Rightarrow> u32 \<Rightarrow> t_client_info list" where
  [simp]: "add_client_to_list clients client_fd i = clients @ [create_client_info client_fd i]"

definition remove_client_from_list :: "t_client_info list \<Rightarrow> t_client_info \<Rightarrow> t_client_info list" where
  [simp]: "remove_client_from_list clients client = remove1 client clients"

record t_memory_stick_credentials =
  cred_ip :: string
  cred_port :: string
  cred_id :: u32
  cred_size :: u32

section \<open>Integers and strings as bytes\<close>

definition u32_bytes :: "u32 \<Rightarrow> byte list" where
  "u32_bytes w =
     [of_nat (unat w), of_nat (unat w div 2 ^ 8), of_nat (unat w div 2 ^ 16),
      of_nat (unat w div 2 ^ 24)]"

definition bytes_u32 :: "byte \<Rightarrow> byte \<Rightarrow> byte \<Rightarrow> byte \<Rightarrow> u32" where
  "bytes_u32 a b c d =
     of_nat (unat a + 2 ^ 8 * unat b + 2 ^ 16 * unat c + 2 ^ 24 * unat d)"

lemma length_u32_bytes [simp]: "length (u32_bytes w) = 4"
  by (simp add: u32_bytes_def)

lemma byte_bound [simp]: "unat (b :: byte) < 256"
  using unsigned_less [of b] by simp

lemma base_256_digits:
  fixes n :: nat
  assumes "n < 4294967296"
  shows "n mod 256 + 256 * (n div 256 mod 256) + 65536 * (n div 65536 mod 256) +
    16777216 * (n div 16777216 mod 256) = n"
proof -
  have d: "n div 65536 = n div 256 div 256" "n div 16777216 = n div 256 div 256 div 256"
    by (simp_all add: div_mult2_eq [symmetric])
  have "n div 256 div 256 div 256 < 256"
    using assms by (simp add: div_mult2_eq [symmetric] less_mult_imp_div_less)
  then have "n div 256 div 256 div 256 mod 256 = n div 256 div 256 div 256" by simp
  moreover note mult_div_mod_eq [of 256 n] mult_div_mod_eq [of 256 "n div 256"]
    mult_div_mod_eq [of 256 "n div 256 div 256"]
  ultimately show ?thesis unfolding d by linarith
qed

lemma bytes_u32_u32_bytes [simp]:
  "bytes_u32 (of_nat (unat w)) (of_nat (unat w div 2 ^ 8)) (of_nat (unat w div 2 ^ 16))
     (of_nat (unat w div 2 ^ 24)) = w"
proof -
  have p: "2 ^ LENGTH(8) = (256 :: nat)" "2 ^ 8 = (256 :: nat)" "2 ^ 16 = (65536 :: nat)"
    "2 ^ 24 = (16777216 :: nat)" by simp_all
  have "unat w mod 2 ^ LENGTH(8) + 2 ^ 8 * (unat w div 2 ^ 8 mod 2 ^ LENGTH(8)) +
      2 ^ 16 * (unat w div 2 ^ 16 mod 2 ^ LENGTH(8)) +
      2 ^ 24 * (unat w div 2 ^ 24 mod 2 ^ LENGTH(8)) = unat w"
    unfolding p by (rule base_256_digits [OF u32_bound])
  then show ?thesis by (simp only: bytes_u32_def unat_of_nat) simp
qed

lemma u32_bytes_cases:
  obtains a b c d where "u32_bytes w = [a, b, c, d]" and "bytes_u32 a b c d = w"
  using bytes_u32_u32_bytes [of w] by (auto simp: u32_bytes_def)

section \<open>Fields of a package's stream\<close>

text \<open>What \<^term>\<open>package_add\<close> appends for a value: its size, then its bytes.\<close>

definition field :: "byte list \<Rightarrow> byte list" where
  "field value = u32_bytes (of_nat (length value)) @ value"

text \<open>
  The common start of every deserializer: \<open>memcpy(&size, buffer + *offset, sizeof(int))\<close>,
  then \<open>size\<close> bytes. A negative size, or one that reaches past the buffer, is \<open>None\<close>.
\<close>

fun get_field :: "byte list \<Rightarrow> (byte list \<times> byte list) option" where
  "get_field (a # b # c # d # rest) =
     (let size = unat (bytes_u32 a b c d)
      in if size < 2 ^ 31 \<and> size \<le> length rest
         then Some (take size rest, drop size rest) else None)"
| "get_field _ = None"

fun uint32_deserialize :: "byte list \<Rightarrow> (u32 \<times> byte list) option" where
  "uint32_deserialize buffer =
     (case get_field buffer of
        Some ([a, b, c, d], rest) \<Rightarrow> Some (bytes_u32 a b c d, rest)
      | _ \<Rightarrow> None)"

fun uint8_deserialize :: "byte list \<Rightarrow> (u8 \<times> byte list) option" where
  "uint8_deserialize buffer =
     (case get_field buffer of Some ([a], rest) \<Rightarrow> Some (a, rest) | _ \<Rightarrow> None)"

definition bool_byte :: "bool \<Rightarrow> byte" where
  "bool_byte b = (if b then 1 else 0)"

fun bool_deserialize :: "byte list \<Rightarrow> (bool \<times> byte list) option" where
  "bool_deserialize buffer =
     (case get_field buffer of Some ([a], rest) \<Rightarrow> Some (a \<noteq> 0, rest) | _ \<Rightarrow> None)"

fun t_module_id_deserialize :: "byte list \<Rightarrow> (u32 \<times> byte list) option" where
  "t_module_id_deserialize buffer =
     (case get_field buffer of
        Some ([a, b, c, d], rest) \<Rightarrow> Some (bytes_u32 a b c d, rest)
      | _ \<Rightarrow> None)"

fun t_io_type_deserialize :: "byte list \<Rightarrow> (u32 \<times> byte list) option" where
  "t_io_type_deserialize buffer =
     (case get_field buffer of
        Some ([a, b, c, d], rest) \<Rightarrow> Some (bytes_u32 a b c d, rest)
      | _ \<Rightarrow> None)"

text \<open>
  C strings: a \<open>string\<close> without NUL characters, sent with its terminator. A block that was
  received as a string is read up to its first NUL; without one the code reads past the block.
\<close>

definition byte_of_char :: "char \<Rightarrow> byte" where
  "byte_of_char c = of_nat (of_char c)"

definition char_of_byte :: "byte \<Rightarrow> char" where
  "char_of_byte b = char_of (unat b)"

definition c_str :: "string \<Rightarrow> bool" where
  "c_str s \<longleftrightarrow> (\<forall>c \<in> set s. byte_of_char c \<noteq> 0)"

definition string_bytes :: "string \<Rightarrow> byte list" where
  "string_bytes s = map byte_of_char s @ [0]"

definition c_string :: "byte list \<Rightarrow> string option" where
  "c_string bs =
     (if 0 \<in> set bs then Some (map char_of_byte (takeWhile (\<lambda>b. b \<noteq> 0) bs)) else None)"

fun string_deserialize :: "byte list \<Rightarrow> (string \<times> byte list) option" where
  "string_deserialize buffer =
     (case get_field buffer of
        Some (bs, rest) \<Rightarrow> map_option (\<lambda>s. (s, rest)) (c_string bs)
      | None \<Rightarrow> None)"

declare uint32_deserialize.simps [simp del] uint8_deserialize.simps [simp del]
  bool_deserialize.simps [simp del] t_module_id_deserialize.simps [simp del]
  t_io_type_deserialize.simps [simp del] string_deserialize.simps [simp del]

lemma length_field [simp]: "length (field v) = 4 + length v"
  by (simp add: field_def)

lemma drop_field [simp]: "drop 4 (field d) = d"
  by (simp add: field_def)

lemma field_not_Nil [simp]: "field v \<noteq> []"
  by (simp add: field_def u32_bytes_def)

lemma get_field_field [wire, simp]:
  assumes "length v < 2 ^ 31"
  shows "get_field (field v @ rest) = Some (v, rest)" and "get_field (field v) = Some (v, [])"
proof -
  obtain a b c d where u: "u32_bytes (of_nat (length v)) = [a, b, c, d]"
    and w: "bytes_u32 a b c d = of_nat (length v)"
    by (rule u32_bytes_cases)
  have "unat (bytes_u32 a b c d) = length v" using assms w by simp
  then show "get_field (field v @ rest) = Some (v, rest)" for rest
    using assms by (simp add: field_def u)
  from this [of "[]"] show "get_field (field v) = Some (v, [])" by simp
qed

lemma get_field_shorter: "get_field buf = Some (v, rest) \<Longrightarrow> length buf = 4 + length v + length rest"
  by (cases buf rule: get_field.cases) (auto simp: Let_def split: if_splits)

lemma byte_of_char_of [simp]: "byte_of_char (char_of_byte b) = b"
  by (simp add: byte_of_char_def char_of_byte_def)

lemma char_of_byte_of [simp]: "char_of_byte (byte_of_char c) = c"
proof -
  have "of_char c < (256 :: nat)" using nat_of_char_less_256 [of c] by simp
  then show ?thesis by (simp add: byte_of_char_def char_of_byte_def unat_of_nat)
qed

lemma length_string_bytes [simp]: "length (string_bytes s) = Suc (length s)"
  by (simp add: string_bytes_def)

lemma c_string_string_bytes [wire, simp]: "c_str s \<Longrightarrow> c_string (string_bytes s) = Some s"
  by (auto simp: c_string_def string_bytes_def c_str_def takeWhile_append comp_def)

lemma uint32_deserialize_field [wire, simp]:
  "uint32_deserialize (field (u32_bytes w) @ rest) = Some (w, rest)"
  "uint32_deserialize (field (u32_bytes w)) = Some (w, [])"
  by (rule u32_bytes_cases [of w], simp add: uint32_deserialize.simps)+

lemma uint8_deserialize_field [wire, simp]:
  "uint8_deserialize (field [b] @ rest) = Some (b, rest)"
  "uint8_deserialize (field [b]) = Some (b, [])"
  by (simp_all add: uint8_deserialize.simps)

lemma bool_deserialize_field [wire, simp]:
  "bool_deserialize (field [bool_byte b] @ rest) = Some (b, rest)"
  "bool_deserialize (field [bool_byte b]) = Some (b, [])"
  by (simp_all add: bool_deserialize.simps bool_byte_def)

lemma t_module_id_deserialize_field [wire, simp]:
  "t_module_id_deserialize (field (u32_bytes w) @ rest) = Some (w, rest)"
  "t_module_id_deserialize (field (u32_bytes w)) = Some (w, [])"
  by (rule u32_bytes_cases [of w], simp add: t_module_id_deserialize.simps)+

lemma t_io_type_deserialize_field [wire, simp]:
  "t_io_type_deserialize (field (u32_bytes w) @ rest) = Some (w, rest)"
  "t_io_type_deserialize (field (u32_bytes w)) = Some (w, [])"
  by (rule u32_bytes_cases [of w], simp add: t_io_type_deserialize.simps)+

text \<open>Strings short enough for the \<open>int\<close> that holds their size.\<close>

definition sendable :: "string \<Rightarrow> bool" where
  "sendable s \<longleftrightarrow> c_str s \<and> length s < 2 ^ 31 - 1"

lemma string_deserialize_field [wire, simp]:
  assumes "sendable s"
  shows "string_deserialize (field (string_bytes s) @ rest) = Some (s, rest)"
    and "string_deserialize (field (string_bytes s)) = Some (s, [])"
  using assms by (simp_all add: sendable_def string_deserialize.simps)

lemma deserialize_shorter:
  "uint32_deserialize buf = Some (w, rest) \<Longrightarrow> length rest < length buf"
  "uint8_deserialize buf = Some (b, rest) \<Longrightarrow> length rest < length buf"
  "bool_deserialize buf = Some (t, rest) \<Longrightarrow> length rest < length buf"
  "string_deserialize buf = Some (s, rest) \<Longrightarrow> length rest < length buf"
  by (auto simp: uint32_deserialize.simps uint8_deserialize.simps bool_deserialize.simps
      string_deserialize.simps dest!: get_field_shorter
      split: option.splits list.splits prod.splits)

section \<open>Packages\<close>

text \<open>
  The \<open>size\<close> of a \<open>t_buffer\<close> is the length of its stream, so the record keeps the
  stream only.
\<close>

record t_package =
  pkg_op :: op_code
  stream :: "byte list"

definition package_create :: t_package where
  "package_create = \<lparr>pkg_op = PACKAGE, stream = []\<rparr>"

definition package_add :: "byte list \<Rightarrow> t_package \<Rightarrow> t_package" where
  "package_add value package = package\<lparr>stream := stream package @ field value\<rparr>"

definition package_string_add :: "string \<Rightarrow> t_package \<Rightarrow> t_package" where
  "package_string_add message package = package_add (string_bytes message) package"

definition package_serialize :: "t_package \<Rightarrow> byte list" where
  "package_serialize package =
     u32_bytes (op_code_int (pkg_op package)) @ u32_bytes (of_nat (length (stream package))) @
     stream package"

text \<open>\<open>package_send\<close> writes the serialized package at the end of what the peer will read.\<close>

definition package_send :: "t_package \<Rightarrow> byte list \<Rightarrow> byte list" where
  "package_send package socket = socket @ package_serialize package"

definition message_send_with_op_code :: "string \<Rightarrow> op_code \<Rightarrow> byte list \<Rightarrow> byte list" where
  "message_send_with_op_code message op socket =
     socket @ package_serialize \<lparr>pkg_op = op, stream = string_bytes message\<rparr>"

definition message_send :: "string \<Rightarrow> byte list \<Rightarrow> byte list" where
  "message_send message socket =
     socket @ package_serialize \<lparr>pkg_op = MESSAGE, stream = string_bytes message\<rparr>"

text \<open>
  Receiving. \<open>None\<close> as an operation code is the \<open>-1\<close> of a closed connection. For
  \<open>buffer_receive\<close> the inner option is the returned pointer (an empty stream gives NULL) and
  the outer \<open>None\<close> a stream that is cut short.
\<close>

fun operation_receive :: "byte list \<Rightarrow> u32 option \<times> byte list" where
  "operation_receive (a # b # c # d # rest) = (Some (bytes_u32 a b c d), rest)"
| "operation_receive rest = (None, [])"

fun buffer_receive :: "byte list \<Rightarrow> (byte list option \<times> byte list) option" where
  "buffer_receive (a # b # c # d # rest) =
     (let size = unat (bytes_u32 a b c d)
      in if size = 0 then Some (None, rest)
         else if size < 2 ^ 31 \<and> size \<le> length rest
         then Some (Some (take size rest), drop size rest)
         else None)"
| "buffer_receive _ = None"

text \<open>
  What a handler loop reads for one package: an operation code, then the buffer. The buffer is
  the empty list where \<open>buffer_receive\<close> returns NULL.
\<close>

definition package_receive :: "byte list \<Rightarrow> ((u32 \<times> byte list) \<times> byte list) option" where
  "package_receive socket =
     (case operation_receive socket of
        (None, _) \<Rightarrow> None
      | (Some op, rest) \<Rightarrow>
          (case buffer_receive rest of
             None \<Rightarrow> None
           | Some (None, rest') \<Rightarrow> Some ((op, []), rest')
           | Some (Some buffer, rest') \<Rightarrow> Some ((op, buffer), rest')))"

function packages_receive :: "byte list \<Rightarrow> (u32 \<times> byte list) list" where
  "packages_receive socket =
     (case package_receive socket of
        None \<Rightarrow> []
      | Some (p, rest) \<Rightarrow> p # (if length rest < length socket then packages_receive rest else []))"
  by pat_completeness auto
termination by (relation "measure length") auto

declare packages_receive.simps [simp del]

lemma stream_package_create [simp]:
  "stream package_create = []" "pkg_op package_create = PACKAGE"
  by (simp_all add: package_create_def)

lemma stream_package_add [simp]:
  "stream (package_add v p) = stream p @ field v" "pkg_op (package_add v p) = pkg_op p"
  "stream (package_string_add s p) = stream p @ field (string_bytes s)"
  "pkg_op (package_string_add s p) = pkg_op p"
  by (simp_all add: package_add_def package_string_add_def)

lemma operation_receive_serialize [wire, simp]:
  "operation_receive (u32_bytes op @ rest) = (Some op, rest)"
  by (rule u32_bytes_cases [of op]) simp

lemma buffer_receive_serialize [wire, simp]:
  assumes "length bs < 2 ^ 31"
  shows "buffer_receive (u32_bytes (of_nat (length bs)) @ bs @ rest) =
    Some (if bs = [] then None else Some bs, rest)"
proof -
  obtain a b c d where u: "u32_bytes (of_nat (length bs)) = [a, b, c, d]"
    and w: "bytes_u32 a b c d = of_nat (length bs)"
    by (rule u32_bytes_cases)
  have "unat (bytes_u32 a b c d) = length bs" using assms w by simp
  then show ?thesis using assms by (simp add: u)
qed

lemma package_receive_serialize [wire, simp]:
  assumes "length (stream p) < 2 ^ 31"
  shows "package_receive (package_serialize p @ rest) =
    Some ((op_code_int (pkg_op p), stream p), rest)"
  using buffer_receive_serialize [OF assms, of rest]
  by (simp add: package_receive_def package_serialize_def)

lemma packages_receive_Nil [simp]: "packages_receive [] = []"
  by (simp add: packages_receive.simps package_receive_def)

lemma length_package_serialize [simp]:
  "length (package_serialize p) = 8 + length (stream p)"
  by (simp add: package_serialize_def)

end
