(* ===== verification/Net_Messages.thy ===== *)
theory Net_Messages
  imports Net_Utils
begin

text \<open>
  The message functions of \<open>net_utils.c\<close> and \<open>server_utils.c\<close> on top of the
  packages of \<open>Net_Utils\<close>: what each \<open>*_send\<close> puts on the socket and what the
  matching \<open>*_receive\<close> or \<open>*_decode\<close> reads, lists of values, the handshake, the
  identifiers, and the rendering of raw bytes for the log. The locale \<open>field_codec\<close> is the
  contract between a sender and a reader of one value.
\<close>

section \<open>The contract of a value on the wire\<close>

text \<open>
  \<open>while (offset < size)\<close> over a received buffer. The test that a round consumes bytes is
  always true for the readers of the code (\<open>dec_shorter\<close> below).
\<close>

function deserialize_all :: "(byte list \<Rightarrow> ('a \<times> byte list) option) \<Rightarrow> byte list \<Rightarrow> 'a list option"
where
  "deserialize_all dec buffer =
     (if buffer = [] then Some []
      else case dec buffer of
             None \<Rightarrow> None
           | Some (x, rest) \<Rightarrow>
               if length rest < length buffer
               then map_option ((#) x) (deserialize_all dec rest) else None)"
  by pat_completeness auto
termination by (relation "measure (\<lambda>(dec, buffer). length buffer)") auto

declare deserialize_all.simps [simp del]

text \<open>\<open>for (i = 0; i < n; i++)\<close>: a known number of values.\<close>

fun deserialize_n :: "(byte list \<Rightarrow> ('a \<times> byte list) option) \<Rightarrow> nat \<Rightarrow> byte list \<Rightarrow> ('a list \<times> byte list) option"
where
  "deserialize_n dec 0 buffer = Some ([], buffer)"
| "deserialize_n dec (Suc n) buffer =
     (case dec buffer of
        None \<Rightarrow> None
      | Some (x, rest) \<Rightarrow> map_option (\<lambda>(xs, r). (x # xs, r)) (deserialize_n dec n rest))"

locale field_codec =
  fixes enc :: "'a \<Rightarrow> byte list"
    and dec :: "byte list \<Rightarrow> ('a \<times> byte list) option"
    and ok :: "'a \<Rightarrow> bool"
  assumes dec_enc: "ok x \<Longrightarrow> dec (enc x @ rest) = Some (x, rest)"
    and dec_shorter: "dec buffer = Some (x, rest) \<Longrightarrow> length rest < length buffer"
begin

lemma enc_not_Nil: "ok x \<Longrightarrow> enc x \<noteq> []"
  using dec_enc [of x "[]"] dec_shorter [of "[]" x "[]"] by auto

lemma decode_all: "\<forall>x \<in> set xs. ok x \<Longrightarrow> deserialize_all dec (concat (map enc xs)) = Some xs"
proof (induction xs)
  case Nil
  then show ?case by (simp add: deserialize_all.simps)
next
  case (Cons x xs)
  then have x: "ok x" and IH: "deserialize_all dec (concat (map enc xs)) = Some xs" by auto
  from enc_not_Nil [OF x] dec_enc [OF x] IH show ?case
    by (simp add: deserialize_all.simps [of dec "enc x @ y" for y])
qed

lemma decode_n:
  "\<forall>x \<in> set xs. ok x \<Longrightarrow> deserialize_n dec (length xs) (concat (map enc xs) @ rest) = Some (xs, rest)"
  by (induction xs) (auto simp: dec_enc)

end

text \<open>Two values in a row form a value again.\<close>

locale codec_pair = first: field_codec enc\<^sub>1 dec\<^sub>1 ok\<^sub>1 + second: field_codec enc\<^sub>2 dec\<^sub>2 ok\<^sub>2
  for enc\<^sub>1 :: "'a \<Rightarrow> byte list" and dec\<^sub>1 ok\<^sub>1
    and enc\<^sub>2 :: "'b \<Rightarrow> byte list" and dec\<^sub>2 ok\<^sub>2
begin

sublocale pair: field_codec "\<lambda>(x, y). enc\<^sub>1 x @ enc\<^sub>2 y"
  "\<lambda>buffer. case dec\<^sub>1 buffer of None \<Rightarrow> None
     | Some (x, rest) \<Rightarrow> map_option (\<lambda>(y, r). ((x, y), r)) (dec\<^sub>2 rest)"
  "\<lambda>(x, y). ok\<^sub>1 x \<and> ok\<^sub>2 y"
proof unfold_locales
  fix p :: "'a \<times> 'b" and rest
  assume "case p of (x, y) \<Rightarrow> ok\<^sub>1 x \<and> ok\<^sub>2 y"
  then show "(case dec\<^sub>1 ((case p of (x, y) \<Rightarrow> enc\<^sub>1 x @ enc\<^sub>2 y) @ rest) of None \<Rightarrow> None
     | Some (x, rest) \<Rightarrow> map_option (\<lambda>(y, r). ((x, y), r)) (dec\<^sub>2 rest)) = Some (p, rest)"
    by (cases p) (simp add: first.dec_enc second.dec_enc)
next
  fix buffer rest and p :: "'a \<times> 'b"
  assume "(case dec\<^sub>1 buffer of None \<Rightarrow> None
     | Some (x, rest) \<Rightarrow> map_option (\<lambda>(y, r). ((x, y), r)) (dec\<^sub>2 rest)) = Some (p, rest)"
  then show "length rest < length buffer"
    by (auto split: option.splits dest!: first.dec_shorter second.dec_shorter)
qed

end

interpretation uint32: field_codec "\<lambda>w. field (u32_bytes w)" uint32_deserialize "\<lambda>_. True"
  by unfold_locales (auto intro: deserialize_shorter)

interpretation uint8: field_codec "\<lambda>b. field [b]" uint8_deserialize "\<lambda>_. True"
  by unfold_locales (auto intro: deserialize_shorter)

interpretation bool: field_codec "\<lambda>b. field [bool_byte b]" bool_deserialize "\<lambda>_. True"
  by unfold_locales (auto intro: deserialize_shorter)

interpretation string: field_codec "\<lambda>s. field (string_bytes s)" string_deserialize sendable
  by unfold_locales (auto intro: deserialize_shorter)

interpretation uint32_pair: codec_pair
  "\<lambda>w. field (u32_bytes w)" uint32_deserialize "\<lambda>_. True"
  "\<lambda>w. field (u32_bytes w)" uint32_deserialize "\<lambda>_. True"
  by unfold_locales

section \<open>Single values\<close>

definition package_with :: "op_code \<Rightarrow> t_package" where
  "package_with op = package_create\<lparr>pkg_op := op\<rparr>"

lemma package_with_simps [simp]:
  "pkg_op (package_with op) = op" "stream (package_with op) = []"
  by (simp_all add: package_with_def)

text \<open>\<open>*_send\<close> functions: the package they put on the socket.\<close>

definition t_module_id_send :: "t_module_id \<Rightarrow> t_package" where
  "t_module_id_send module_id = package_add (u32_bytes (module_id_int module_id)) (package_with HANDSHAKE)"

definition t_io_type_send :: "t_io_type \<Rightarrow> t_package" where
  "t_io_type_send io_type = package_add (u32_bytes (io_type_int io_type)) (package_with HANDSHAKE)"

definition uint32_send :: "u32 \<Rightarrow> t_package" where
  "uint32_send v = package_add (u32_bytes v) package_create"

definition uint32_send_with_op_code :: "u32 \<Rightarrow> op_code \<Rightarrow> t_package" where
  "uint32_send_with_op_code v op = package_add (u32_bytes v) (package_with op)"

definition send_confirmation :: "u32 \<Rightarrow> t_package" where
  "send_confirmation pid = package_add (u32_bytes pid) (package_with CONFIRMATION)"

text \<open>The readers. A NULL buffer that is dereferenced is \<open>Undef\<close>.\<close>

definition decode_with :: "(byte list \<Rightarrow> ('a \<times> byte list) option) \<Rightarrow> byte list \<Rightarrow> ('a \<times> byte list) run" where
  "decode_with dec socket =
     (case buffer_receive socket of
        Some (Some buffer, rest) \<Rightarrow>
          (case dec buffer of Some (v, _) \<Rightarrow> Ret (v, rest) | None \<Rightarrow> Undef)
      | _ \<Rightarrow> Undef)"

definition uint32_decode :: "byte list \<Rightarrow> (u32 \<times> byte list) run" where
  "uint32_decode socket = decode_with uint32_deserialize socket"

definition t_module_id_decode :: "byte list \<Rightarrow> (u32 \<times> byte list) run" where
  "t_module_id_decode socket = decode_with t_module_id_deserialize socket"

definition uint32_receive :: "byte list \<Rightarrow> (u32 \<times> byte list) run" where
  "uint32_receive socket =
     (case operation_receive socket of
        (op, rest) \<Rightarrow>
          if op = Some (op_code_int PACKAGE) \<or> op = Some (op_code_int PROCESS_CREATE)
          then decode_with uint32_deserialize rest
          else Ret (0, rest))"

definition t_io_type_receive :: "byte list \<Rightarrow> (u32 \<times> byte list) run" where
  "t_io_type_receive socket =
     (case operation_receive socket of
        (op, rest) \<Rightarrow>
          if op = Some (op_code_int HANDSHAKE) then decode_with t_io_type_deserialize rest
          else Ret (0, rest))"

definition message_decode :: "byte list \<Rightarrow> (byte list option \<times> byte list) run" where
  "message_decode socket = of_option (buffer_receive socket)"

definition message_receive :: "byte list \<Rightarrow> (byte list option \<times> byte list) run" where
  "message_receive socket =
     (case operation_receive socket of
        (op, rest) \<Rightarrow>
          if op = Some (op_code_int MESSAGE) then of_option (buffer_receive rest)
          else Ret (None, rest))"

text \<open>\<open>None\<close> is the \<open>-1\<close> of a connection that does not start with a handshake.\<close>

definition handshake_receiver :: "byte list \<Rightarrow> (u32 option \<times> byte list) run" where
  "handshake_receiver socket =
     (case operation_receive socket of
        (op, rest) \<Rightarrow>
          if op \<noteq> Some (op_code_int HANDSHAKE) then Ret (None, rest)
          else and_then (t_module_id_decode rest) (\<lambda>(m, rest'). Ret (Some m, rest')))"

definition id_assigner :: "u32 \<Rightarrow> u32 \<times> u32 \<times> t_package" where
  "id_assigner current_max_id = (current_max_id, current_max_id + 1, uint32_send current_max_id)"

section \<open>Lists of values\<close>

fun uint32_list_add :: "u32 list \<Rightarrow> t_package \<Rightarrow> t_package" where
  "uint32_list_add [] pkg = pkg"
| "uint32_list_add (v # vs) pkg = uint32_list_add vs (package_add (u32_bytes v) pkg)"

definition uint32_list_send :: "u32 list \<Rightarrow> op_code \<Rightarrow> t_package" where
  "uint32_list_send vs op = uint32_list_add vs (package_with op)"

definition uint32_list_decode :: "byte list \<Rightarrow> (u32 list \<times> byte list) run" where
  "uint32_list_decode socket =
     (case buffer_receive socket of
        None \<Rightarrow> Undef
      | Some (None, rest) \<Rightarrow> Ret ([], rest)
      | Some (Some buffer, rest) \<Rightarrow>
          and_then (of_option (deserialize_all uint32_deserialize buffer)) (\<lambda>vs. Ret (vs, rest)))"

definition credentials_add :: "t_memory_stick_credentials \<Rightarrow> t_package \<Rightarrow> t_package" where
  "credentials_add cred pkg =
     package_add (u32_bytes (cred_size cred)) (package_add (u32_bytes (cred_id cred))
       (package_add (string_bytes (cred_port cred)) (package_add (string_bytes (cred_ip cred)) pkg)))"

definition send_credentials :: "t_memory_stick_credentials \<Rightarrow> t_package" where
  "send_credentials cred = credentials_add cred (package_with CREDENTIALS_UPDATE)"

fun credentials_list_add :: "t_memory_stick_credentials list \<Rightarrow> t_package \<Rightarrow> t_package" where
  "credentials_list_add [] pkg = pkg"
| "credentials_list_add (c # cs) pkg = credentials_list_add cs (credentials_add c pkg)"

definition send_credentials_list :: "t_memory_stick_credentials list \<Rightarrow> t_package" where
  "send_credentials_list cs = credentials_list_add cs (package_with PACKAGE)"

definition credentials_deserialize ::
  "byte list \<Rightarrow> (t_memory_stick_credentials \<times> byte list) option" where
  "credentials_deserialize buffer =
     (case string_deserialize buffer of None \<Rightarrow> None | Some (ip, b1) \<Rightarrow>
      case string_deserialize b1 of None \<Rightarrow> None | Some (port, b2) \<Rightarrow>
      case uint32_deserialize b2 of None \<Rightarrow> None | Some (i, b3) \<Rightarrow>
      case uint32_deserialize b3 of None \<Rightarrow> None | Some (sz, b4) \<Rightarrow>
        Some (\<lparr>cred_ip = ip, cred_port = port, cred_id = i, cred_size = sz\<rparr>, b4))"

definition receive_credentials :: "byte list \<Rightarrow> (t_memory_stick_credentials \<times> byte list) run" where
  "receive_credentials socket = decode_with credentials_deserialize socket"

text \<open>The inner \<open>None\<close> is the NULL returned when the operation code is not \<open>PACKAGE\<close>.\<close>

definition receive_credentials_list ::
  "byte list \<Rightarrow> (t_memory_stick_credentials list option \<times> byte list) run" where
  "receive_credentials_list socket =
     (case operation_receive socket of
        (op, rest) \<Rightarrow>
          if op \<noteq> Some (op_code_int PACKAGE) then Ret (None, rest)
          else (case buffer_receive rest of
                  None \<Rightarrow> Undef
                | Some (None, rest') \<Rightarrow> Ret (Some [], rest')
                | Some (Some buffer, rest') \<Rightarrow>
                    and_then (of_option (deserialize_all credentials_deserialize buffer))
                      (\<lambda>cs. Ret (Some cs, rest'))))"

definition credentials_ok :: "t_memory_stick_credentials \<Rightarrow> bool" where
  "credentials_ok c \<longleftrightarrow> sendable (cred_ip c) \<and> sendable (cred_port c)"

interpretation credentials: field_codec
  "\<lambda>c. field (string_bytes (cred_ip c)) @ field (string_bytes (cred_port c)) @
       field (u32_bytes (cred_id c)) @ field (u32_bytes (cred_size c))"
  credentials_deserialize credentials_ok
  by unfold_locales
    (auto simp: credentials_deserialize_def credentials_ok_def
      dest!: deserialize_shorter split: option.splits)

lemma stream_uint32_list_add [wire, simp]:
  "stream (uint32_list_add vs pkg) = stream pkg @ concat (map (\<lambda>w. field (u32_bytes w)) vs)"
  "pkg_op (uint32_list_add vs pkg) = pkg_op pkg"
  by (induction vs arbitrary: pkg) simp_all

lemma stream_credentials_list_add [wire, simp]:
  "stream (credentials_list_add cs pkg) = stream pkg @ concat (map
     (\<lambda>c. field (string_bytes (cred_ip c)) @ field (string_bytes (cred_port c)) @
        field (u32_bytes (cred_id c)) @ field (u32_bytes (cred_size c))) cs)"
  "pkg_op (credentials_list_add cs pkg) = pkg_op pkg"
  by (induction cs arbitrary: pkg) (simp_all add: credentials_add_def)

lemma decode_with_serialize [wire]:
  assumes "length bs < 2 ^ 31" and "dec bs = Some (v, r)" and "bs \<noteq> []"
  shows "decode_with dec (u32_bytes (of_nat (length bs)) @ bs @ rest) = Ret (v, rest)"
  using buffer_receive_serialize [OF assms(1), of rest] assms(2,3) by (simp add: decode_with_def)

section \<open>Round trips between modules\<close>

lemma packages_receive_serialize:
  "length (stream p) < 2 ^ 31 \<Longrightarrow>
   packages_receive (package_serialize p @ rest) =
   (op_code_int (pkg_op p), stream p) # packages_receive rest"
  by (simp add: packages_receive.simps [of "package_serialize p @ rest"])

lemma package_sends:
  "foldl (\<lambda>socket p. package_send p socket) socket ps = socket @ concat (map package_serialize ps)"
  by (induction ps arbitrary: socket) (simp_all add: package_send_def)

text \<open>Whatever packages one side sends over a connection, one after the other, the loop of
  the other side (an operation code, then a buffer) reads the same operation codes with the same
  streams in the same order, as long as each stream fits the \<open>int\<close> that holds its size.\<close>
theorem packages_framing:
  assumes "\<forall>p \<in> set ps. length (stream p) < 2 ^ 31"
  shows "packages_receive (foldl (\<lambda>socket p. package_send p socket) [] ps) =
    map (\<lambda>p. (op_code_int (pkg_op p), stream p)) ps"
  using assms by (simp only: package_sends, induction ps) (simp_all add: packages_receive_serialize)

theorem packages_framing_witness:
  "packages_receive (foldl (\<lambda>socket p. package_send p socket) []
     [uint32_send 7, package_with COMPACTION_READY]) =
   [(1, field (u32_bytes 7)), (32, [])]"
  using packages_framing [of "[uint32_send 7, package_with COMPACTION_READY]"]
  by (simp add: uint32_send_def)

text \<open>The list of Memory Stick credentials that Kernel Memory sends to a CPU that connects
  is the list the CPU receives, the empty list included, and the bytes after it stay on the
  socket.\<close>
theorem credentials_list_roundtrip:
  assumes "\<forall>c \<in> set cs. credentials_ok c"
    and "length (stream (send_credentials_list cs)) < 2 ^ 31"
  shows "receive_credentials_list (package_serialize (send_credentials_list cs) @ rest) =
    Ret (Some cs, rest)"
proof -
  let ?enc = "\<lambda>c. field (string_bytes (cred_ip c)) @ field (string_bytes (cred_port c)) @
        field (u32_bytes (cred_id c)) @ field (u32_bytes (cred_size c))"
  have st: "stream (send_credentials_list cs) = concat (map ?enc cs)"
    and op: "pkg_op (send_credentials_list cs) = PACKAGE"
    by (simp_all add: send_credentials_list_def)
  have "deserialize_all credentials_deserialize (concat (map ?enc cs)) = Some cs"
    by (rule credentials.decode_all [OF assms(1)])
  moreover have "concat (map ?enc cs) = [] \<longleftrightarrow> cs = []" by (cases cs) auto
  moreover note buffer_receive_serialize [OF assms(2), of rest, unfolded st]
  ultimately show ?thesis
    unfolding receive_credentials_list_def package_serialize_def op st by simp
qed

theorem credentials_list_roundtrip_witness:
  "receive_credentials_list (package_serialize (send_credentials_list
     [\<lparr>cred_ip = ''127.0.0.1'', cred_port = ''8001'', cred_id = 0, cred_size = 64\<rparr>]) @ [1, 2]) =
   Ret (Some [\<lparr>cred_ip = ''127.0.0.1'', cred_port = ''8001'', cred_id = 0, cred_size = 64\<rparr>], [1, 2])"
  by (rule credentials_list_roundtrip)
    (simp_all add: credentials_ok_def sendable_def c_str_def byte_of_char_def
      send_credentials_list_def credentials_add_def)

text \<open>The list of PIDs of a SWAP_IN request or answer is received as it was sent.\<close>
theorem uint32_list_roundtrip:
  assumes "length vs < 2 ^ 27"
  shows "uint32_list_decode (u32_bytes (of_nat (length (stream (uint32_list_send vs op)))) @
      stream (uint32_list_send vs op) @ rest) = Ret (vs, rest)"
proof -
  have st: "stream (uint32_list_send vs op) = concat (map (\<lambda>w. field (u32_bytes w)) vs)"
    by (simp add: uint32_list_send_def)
  have len: "length (stream (uint32_list_send vs op)) < 2 ^ 31"
    using assms by (simp add: st length_concat comp_def sum_list_triv)
  have "concat (map (\<lambda>w. field (u32_bytes w)) vs) = [] \<longleftrightarrow> vs = []" by (cases vs) auto
  then show ?thesis
    unfolding uint32_list_decode_def buffer_receive_serialize [OF len]
    using uint32.decode_all [of vs] by (simp add: st)
qed

theorem uint32_list_roundtrip_witness:
  "uint32_list_decode (u32_bytes (of_nat (length (stream (uint32_list_send [3, 5] SWAP_IN)))) @
      stream (uint32_list_send [3, 5] SWAP_IN) @ []) = Ret ([3, 5], [])"
  by (rule uint32_list_roundtrip) simp

section \<open>Raw bytes in the log\<close>

definition printable :: "byte \<Rightarrow> bool" where
  "printable b \<longleftrightarrow> 32 \<le> unat b \<and> unat b \<le> 126"

fun decimal :: "nat \<Rightarrow> string" where
  "decimal n = (if n < 10 then [char_of (48 + n)] else decimal (n div 10) @ [char_of (48 + n mod 10)])"

declare decimal.simps [simp del]

definition hex_digit :: "nat \<Rightarrow> char" where
  "hex_digit n = char_of (if n < 10 then 48 + n else 55 + n)"

text \<open>\<open>sprintf("\x%02X")\<close> of a byte.\<close>

definition hex_escape :: "byte \<Rightarrow> string" where
  "hex_escape b = [CHR 0x5C, CHR ''x'', hex_digit (unat b div 16), hex_digit (unat b mod 16)]"

definition bytes_to_safe_string :: "byte list \<Rightarrow> string" where
  "bytes_to_safe_string bytes =
     (if list_all printable bytes then map char_of_byte bytes
      else case bytes of
             [b] \<Rightarrow> decimal (unat b)
           | [a, b, c, d] \<Rightarrow> decimal (unat (bytes_u32 a b c d))
           | _ \<Rightarrow> concat (map (\<lambda>b. if printable b then [char_of_byte b] else hex_escape b) bytes))"

text \<open>The size of the block \<open>malloc\<close> returns for the result, in the \<open>uint32_t\<close>
  arithmetic of the code.\<close>

definition safe_string_alloc :: "byte list \<Rightarrow> nat" where
  "safe_string_alloc bytes =
     (let size = (of_nat (length bytes) :: u32)
      in if list_all printable bytes then unat (size + 1)
         else if size = 1 then 4 else if size = 4 then 11 else unat (size * 4 + 1))"

lemma length_decimal: "n < 10 ^ k \<Longrightarrow> 0 < k \<Longrightarrow> length (decimal n) \<le> k"
proof (induction n arbitrary: k rule: decimal.induct)
  case (1 n)
  show ?case
  proof (cases "n < 10")
    case True
    with "1.prems" show ?thesis by (simp add: decimal.simps)
  next
    case False
    with "1.prems" obtain j where k: "k = Suc j" "0 < j" by (cases k; cases "k - 1") auto
    with "1.prems" have "n div 10 < 10 ^ j" by (simp add: less_mult_imp_div_less mult.commute)
    from "1.IH" [OF False this k(2)] False k show ?thesis
      by (simp add: decimal.simps [of n])
  qed
qed

lemma length_escapes:
  "length (concat (map (\<lambda>b. if printable b then [char_of_byte b] else hex_escape b) bytes))
   \<le> 4 * length bytes"
  by (induction bytes) (auto simp: hex_escape_def)

lemma length_1: "length xs = 1 \<Longrightarrow> \<exists>a. xs = [a]"
  and length_4: "length xs = 4 \<Longrightarrow> \<exists>a b c d. xs = [a, b, c, d]"
  by (auto simp: length_Suc_conv eval_nat_numeral)

text \<open>The text built for the log never overflows the block allocated for it, terminator
  included, whatever the bytes are, up to a gigabyte (above it \<open>size * 4 + 1\<close> wraps).\<close>
theorem bytes_to_safe_string_fits:
  assumes "length bytes < 2 ^ 30 - 1"
  shows "length (bytes_to_safe_string bytes) + 1 \<le> safe_string_alloc bytes"
proof (cases "list_all printable bytes")
  case True
  with assms show ?thesis
    by (simp add: bytes_to_safe_string_def safe_string_alloc_def Let_def unat_word_ariths
        unat_of_nat)
next
  case False
  have n: "of_nat (length bytes) = (1 :: u32) \<longleftrightarrow> length bytes = 1"
    "of_nat (length bytes) = (4 :: u32) \<longleftrightarrow> length bytes = 4"
    using assms by (auto simp: word_unat_eq_iff unat_of_nat)
  have gen: "unat (of_nat (length bytes) * 4 + 1 :: u32) = 4 * length bytes + 1"
    using assms by (simp add: unat_word_ariths unat_of_nat)
  consider b where "bytes = [b]" | a b c d where "bytes = [a, b, c, d]"
    | "length bytes \<noteq> 1" "length bytes \<noteq> 4"
    by (metis length_1 length_4)
  then show ?thesis
  proof cases
    case (1 b)
    with False show ?thesis
      using length_decimal [of "unat b" 3] byte_bound [of b]
      by (simp add: bytes_to_safe_string_def safe_string_alloc_def)
  next
    case (2 a b c d)
    with False show ?thesis
      using length_decimal [of "unat (bytes_u32 a b c d)" 10] u32_bound [of "bytes_u32 a b c d"]
      by (simp add: bytes_to_safe_string_def safe_string_alloc_def)
  next
    case 3
    then have "bytes_to_safe_string bytes =
        concat (map (\<lambda>b. if printable b then [char_of_byte b] else hex_escape b) bytes)"
      using False by (auto simp: bytes_to_safe_string_def split: list.splits)
    with 3 False n gen length_escapes [of bytes] show ?thesis
      by (simp add: safe_string_alloc_def)
  qed
qed

theorem bytes_to_safe_string_fits_witness:
  "length (bytes_to_safe_string [65, 10]) + 1 \<le> safe_string_alloc [65, 10]"
  by (rule bytes_to_safe_string_fits) simp

end
