(* ===== verification/Process_Utils.thy ===== *)
theory Process_Utils
  imports Net_Messages
begin

text \<open>
  \<open>utils/src/utils/process_utils.c\<close> and \<open>memory_utils.c\<close>: process states, interrupt
  reasons, the CPU context, segments and holes, and their transfer: the I/O requests between
  Kernel Scheduler and the I/O modules, and the context (with its segment table) between CPU and
  Kernel Memory, where the writer and the reader live in different modules.
\<close>

section \<open>Process states and interrupt reasons\<close>

datatype t_process_state = NEW | READY | EXEC | BLOCK | SUSP_BLOCK | SUSP_READY | EXIT

datatype t_interrupt_reason =
    QUANTUM_EXPIRED | PRIORITY_PREEMPTION | BSOD | MEMORY_REQUEST | MUTEX_REQUEST
  | MUTEX_LOCKED | IO_REQUEST | PROCESS_EXIT | COMPACTION

fun process_state_to_string :: "t_process_state \<Rightarrow> string" where
  "process_state_to_string NEW = ''NEW''"
| "process_state_to_string READY = ''READY''"
| "process_state_to_string EXEC = ''EXEC''"
| "process_state_to_string BLOCK = ''BLOCK''"
| "process_state_to_string SUSP_BLOCK = ''SUSP_BLOCK''"
| "process_state_to_string SUSP_READY = ''SUSP_READY''"
| "process_state_to_string EXIT = ''EXIT''"

fun interrupt_reason_to_string :: "t_interrupt_reason \<Rightarrow> string" where
  "interrupt_reason_to_string QUANTUM_EXPIRED = ''QUANTUM_EXPIRED''"
| "interrupt_reason_to_string PRIORITY_PREEMPTION = ''PRIORITY_PREEMPTION''"
| "interrupt_reason_to_string BSOD = ''BSOD''"
| "interrupt_reason_to_string MEMORY_REQUEST = ''MEMORY_REQUEST''"
| "interrupt_reason_to_string MUTEX_LOCKED = ''MUTEX_LOCKED''"
| "interrupt_reason_to_string IO_REQUEST = ''IO_REQUEST''"
| "interrupt_reason_to_string PROCESS_EXIT = ''PROCESS_EXIT''"
| "interrupt_reason_to_string COMPACTION = ''COMPACTION''"
| "interrupt_reason_to_string MUTEX_REQUEST = ''MUTEX_REQUEST''"

fun reason_int :: "t_interrupt_reason \<Rightarrow> u32" where
  "reason_int QUANTUM_EXPIRED = 0"
| "reason_int PRIORITY_PREEMPTION = 1"
| "reason_int BSOD = 2"
| "reason_int MEMORY_REQUEST = 3"
| "reason_int MUTEX_REQUEST = 4"
| "reason_int MUTEX_LOCKED = 5"
| "reason_int IO_REQUEST = 6"
| "reason_int PROCESS_EXIT = 7"
| "reason_int COMPACTION = 8"

definition reasons :: "t_interrupt_reason list" where
  "reasons = [QUANTUM_EXPIRED, PRIORITY_PREEMPTION, BSOD, MEMORY_REQUEST, MUTEX_REQUEST,
     MUTEX_LOCKED, IO_REQUEST, PROCESS_EXIT, COMPACTION]"

definition reason_of :: "u32 \<Rightarrow> t_interrupt_reason option" where
  "reason_of n = (if unat n < length reasons then Some (reasons ! unat n) else None)"

lemma reason_of_int [wire, simp]: "reason_of (reason_int r) = Some r"
  by (cases r) (simp_all add: reason_of_def reasons_def)

text \<open>Enumerations are read like an \<open>unsigned int\<close>; an unknown value has no constructor.\<close>

definition t_interrupt_reason_deserialize :: "byte list \<Rightarrow> (t_interrupt_reason \<times> byte list) option" where
  "t_interrupt_reason_deserialize buffer =
     (case uint32_deserialize buffer of
        None \<Rightarrow> None
      | Some (n, rest) \<Rightarrow> map_option (\<lambda>r. (r, rest)) (reason_of n))"

text \<open>This one returns the number as it is, in a variable of another enumeration.\<close>

definition t_process_state_deserialize :: "byte list \<Rightarrow> (u32 \<times> byte list) option" where
  "t_process_state_deserialize = uint32_deserialize"

lemma t_interrupt_reason_deserialize_field [wire, simp]:
  "t_interrupt_reason_deserialize (field (u32_bytes (reason_int r)) @ rest) = Some (r, rest)"
  "t_interrupt_reason_deserialize (field (u32_bytes (reason_int r))) = Some (r, [])"
  by (simp_all add: t_interrupt_reason_deserialize_def)

section \<open>Memory utilities\<close>

record t_segment =
  segment_id :: u32
  seg_base :: u32
  seg_size :: u32

record t_hole =
  hole_base :: u32
  hole_size :: u32

datatype t_segment_result = SEGMENT_OK | SEGMENT_NO_SPACE | SEGMENT_ERROR

fun segment_result_int :: "t_segment_result \<Rightarrow> u32" where
  "segment_result_int SEGMENT_OK = 0"
| "segment_result_int SEGMENT_NO_SPACE = 1"
| "segment_result_int SEGMENT_ERROR = 2"

definition segment_result_of :: "u32 \<Rightarrow> t_segment_result option" where
  "segment_result_of n =
     (if n = 0 then Some SEGMENT_OK else if n = 1 then Some SEGMENT_NO_SPACE
      else if n = 2 then Some SEGMENT_ERROR else None)"

definition segment_result_deserialize :: "byte list \<Rightarrow> (t_segment_result \<times> byte list) option" where
  "segment_result_deserialize buffer =
     (case uint32_deserialize buffer of
        None \<Rightarrow> None
      | Some (n, rest) \<Rightarrow> map_option (\<lambda>r. (r, rest)) (segment_result_of n))"

lemma segment_result_deserialize_field [wire, simp]:
  "segment_result_deserialize (field (u32_bytes (segment_result_int r)) @ rest) = Some (r, rest)"
  "segment_result_deserialize (field (u32_bytes (segment_result_int r))) = Some (r, [])"
  by (cases r; simp add: segment_result_deserialize_def segment_result_of_def)+

text \<open>What Kernel Memory and a CPU keep of a Memory Stick they are connected to.\<close>

record t_memory_stick_info =
  ms_fd :: fd
  ms_id :: u32
  ms_size :: u32
  last_op_result :: "op_code option"
  last_read_buffer :: "byte list option"

section \<open>I/O requests\<close>

record t_io_numeric_process =
  ion_pid :: u32
  ion_value :: u32
  ion_type :: t_io_type

record t_io_string_process =
  ios_pid :: u32
  ios_value :: string
  ios_type :: t_io_type

definition t_io_numeric_process_create :: "u32 \<Rightarrow> u32 \<Rightarrow> t_io_type \<Rightarrow> t_io_numeric_process" where
  "t_io_numeric_process_create p v t = \<lparr>ion_pid = p, ion_value = v, ion_type = t\<rparr>"

definition t_io_string_process_create :: "u32 \<Rightarrow> string \<Rightarrow> t_io_type \<Rightarrow> t_io_string_process" where
  "t_io_string_process_create p v t = \<lparr>ios_pid = p, ios_value = v, ios_type = t\<rparr>"

definition io_numeric_process_send :: "t_io_numeric_process \<Rightarrow> op_code \<Rightarrow> t_package" where
  "io_numeric_process_send io op =
     package_add (u32_bytes (io_type_int (ion_type io)))
       (package_add (u32_bytes (ion_value io))
         (package_add (u32_bytes (ion_pid io)) (package_with op)))"

definition io_string_process_send :: "t_io_string_process \<Rightarrow> op_code \<Rightarrow> t_package" where
  "io_string_process_send io op =
     package_add (u32_bytes (io_type_int (ios_type io)))
       (package_string_add (ios_value io)
         (package_add (u32_bytes (ios_pid io)) (package_with op)))"

text \<open>The readers get the buffer of the package; an empty one is the NULL they return.\<close>

definition io_numeric_process_receive :: "byte list \<Rightarrow> t_io_numeric_process option run" where
  "io_numeric_process_receive buffer =
     (if buffer = [] then Ret None
      else of_option (do {
        (p, b) \<leftarrow> uint32_deserialize buffer;
        (v, b) \<leftarrow> uint32_deserialize b;
        (t, b) \<leftarrow> t_io_type_deserialize b;
        ty \<leftarrow> io_type_of t;
        Some (Some \<lparr>ion_pid = p, ion_value = v, ion_type = ty\<rparr>)
      }))"

definition io_string_process_receive :: "byte list \<Rightarrow> t_io_string_process option run" where
  "io_string_process_receive buffer =
     (if buffer = [] then Ret None
      else of_option (do {
        (p, b) \<leftarrow> uint32_deserialize buffer;
        (v, b) \<leftarrow> string_deserialize b;
        (t, b) \<leftarrow> t_io_type_deserialize b;
        ty \<leftarrow> io_type_of t;
        Some (Some \<lparr>ios_pid = p, ios_value = v, ios_type = ty\<rparr>)
      }))"

lemma io_numeric_process_roundtrip [wire]:
  "io_numeric_process_receive (stream (io_numeric_process_send io op)) = Ret (Some io)"
  by (simp add: io_numeric_process_receive_def io_numeric_process_send_def)

lemma io_string_process_roundtrip [wire]:
  "sendable (ios_value io) \<Longrightarrow>
   io_string_process_receive (stream (io_string_process_send io op)) = Ret (Some io)"
  by (simp add: io_string_process_receive_def io_string_process_send_def)

section \<open>The CPU context\<close>

record t_cpu_context =
  pc :: u32
  ax :: u8
  bx :: u8
  cx :: u8
  dx :: u8
  eax :: u32
  ebx :: u32
  ecx :: u32
  edx :: u32
  si :: u32
  di :: u32

text \<open>The eleven \<open>package_add\<close> calls both senders of a context share.\<close>

definition context_add :: "t_cpu_context \<Rightarrow> t_package \<Rightarrow> t_package" where
  "context_add c pkg =
     package_add (u32_bytes (di c)) (package_add (u32_bytes (si c))
     (package_add (u32_bytes (edx c)) (package_add (u32_bytes (ecx c))
     (package_add (u32_bytes (ebx c)) (package_add (u32_bytes (eax c))
     (package_add [dx c] (package_add [cx c] (package_add [bx c] (package_add [ax c]
     (package_add (u32_bytes (pc c)) pkg))))))))))"

definition context_deserialize :: "byte list \<Rightarrow> (t_cpu_context \<times> byte list) option" where
  "context_deserialize b =
     do {
       (v_pc, b) \<leftarrow> uint32_deserialize b;
       (v_ax, b) \<leftarrow> uint8_deserialize b;
       (v_bx, b) \<leftarrow> uint8_deserialize b;
       (v_cx, b) \<leftarrow> uint8_deserialize b;
       (v_dx, b) \<leftarrow> uint8_deserialize b;
       (v_eax, b) \<leftarrow> uint32_deserialize b;
       (v_ebx, b) \<leftarrow> uint32_deserialize b;
       (v_ecx, b) \<leftarrow> uint32_deserialize b;
       (v_edx, b) \<leftarrow> uint32_deserialize b;
       (v_si, b) \<leftarrow> uint32_deserialize b;
       (v_di, b) \<leftarrow> uint32_deserialize b;
       Some (\<lparr>pc = v_pc, ax = v_ax, bx = v_bx, cx = v_cx, dx = v_dx, eax = v_eax, ebx = v_ebx,
               ecx = v_ecx, edx = v_edx, si = v_si, di = v_di\<rparr>, b)
     }"

text \<open>CPU to Kernel Memory: \<open>context_send\<close>, and the \<open>CONTEXT_TRANSFER\<close> case that
  reads it.\<close>

definition context_send :: "t_cpu_context \<Rightarrow> u32 \<Rightarrow> t_package" where
  "context_send c pid = context_add c (package_add (u32_bytes pid) (package_with CONTEXT_TRANSFER))"

definition context_transfer_receive :: "byte list \<Rightarrow> (u32 \<times> t_cpu_context) run" where
  "context_transfer_receive buffer =
     of_option (do {
       (pid, b) \<leftarrow> uint32_deserialize buffer;
       (c, b) \<leftarrow> context_deserialize b;
       Some (pid, c)
     })"

text \<open>Kernel Memory to CPU: \<open>context_send_from_pcb\<close> adds the segment table.\<close>

definition segment_add :: "t_segment \<Rightarrow> t_package \<Rightarrow> t_package" where
  "segment_add s pkg =
     package_add (u32_bytes (seg_size s)) (package_add (u32_bytes (seg_base s))
       (package_add (u32_bytes (segment_id s)) pkg))"

definition context_send_from_pcb :: "t_cpu_context \<Rightarrow> t_segment list \<Rightarrow> t_package" where
  "context_send_from_pcb c segment_table =
     fold segment_add segment_table
       (package_add (u32_bytes (of_nat (length segment_table)))
         (context_add c (package_with CONTEXT_TRANSFER)))"

definition segment_deserialize :: "byte list \<Rightarrow> (t_segment \<times> byte list) option" where
  "segment_deserialize buffer =
     do {
       (i, b) \<leftarrow> uint32_deserialize buffer;
       (ba, b) \<leftarrow> uint32_deserialize b;
       (sz, b) \<leftarrow> uint32_deserialize b;
       Some (\<lparr>segment_id = i, seg_base = ba, seg_size = sz\<rparr>, b)
     }"

text \<open>\<open>context_receive\<close>; NULL for an empty buffer.\<close>

definition context_receive :: "byte list \<Rightarrow> (t_cpu_context \<times> t_segment list) option run" where
  "context_receive buffer =
     (if buffer = [] then Ret None
      else of_option (do {
        (c, b) \<leftarrow> context_deserialize buffer;
        (seg_count, b) \<leftarrow> uint32_deserialize b;
        (segs, b) \<leftarrow> deserialize_n segment_deserialize (unat seg_count) b;
        Some (Some (c, segs))
      }))"

interpretation segments: field_codec
  "\<lambda>s. field (u32_bytes (segment_id s)) @ field (u32_bytes (seg_base s)) @
       field (u32_bytes (seg_size s))"
  segment_deserialize "\<lambda>_. True"
  by unfold_locales
    (auto simp: segment_deserialize_def bind_eq_Some_conv dest!: deserialize_shorter)

lemma context_deserialize_add [wire, simp]:
  "context_deserialize (stream (context_add c package_create) @ rest) = Some (c, rest)"
  "context_deserialize (stream (context_add c package_create)) = Some (c, [])"
  by (simp_all add: context_add_def context_deserialize_def)

lemma stream_context_add: "stream (context_add c pkg) = stream pkg @ stream (context_add c package_create)"
  by (simp add: context_add_def)

lemma stream_fold_segment_add:
  "stream (fold segment_add segs pkg) = stream pkg @ concat (map
     (\<lambda>s. field (u32_bytes (segment_id s)) @ field (u32_bytes (seg_base s)) @
        field (u32_bytes (seg_size s))) segs)"
  by (induction segs arbitrary: pkg) (simp_all add: segment_add_def)

text \<open>The context a CPU saves in Kernel Memory is, field by field, the context of that
  process that Kernel Memory stores.\<close>
theorem context_save_roundtrip:
  "context_transfer_receive (stream (context_send c pid)) = Ret (pid, c)"
  unfolding context_transfer_receive_def context_send_def
  by (subst stream_context_add) simp

text \<open>A CPU that asks for the context of a process receives the registers and the whole
  segment table that Kernel Memory holds for it, in order.\<close>
theorem context_load_roundtrip:
  assumes "length segment_table < 2 ^ 32"
  shows "context_receive (stream (context_send_from_pcb c segment_table)) =
    Ret (Some (c, segment_table))"
proof -
  have st: "stream (context_send_from_pcb c segment_table) =
      stream (context_add c package_create) @
      field (u32_bytes (of_nat (length segment_table))) @
      concat (map (\<lambda>s. field (u32_bytes (segment_id s)) @ field (u32_bytes (seg_base s)) @
        field (u32_bytes (seg_size s))) segment_table)"
    unfolding context_send_from_pcb_def stream_fold_segment_add
    by (subst stream_package_add) (simp add: stream_context_add [of c "package_with _"])
  have ne: "stream (context_add c package_create) \<noteq> []" by (simp add: context_add_def)
  have n: "unat (of_nat (length segment_table) :: u32) = length segment_table"
    using assms by simp
  show ?thesis
    using segments.decode_n [of segment_table "[]"] ne
    by (simp add: context_receive_def st n)
qed

theorem context_load_roundtrip_witness:
  "context_receive (stream (context_send_from_pcb
     \<lparr>pc = 3, ax = 1, bx = 0, cx = 0, dx = 0, eax = 9, ebx = 0, ecx = 0, edx = 0, si = 0, di = 4\<rparr>
     [\<lparr>segment_id = 0, seg_base = 16, seg_size = 8\<rparr>])) =
   Ret (Some (\<lparr>pc = 3, ax = 1, bx = 0, cx = 0, dx = 0, eax = 9, ebx = 0, ecx = 0, edx = 0,
     si = 0, di = 4\<rparr>, [\<lparr>segment_id = 0, seg_base = 16, seg_size = 8\<rparr>]))"
  by (rule context_load_roundtrip) simp

end
