(* ===== verification/Memory_Stick.thy ===== *)
theory Memory_Stick
  imports Process_Utils
begin

text \<open>
  The Memory Stick module (\<open>memory_stick/src/main.c\<close>): a block of bytes served to Kernel
  Memory and to the CPUs. \<open>handle_read\<close> and \<open>handle_write\<close> get the buffer of the
  request (the empty list is the NULL of an empty package) and give the answer, if any, that is
  sent back. Bounds are checked in the \<open>uint32_t\<close> arithmetic of the code; an access outside
  of the block, or of the request, is \<open>Undef\<close>.
\<close>

record memory_stick =
  stick_size :: u32
  stick_memory :: "byte list"

definition stick_wf :: "memory_stick \<Rightarrow> bool" where
  "stick_wf ms \<longleftrightarrow> length (stick_memory ms) = unat (stick_size ms)"

text \<open>The start of \<open>main\<close>: a size of 0 is refused, the block starts zeroed.\<close>

definition memory_stick_create :: "u32 \<Rightarrow> memory_stick option" where
  "memory_stick_create sz =
     (if sz = 0 then None
      else Some \<lparr>stick_size = sz, stick_memory = replicate (unat sz) 0\<rparr>)"

definition ms_write_response :: "bool \<Rightarrow> t_package" where
  "ms_write_response ok = package_add [bool_byte ok] (package_with MS_WRITE_RESPONSE)"

definition handle_write :: "byte list \<Rightarrow> memory_stick \<Rightarrow> (memory_stick \<times> t_package) run" where
  "handle_write buffer ms =
     (if buffer = [] then Ret (ms, ms_write_response False)
      else case do { (local_offset, b) \<leftarrow> uint32_deserialize buffer;
                     (write_size, b) \<leftarrow> uint32_deserialize b;
                     Some (local_offset, write_size, b) } of
             None \<Rightarrow> Undef
           | Some (local_offset, write_size, b) \<Rightarrow>
               if length b < 4 then Undef
               else let data = drop 4 b in
                 if local_offset + write_size > stick_size ms
                 then Ret (ms, ms_write_response False)
                 else if unat local_offset + unat write_size \<le> length (stick_memory ms)
                         \<and> unat write_size \<le> length data
                 then Ret (ms\<lparr>stick_memory := overwrite (unat local_offset)
                                (take (unat write_size) data) (stick_memory ms)\<rparr>,
                           ms_write_response True)
                 else Undef)"

definition handle_read :: "byte list \<Rightarrow> memory_stick \<Rightarrow> t_package option run" where
  "handle_read buffer ms =
     (if buffer = [] then Ret None
      else case do { (local_offset, b) \<leftarrow> uint32_deserialize buffer;
                     (read_size, b) \<leftarrow> uint32_deserialize b;
                     Some (local_offset, read_size) } of
             None \<Rightarrow> Undef
           | Some (local_offset, read_size) \<Rightarrow>
               if local_offset + read_size > stick_size ms then Ret None
               else if unat local_offset + unat read_size \<le> length (stick_memory ms)
               then Ret (Some (package_add
                      (slice (unat local_offset) (unat read_size) (stick_memory ms))
                      (package_with MS_READ_RESPONSE)))
               else Undef)"

text \<open>One round of the two service loops. An unknown operation is logged; its buffer stays on
  the socket.\<close>

definition kernel_memory_thread ::
  "op_code \<Rightarrow> byte list \<Rightarrow> memory_stick \<Rightarrow> (memory_stick \<times> t_package option) run" where
  "kernel_memory_thread op buffer ms =
     (case op of
        MS_READ \<Rightarrow> and_then (handle_read buffer ms) (\<lambda>resp. Ret (ms, resp))
      | MS_WRITE \<Rightarrow> and_then (handle_write buffer ms) (\<lambda>(ms', resp). Ret (ms', Some resp))
      | _ \<Rightarrow> Ret (ms, None))"

definition stick_cpu_handler ::
  "op_code \<Rightarrow> byte list \<Rightarrow> memory_stick \<Rightarrow> (memory_stick \<times> t_package option) run" where
  "stick_cpu_handler op buffer ms =
     (case op of
        MS_WRITE \<Rightarrow> and_then (handle_write buffer ms) (\<lambda>(ms', resp). Ret (ms', Some resp))
      | MS_READ \<Rightarrow> and_then (handle_read buffer ms) (\<lambda>resp. Ret (ms, resp))
      | _ \<Rightarrow> Ret (ms, None))"

text \<open>The requests of \<open>memory_read\<close> and \<open>memory_write\<close>, in Kernel Memory and in the CPU.\<close>

definition ms_read_request :: "u32 \<Rightarrow> u32 \<Rightarrow> t_package" where
  "ms_read_request local_offset chunk =
     package_add (u32_bytes chunk) (package_add (u32_bytes local_offset) (package_with MS_READ))"

definition ms_write_request :: "u32 \<Rightarrow> u32 \<Rightarrow> byte list \<Rightarrow> t_package" where
  "ms_write_request local_offset chunk data =
     package_add data (package_add (u32_bytes chunk)
       (package_add (u32_bytes local_offset) (package_with MS_WRITE)))"

section \<open>Reading and writing a stick\<close>

lemma requests [simp]:
  "pkg_op (ms_read_request off n) = MS_READ" "pkg_op (ms_write_request off n d) = MS_WRITE"
  "stream (ms_read_request off n) = field (u32_bytes off) @ field (u32_bytes n)"
  "stream (ms_write_request off n d) = field (u32_bytes off) @ field (u32_bytes n) @ field d"
  by (simp_all add: ms_read_request_def ms_write_request_def)

lemma in_stick_no_wrap:
  assumes "unat off + unat n \<le> unat (s :: u32)"
  shows "\<not> off + n > s"
proof -
  have "unat off + unat n < 4294967296" using assms u32_bound [of s] by linarith
  then show ?thesis using assms by (simp add: u32_less_iff u32_add_unat not_less)
qed

lemma handle_read_ok:
  assumes "stick_wf ms" and "unat off + unat n \<le> unat (stick_size ms)"
  shows "handle_read (stream (ms_read_request off n)) ms =
    Ret (Some (package_add (slice (unat off) (unat n) (stick_memory ms))
      (package_with MS_READ_RESPONSE)))"
  using assms in_stick_no_wrap [OF assms(2)] by (simp add: handle_read_def stick_wf_def)

lemma handle_write_ok:
  assumes "stick_wf ms" and "unat off + unat n \<le> unat (stick_size ms)" and "length d = unat n"
  shows "handle_write (stream (ms_write_request off n d)) ms =
    Ret (ms\<lparr>stick_memory := overwrite (unat off) d (stick_memory ms)\<rparr>, ms_write_response True)"
  using assms in_stick_no_wrap [OF assms(2)] by (simp add: handle_write_def stick_wf_def)

lemma stick_wf_overwrite [simp]:
  "stick_wf ms \<Longrightarrow> off + length d \<le> length (stick_memory ms) \<Longrightarrow>
   stick_wf (ms\<lparr>stick_memory := overwrite off d (stick_memory ms)\<rparr>)"
  by (simp add: stick_wf_def)



text \<open>The bounds check of a write is done in 32-bit arithmetic that wraps around: a request at
  offset \<open>0xFFFFFFFF\<close> for one byte passes it on every stick, and the copy goes outside of the
  block.\<close>
theorem handle_write_check_wraps:
  "stick_wf ms \<Longrightarrow> handle_write (stream (ms_write_request 0xFFFFFFFF 1 [x])) ms = Undef"
  using u32_bound [of "stick_size ms"]
  by (simp add: handle_write_def stick_wf_def u32_less_iff)

theorem handle_write_check_wraps_witness:
  "handle_write (stream (ms_write_request 0xFFFFFFFF 1 [7]))
     \<lparr>stick_size = 2, stick_memory = [0, 0]\<rparr> = Undef"
  by (rule handle_write_check_wraps) (simp add: stick_wf_def)

text \<open>A read that is out of range gets no answer at all, so the thread of Kernel Memory or of
  the CPU that sent it waits on its semaphore forever.\<close>
theorem handle_read_out_of_range_silent:
  assumes "local_offset + read_size > stick_size ms"
  shows "kernel_memory_thread MS_READ (stream (ms_read_request local_offset read_size)) ms =
    Ret (ms, None)"
  using assms by (simp add: kernel_memory_thread_def handle_read_def)

theorem handle_read_out_of_range_silent_witness:
  "kernel_memory_thread MS_READ (stream (ms_read_request 1 2))
     \<lparr>stick_size = 2, stick_memory = [0, 0]\<rparr> =
   Ret (\<lparr>stick_size = 2, stick_memory = [0, 0]\<rparr>, None)"
  by (rule handle_read_out_of_range_silent) simp

end
