(* ===== verification/Memory_Access.thy ===== *)
theory Memory_Access
  imports Memory_Stick
begin

text \<open>
  Physical memory as Kernel Memory and the CPUs see it: the connected Memory Sticks one after the
  other, in the order of connection. \<open>memory_read\<close> and \<open>memory_write\<close> split an access
  into one request per stick and wait for each answer. Both programs contain the same loops
  (\<open>kernel_memory/src/memory_manage.c\<close> and \<open>cpu/src/manage_instructions.c\<close>); they
  differ in the thread that receives the answers, which is the parameter \<open>exchange\<close> here. The
  locale \<open>byte_store\<close> is what the callers rely on (a flat array of bytes), the locale
  \<open>stick_link\<close> what the loops need of one exchange with a stick.
\<close>

section \<open>The contract of a byte store\<close>

locale byte_store =
  fixes rd :: "'s \<Rightarrow> u32 \<Rightarrow> u32 \<Rightarrow> (byte list option \<times> 's) run"
    and wr :: "'s \<Rightarrow> u32 \<Rightarrow> byte list \<Rightarrow> u32 \<Rightarrow> (bool \<times> 's) run"
    and content :: "'s \<Rightarrow> byte list"
    and valid :: "'s \<Rightarrow> bool"
  assumes rd: "valid s \<Longrightarrow> unat a + unat n \<le> length (content s) \<Longrightarrow>
      rd s a n = Ret (Some (slice (unat a) (unat n) (content s)), s)"
    and wr: "valid s \<Longrightarrow> unat a + unat n \<le> length (content s) \<Longrightarrow> length d = unat n \<Longrightarrow>
      \<exists>s'. wr s a d n = Ret (True, s') \<and> valid s' \<and> content s' = overwrite (unat a) d (content s)"
begin

lemma read_after_write:
  assumes "valid s" "unat a + unat n \<le> length (content s)" "length d = unat n"
  shows "\<exists>s'. wr s a d n = Ret (True, s') \<and> rd s' a n = Ret (Some d, s')"
  using wr [OF assms] assms by (auto simp: rd slice_overwrite_same)

lemma read_other_after_write:
  assumes "valid s" "unat a + unat n \<le> length (content s)" "length d = unat n"
    and "unat p + unat m \<le> length (content s)"
    and "unat p + unat m \<le> unat a \<or> unat a + unat n \<le> unat p"
  shows "\<exists>s'. wr s a d n = Ret (True, s') \<and>
    rd s' p m = Ret (Some (slice (unat p) (unat m) (content s)), s')"
  using wr [OF assms(1-3)] assms by (auto simp: rd slice_overwrite_disjoint)

end

section \<open>Finding the stick of an address\<close>

text \<open>The connections: the stick behind each file descriptor.\<close>

type_synonym sticks = "fd \<rightharpoonup> memory_stick"

fun find_stick :: "t_memory_stick_info list \<Rightarrow> u32 \<Rightarrow> u32 \<Rightarrow> (t_memory_stick_info \<times> u32) option" where
  "find_stick [] physical_address cursor = None"
| "find_stick (ms # rest) physical_address cursor =
     (if physical_address < cursor + ms_size ms then Some (ms, physical_address - cursor)
      else find_stick rest physical_address (cursor + ms_size ms))"

definition get_memory_stick_by_address ::
  "t_memory_stick_info list \<Rightarrow> u32 \<Rightarrow> (t_memory_stick_info \<times> u32) option" where
  "get_memory_stick_by_address list_memory_stick physical_address =
     find_stick list_memory_stick physical_address 0"

text \<open>
  Whatever the sizes are, even when their sum wraps around, the offset is inside of the stick:
  this is what makes the loops below progress.
\<close>

lemma find_stick_local:
  "find_stick infos a cursor = Some (ms, off) \<Longrightarrow> cursor \<le> a \<Longrightarrow> off < ms_size ms"
proof (induction infos arbitrary: cursor)
  case Nil
  then show ?case by simp
next
  case (Cons i infos)
  show ?case
  proof (cases "a < cursor + ms_size i")
    case True
    with Cons.prems have "ms = i" "off = a - cursor" by auto
    moreover have "a - cursor < ms_size i"
      using True Cons.prems(2)
      by (auto simp: u32_less_iff u32_le_iff u32_add_mod u32_sub_unat split: if_splits)
    ultimately show ?thesis by simp
  next
    case False
    with Cons.prems show ?thesis by (intro Cons.IH [of "cursor + ms_size i"]) auto
  qed
qed


lemma get_memory_stick_local:
  "get_memory_stick_by_address infos a = Some (ms, off) \<Longrightarrow> off < ms_size ms"
  unfolding get_memory_stick_by_address_def by (rule find_stick_local) auto

lemma get_memory_stick_member:
  "get_memory_stick_by_address infos a = Some (ms, off) \<Longrightarrow> ms \<in> set infos"
proof -
  have "find_stick infos a c = Some (ms, off) \<Longrightarrow> ms \<in> set infos" for c
    by (induction infos arbitrary: c) (auto split: if_splits)
  then show "get_memory_stick_by_address infos a = Some (ms, off) \<Longrightarrow> ms \<in> set infos"
    by (auto simp: get_memory_stick_by_address_def)
qed

text \<open>The size of one request: what is left, but not past the end of the stick.\<close>

definition next_chunk :: "u32 \<Rightarrow> u32 \<Rightarrow> t_memory_stick_info \<Rightarrow> u32 \<Rightarrow> u32" where
  "next_chunk sz bytes_done ms local_offset =
     (let available_in_stick = ms_size ms - local_offset;
          remaining = sz - bytes_done
      in if remaining < available_in_stick then remaining else available_in_stick)"

lemma next_chunk_bounds:
  assumes "bytes_done < sz" and "off < ms_size ms"
  shows "0 < unat (next_chunk sz bytes_done ms off)"
    and "unat (next_chunk sz bytes_done ms off) \<le> unat sz - unat bytes_done"
    and "unat off + unat (next_chunk sz bytes_done ms off) \<le> unat (ms_size ms)"
    and "unat (bytes_done + next_chunk sz bytes_done ms off) =
      unat bytes_done + unat (next_chunk sz bytes_done ms off)"
    and "unat (next_chunk sz bytes_done ms off) =
      min (unat sz - unat bytes_done) (unat (ms_size ms) - unat off)"
proof -
  have m: "unat (next_chunk sz bytes_done ms off) =
      min (unat sz - unat bytes_done) (unat (ms_size ms) - unat off)"
    using assms by (auto simp: next_chunk_def Let_def u32_less_iff u32_sub_unat u32_le_iff)
  then show "unat (next_chunk sz bytes_done ms off) =
      min (unat sz - unat bytes_done) (unat (ms_size ms) - unat off)" .
  show "0 < unat (next_chunk sz bytes_done ms off)"
    and le: "unat (next_chunk sz bytes_done ms off) \<le> unat sz - unat bytes_done"
    and "unat off + unat (next_chunk sz bytes_done ms off) \<le> unat (ms_size ms)"
    using assms unfolding m by (auto simp: u32_less_iff)
  show "unat (bytes_done + next_chunk sz bytes_done ms off) =
      unat bytes_done + unat (next_chunk sz bytes_done ms off)"
  proof (rule u32_add_unat)
    show "unat bytes_done + unat (next_chunk sz bytes_done ms off) < 4294967296"
      using le assms(1) [unfolded u32_less_iff] u32_bound [of sz] by linarith
  qed
qed

lemma next_chunk_progress:
  assumes "bytes_done < sz" and "off < ms_size ms"
  shows "unat (sz - (bytes_done + next_chunk sz bytes_done ms off)) < unat (sz - bytes_done)"
proof -
  note b = next_chunk_bounds [where sz = sz and bytes_done = bytes_done and ms = ms and off = off, OF assms]
  have "bytes_done + next_chunk sz bytes_done ms off \<le> sz"
    using b(2,4) assms(1) by (simp add: u32_le_iff u32_less_iff)
  then show ?thesis
    using b(1,2,4) assms(1) less_imp_le [OF assms(1)] by (simp add: u32_sub_unat u32_less_iff)
qed

section \<open>The access loops\<close>

type_synonym exchange =
  "sticks \<Rightarrow> t_memory_stick_info \<Rightarrow> t_package \<Rightarrow> (sticks \<times> t_memory_stick_info) run"

text \<open>
  \<open>memory_read\<close>: the collected bytes, or NULL when an address has no stick. The answer of
  each request is taken from \<open>last_read_buffer\<close>; \<open>bytes_to_safe_string\<close> looks at it before
  it is compared with NULL, so a NULL there is undefined behaviour.
\<close>

function memory_read_loop ::
  "exchange \<Rightarrow> sticks \<Rightarrow> t_memory_stick_info list \<Rightarrow> u32 \<Rightarrow> u32 \<Rightarrow> u32 \<Rightarrow> byte list \<Rightarrow>
   (byte list option \<times> sticks) run"
where
  "memory_read_loop ex net infos physical_address sz bytes_done result =
     (if bytes_done < sz then
        (case get_memory_stick_by_address infos (physical_address + bytes_done) of
           None \<Rightarrow> Ret (None, net)
         | Some (ms, local_offset) \<Rightarrow>
             let chunk = next_chunk sz bytes_done ms local_offset in
             and_then (ex net ms (ms_read_request local_offset chunk)) (\<lambda>(net', ms').
               case last_read_buffer ms' of
                 None \<Rightarrow> Undef
               | Some chunk_data \<Rightarrow>
                   if length chunk_data < unat chunk then Undef
                   else memory_read_loop ex net' infos physical_address sz (bytes_done + chunk)
                          (result @ take (unat chunk) chunk_data)))
      else Ret (Some result, net))"
  by pat_completeness auto
termination
  by (relation "measure (\<lambda>(ex, net, infos, a, sz, bytes_done, result). unat (sz - bytes_done))")
    (auto intro!: next_chunk_progress get_memory_stick_local)

declare memory_read_loop.simps [simp del]

text \<open>
  \<open>memory_write\<close>: the chunk of the data that goes to one stick is
  \<open>data + bytes_done\<close>, of \<open>chunk\<close> bytes.
\<close>

function memory_write_loop ::
  "exchange \<Rightarrow> sticks \<Rightarrow> t_memory_stick_info list \<Rightarrow> u32 \<Rightarrow> byte list \<Rightarrow> u32 \<Rightarrow> u32 \<Rightarrow>
   (bool \<times> sticks) run"
where
  "memory_write_loop ex net infos physical_address data sz bytes_done =
     (if bytes_done < sz then
        (case get_memory_stick_by_address infos (physical_address + bytes_done) of
           None \<Rightarrow> Ret (False, net)
         | Some (ms, local_offset) \<Rightarrow>
             let chunk = next_chunk sz bytes_done ms local_offset in
             if length data < unat bytes_done + unat chunk then Undef
             else and_then (ex net ms (ms_write_request local_offset chunk
                    (slice (unat bytes_done) (unat chunk) data))) (\<lambda>(net', ms').
               if last_op_result ms' = Some MS_WRITE_RESPONSE
               then memory_write_loop ex net' infos physical_address data sz (bytes_done + chunk)
               else Ret (False, net')))
      else Ret (True, net))"
  by pat_completeness auto
termination
  by (relation "measure (\<lambda>(ex, net, infos, a, data, sz, bytes_done). unat (sz - bytes_done))")
    (auto intro!: next_chunk_progress get_memory_stick_local)

declare memory_write_loop.simps [simp del]

section \<open>Correctness of the loops\<close>

text \<open>The bytes of one stick, of all of them, and when they match what is known of them.\<close>

definition stick_bytes :: "sticks \<Rightarrow> t_memory_stick_info \<Rightarrow> byte list" where
  "stick_bytes net ms = (case net (ms_fd ms) of None \<Rightarrow> [] | Some st \<Rightarrow> stick_memory st)"

definition flat :: "sticks \<Rightarrow> t_memory_stick_info list \<Rightarrow> byte list" where
  "flat net infos = concat (map (stick_bytes net) infos)"

definition link_ok :: "sticks \<Rightarrow> t_memory_stick_info \<Rightarrow> bool" where
  "link_ok net ms \<longleftrightarrow>
     (case net (ms_fd ms) of
        None \<Rightarrow> False
      | Some st \<Rightarrow> stick_wf st \<and> stick_size st = ms_size ms)"

definition sticks_ok :: "sticks \<Rightarrow> t_memory_stick_info list \<Rightarrow> bool" where
  "sticks_ok net infos \<longleftrightarrow>
     distinct (map ms_fd infos) \<and> (\<forall>ms \<in> set infos. link_ok net ms) \<and>
     length (flat net infos) < 2 ^ 30"

lemma flat_simps [simp]:
  "flat net [] = []" "flat net (ms # infos) = stick_bytes net ms @ flat net infos"
  "flat net (xs @ ys) = flat net xs @ flat net ys"
  by (simp_all add: flat_def)

lemma link_okE:
  assumes "link_ok net ms"
  obtains st where "net (ms_fd ms) = Some st" "stick_wf st" "stick_size st = ms_size ms"
    "stick_bytes net ms = stick_memory st" "length (stick_memory st) = unat (ms_size ms)"
  using assms by (auto simp: link_ok_def stick_bytes_def stick_wf_def split: option.splits)

lemma link_ok_length [simp]: "link_ok net ms \<Longrightarrow> length (stick_bytes net ms) = unat (ms_size ms)"
  by (erule link_okE) simp

lemma find_stick_Some:
  assumes "\<forall>ms \<in> set infos. link_ok net ms"
    and "unat cursor + length (flat net infos) < 4294967296"
    and "unat cursor \<le> unat a" and "unat a < unat cursor + length (flat net infos)"
  shows "\<exists>pre ms post. infos = pre @ ms # post \<and>
    unat cursor + length (flat net pre) \<le> unat a \<and>
    unat a < unat cursor + length (flat net pre) + unat (ms_size ms) \<and>
    find_stick infos a cursor = Some (ms, of_nat (unat a - (unat cursor + length (flat net pre))))"
  using assms
proof (induction infos arbitrary: cursor)
  case Nil
  then show ?case by simp
next
  case (Cons i infos)
  have i: "link_ok net i" using Cons.prems(1) by simp
  then have c: "unat (cursor + ms_size i) = unat cursor + unat (ms_size i)"
    using Cons.prems(2) by (intro u32_add_unat) simp
  show ?case
  proof (cases "a < cursor + ms_size i")
    case True
    have "a - cursor = of_nat (unat a - unat cursor)"
      using Cons.prems(3) by (simp add: u32_sub_unat [symmetric] u32_le_iff)
    with True Cons.prems(3) c show ?thesis
      by (intro exI [of _ "[]"] exI [of _ i] exI [of _ infos]) (simp add: u32_less_iff)
  next
    case False
    then have "unat (cursor + ms_size i) \<le> unat a" by (simp add: u32_less_iff)
    then obtain pre ms post where "infos = pre @ ms # post"
      "unat (cursor + ms_size i) + length (flat net pre) \<le> unat a"
      "unat a < unat (cursor + ms_size i) + length (flat net pre) + unat (ms_size ms)"
      "find_stick infos a (cursor + ms_size i) =
         Some (ms, of_nat (unat a - (unat (cursor + ms_size i) + length (flat net pre))))"
      using Cons.IH [of "cursor + ms_size i"] Cons.prems i c by (auto simp: add.assoc)
    with False i c show ?thesis
      by (intro exI [of _ "i # pre"] exI [of _ ms] exI [of _ post]) (simp add: add.assoc)
  qed
qed

lemma get_memory_stick_Some:
  assumes "sticks_ok net infos" and "unat a < length (flat net infos)"
  obtains pre ms post where "infos = pre @ ms # post"
    and "length (flat net pre) \<le> unat a" and "unat a < length (flat net pre) + unat (ms_size ms)"
    and "get_memory_stick_by_address infos a = Some (ms, of_nat (unat a - length (flat net pre)))"
  using find_stick_Some [of infos net 0 a] assms
  by (auto simp: sticks_ok_def get_memory_stick_by_address_def)

lemma find_stick_None:
  assumes "\<forall>ms \<in> set infos. link_ok net ms"
    and "unat cursor + length (flat net infos) < 4294967296"
    and "unat cursor + length (flat net infos) \<le> unat a"
  shows "find_stick infos a cursor = None"
  using assms
proof (induction infos arbitrary: cursor)
  case (Cons i infos)
  then have "unat (cursor + ms_size i) = unat cursor + unat (ms_size i)"
    by (intro u32_add_unat) simp
  with Cons show ?case by (simp add: u32_less_iff add.assoc)
qed simp

lemma get_memory_stick_None:
  "sticks_ok net infos \<Longrightarrow> length (flat net infos) \<le> unat a \<Longrightarrow>
   get_memory_stick_by_address infos a = None"
  using find_stick_None [of infos net 0 a] by (simp add: sticks_ok_def get_memory_stick_by_address_def)

text \<open>The state of a byte store: the connections and the list of the known sticks.\<close>

type_synonym memory = "sticks \<times> t_memory_stick_info list"

definition memory_content :: "memory \<Rightarrow> byte list" where
  "memory_content s = flat (fst s) (snd s)"

definition memory_valid :: "memory \<Rightarrow> bool" where
  "memory_valid s \<longleftrightarrow> sticks_ok (fst s) (snd s)"

definition memory_read_with :: "exchange \<Rightarrow> memory \<Rightarrow> u32 \<Rightarrow> u32 \<Rightarrow> (byte list option \<times> memory) run"
where
  "memory_read_with ex s physical_address sz =
     and_then (memory_read_loop ex (fst s) (snd s) physical_address sz 0 [])
       (\<lambda>(d, net). Ret (d, (net, snd s)))"

definition memory_write_with :: "exchange \<Rightarrow> memory \<Rightarrow> u32 \<Rightarrow> byte list \<Rightarrow> u32 \<Rightarrow> (bool \<times> memory) run"
where
  "memory_write_with ex s physical_address data sz =
     and_then (memory_write_loop ex (fst s) (snd s) physical_address data sz 0)
       (\<lambda>(ok, net). Ret (ok, (net, snd s)))"

lemma slice_middle:
  "off + n \<le> length ys \<Longrightarrow> slice (length xs + off) n (xs @ ys @ zs) = slice off n ys"
  by (simp add: slice_def)

lemma overwrite_middle:
  "off + length d \<le> length ys \<Longrightarrow>
   overwrite (length xs + off) d (xs @ ys @ zs) = xs @ overwrite off d ys @ zs"
  by (simp add: overwrite_def)

lemma sticks_ok_update:
  assumes "sticks_ok net infos" and "infos = pre @ ms # post" and "net (ms_fd ms) = Some st"
    and "off + length d \<le> unat (ms_size ms)"
  defines "net' \<equiv> net(ms_fd ms \<mapsto> st\<lparr>stick_memory := overwrite off d (stick_memory st)\<rparr>)"
  shows "flat net' infos = overwrite (length (flat net pre) + off) d (flat net infos)"
    and "sticks_ok net' infos"
proof -
  have ok: "link_ok net ms" and len: "length (stick_memory st) = unat (ms_size ms)"
    and mem: "stick_bytes net ms = stick_memory st"
    using assms(1-3) by (auto simp: sticks_ok_def link_ok_def stick_bytes_def stick_wf_def)
  have other: "stick_bytes net' i = stick_bytes net i" "link_ok net' i = link_ok net i"
    if "i \<in> set pre \<union> set post" for i
  proof -
    have "ms_fd i \<in> ms_fd ` set pre \<union> ms_fd ` set post" using that by blast
    moreover have "ms_fd ms \<notin> ms_fd ` set pre \<union> ms_fd ` set post"
      using assms(1,2) by (simp add: sticks_ok_def)
    ultimately have "ms_fd i \<noteq> ms_fd ms" by metis
    then show "stick_bytes net' i = stick_bytes net i" "link_ok net' i = link_ok net i"
      by (simp_all add: stick_bytes_def link_ok_def net'_def)
  qed
  have "flat net' pre = flat net pre" "flat net' post = flat net post"
    using other by (auto simp: flat_def intro!: arg_cong [where f = concat] map_cong)
  moreover have "stick_bytes net' ms = overwrite off d (stick_memory st)"
    by (simp add: stick_bytes_def net'_def)
  ultimately show flat: "flat net' infos = overwrite (length (flat net pre) + off) d (flat net infos)"
    using assms(4) len mem by (simp add: assms(2) overwrite_middle)
  have "length (flat net pre) + off + length d \<le> length (flat net infos)"
    using assms(2,4) ok by simp
  then have "length (flat net' infos) = length (flat net infos)" by (simp add: flat)
  moreover have "link_ok net' ms"
    using ok assms(3,4) len by (simp add: link_ok_def net'_def)
  ultimately show "sticks_ok net' infos"
    using assms(1,2) other by (auto simp: sticks_ok_def)
qed

locale stick_link =
  fixes ex :: exchange
  assumes ex_read: "link_ok net ms \<Longrightarrow> net (ms_fd ms) = Some st \<Longrightarrow>
      unat off + unat n \<le> unat (ms_size ms) \<Longrightarrow> unat n < 2 ^ 30 \<Longrightarrow>
      \<exists>ms'. ex net ms (ms_read_request off n) = Ret (net, ms') \<and>
        last_read_buffer ms' = Some (slice (unat off) (unat n) (stick_memory st))"
    and ex_write: "link_ok net ms \<Longrightarrow> net (ms_fd ms) = Some st \<Longrightarrow>
      unat off + unat n \<le> unat (ms_size ms) \<Longrightarrow> length d = unat n \<Longrightarrow> unat n < 2 ^ 30 \<Longrightarrow>
      \<exists>ms'. ex net ms (ms_write_request off n d) =
          Ret (net(ms_fd ms \<mapsto> st\<lparr>stick_memory := overwrite (unat off) d (stick_memory st)\<rparr>), ms') \<and>
        last_op_result ms' = Some MS_WRITE_RESPONSE"
begin

text \<open>One round of each loop, at an address that has a stick: \<open>p\<close> is the flat address, \<open>n\<close>
  the size of the chunk.\<close>

lemma read_round:
  assumes ok: "sticks_ok net infos" and dn: "bytes_done < sz"
    and nw: "unat a + unat bytes_done < length (flat net infos)"
  shows "\<exists>chunk. 0 < unat chunk \<and> unat chunk \<le> unat sz - unat bytes_done \<and>
    unat (bytes_done + chunk) = unat bytes_done + unat chunk \<and>
    unat a + unat bytes_done + unat chunk \<le> length (flat net infos) \<and>
    memory_read_loop ex net infos a sz bytes_done res =
      memory_read_loop ex net infos a sz (bytes_done + chunk)
        (res @ slice (unat a + unat bytes_done) (unat chunk) (flat net infos))"
proof -
  have len: "length (flat net infos) < 2 ^ 30" using ok by (simp add: sticks_ok_def)
  have p: "unat (a + bytes_done) = unat a + unat bytes_done"
    using nw len by (intro u32_add_unat) simp
  obtain pre ms post where infos: "infos = pre @ ms # post"
    and lo: "length (flat net pre) \<le> unat (a + bytes_done)"
    and hi: "unat (a + bytes_done) < length (flat net pre) + unat (ms_size ms)"
    and get: "get_memory_stick_by_address infos (a + bytes_done) =
      Some (ms, of_nat (unat (a + bytes_done) - length (flat net pre)))"
    using get_memory_stick_Some [OF ok, of "a + bytes_done"] nw p by auto
  define off where "off = (of_nat (unat (a + bytes_done) - length (flat net pre)) :: u32)"
  have off: "unat off = unat a + unat bytes_done - length (flat net pre)"
    using p u32_bound [of "a + bytes_done"] by (simp add: off_def)
  have "off < ms_size ms" using get_memory_stick_local [OF get] by (simp add: off_def)
  note b = next_chunk_bounds [where sz = sz and bytes_done = bytes_done and ms = ms and off = off,
      OF dn this]
  define chunk where "chunk = next_chunk sz bytes_done ms off"
  have lk: "link_ok net ms" using ok infos by (simp add: sticks_ok_def)
  then obtain st where st: "net (ms_fd ms) = Some st" "stick_bytes net ms = stick_memory st"
    "length (stick_memory st) = unat (ms_size ms)" by (rule link_okE)
  have fit: "unat off + unat chunk \<le> length (stick_memory st)" using b(3) st(3) by (simp add: chunk_def)
  have "unat chunk < 2 ^ 30" using fit len infos lk st by simp
  then obtain ms' where ex: "ex net ms (ms_read_request off chunk) = Ret (net, ms')"
    and buf: "last_read_buffer ms' = Some (slice (unat off) (unat chunk) (stick_memory st))"
    using ex_read [OF lk st(1), of off chunk] b(3) by (auto simp: chunk_def)
  have "flat net infos = flat net pre @ stick_memory st @ flat net post" using infos st by simp
  then have sl: "slice (unat off) (unat chunk) (stick_memory st) =
      slice (unat a + unat bytes_done) (unat chunk) (flat net infos)"
    using slice_middle [OF fit, of "flat net pre" "flat net post"] lo off p by simp
  have "memory_read_loop ex net infos a sz bytes_done res =
      memory_read_loop ex net infos a sz (bytes_done + chunk)
        (res @ slice (unat a + unat bytes_done) (unat chunk) (flat net infos))"
    using dn get ex buf fit sl length_slice [OF fit]
    by (simp add: memory_read_loop.simps [of ex net infos a sz bytes_done] off_def [symmetric]
        chunk_def [symmetric])
  moreover have "unat a + unat bytes_done + unat chunk \<le> length (flat net infos)"
    using fit off lo p infos st by simp
  ultimately show ?thesis using b(1,2,4) by (auto simp: chunk_def)
qed

lemma read_loop:
  assumes "sticks_ok net infos" and "unat a + unat sz \<le> length (flat net infos)"
    and "bytes_done \<le> sz"
  shows "memory_read_loop ex net infos a sz bytes_done res =
    Ret (Some (res @ slice (unat a + unat bytes_done) (unat sz - unat bytes_done) (flat net infos)), net)"
  using assms(3)
proof (induction "unat sz - unat bytes_done" arbitrary: bytes_done res rule: less_induct)
  case less
  show ?case
  proof (cases "bytes_done < sz")
    case True
    have nw: "unat a + unat bytes_done < length (flat net infos)"
      using True assms(2) by (simp add: u32_less_iff)
    from read_round [OF assms(1) True nw, of res]
    obtain chunk where c: "0 < unat chunk" "unat chunk \<le> unat sz - unat bytes_done"
      "unat (bytes_done + chunk) = unat bytes_done + unat chunk"
      "memory_read_loop ex net infos a sz bytes_done res =
        memory_read_loop ex net infos a sz (bytes_done + chunk)
          (res @ slice (unat a + unat bytes_done) (unat chunk) (flat net infos))" by blast
    have "unat sz - unat (bytes_done + chunk) < unat sz - unat bytes_done"
      and "bytes_done + chunk \<le> sz"
      using c True by (auto simp: u32_le_iff u32_less_iff)
    from less.hyps [OF this] c
      slice_append_slice [of "unat a + unat bytes_done" "unat chunk" "flat net infos"
        "unat sz - (unat bytes_done + unat chunk)"]
    show ?thesis by (simp add: add.assoc)
  next
    case False
    with less.prems show ?thesis by (simp add: memory_read_loop.simps)
  qed
qed

lemma read_loop_out_of_range:
  assumes "sticks_ok net infos" and "length (flat net infos) < unat a + unat sz"
    and "unat a + unat sz < 4294967296" and "bytes_done < sz"
  shows "memory_read_loop ex net infos a sz bytes_done res = Ret (None, net)"
  using assms(4)
proof (induction "unat sz - unat bytes_done" arbitrary: bytes_done res rule: less_induct)
  case less
  show ?case
  proof (cases "unat a + unat bytes_done < length (flat net infos)")
    case True
    from read_round [OF assms(1) less.prems True, of res]
    obtain chunk where c: "0 < unat chunk"
      "unat (bytes_done + chunk) = unat bytes_done + unat chunk"
      "unat a + unat bytes_done + unat chunk \<le> length (flat net infos)"
      "memory_read_loop ex net infos a sz bytes_done res =
        memory_read_loop ex net infos a sz (bytes_done + chunk)
          (res @ slice (unat a + unat bytes_done) (unat chunk) (flat net infos))" by blast
    have "unat sz - unat (bytes_done + chunk) < unat sz - unat bytes_done"
      and "bytes_done + chunk < sz"
      using c less.prems assms(2) by (auto simp: u32_less_iff)
    from less.hyps [OF this] c show ?thesis by simp
  next
    case False
    have "unat (a + bytes_done) = unat a + unat bytes_done"
      using assms(3) less.prems by (intro u32_add_unat) (simp add: u32_less_iff)
    then have "get_memory_stick_by_address infos (a + bytes_done) = None"
      using False by (intro get_memory_stick_None [OF assms(1)]) simp
    with less.prems show ?thesis by (simp add: memory_read_loop.simps)
  qed
qed

text \<open>Reading never changes the sticks and always ends, in range or not.\<close>

lemma read_loop_returns:
  assumes "sticks_ok net infos" and "unat a + unat bytes_done < 4294967296"
  shows "\<exists>data. memory_read_loop ex net infos a sz bytes_done res = Ret (data, net)"
  using assms(2)
proof (induction "unat sz - unat bytes_done" arbitrary: bytes_done res rule: less_induct)
  case less
  consider "\<not> bytes_done < sz" | "bytes_done < sz" "length (flat net infos) \<le> unat a + unat bytes_done"
    | "bytes_done < sz" "unat a + unat bytes_done < length (flat net infos)" by linarith
  then show ?case
  proof cases
    case 1
    then show ?thesis by (simp add: memory_read_loop.simps)
  next
    case 2
    then have "get_memory_stick_by_address infos (a + bytes_done) = None"
      using less.prems by (intro get_memory_stick_None [OF assms(1)]) (simp_all add: u32_add_unat)
    with 2 show ?thesis by (simp add: memory_read_loop.simps)
  next
    case 3
    from read_round [OF assms(1) 3, of res] obtain chunk where
      c: "0 < unat chunk" "unat (bytes_done + chunk) = unat bytes_done + unat chunk"
        "unat a + unat bytes_done + unat chunk \<le> length (flat net infos)"
        "memory_read_loop ex net infos a sz bytes_done res =
          memory_read_loop ex net infos a sz (bytes_done + chunk)
            (res @ slice (unat a + unat bytes_done) (unat chunk) (flat net infos))" by blast
    have "length (flat net infos) < 2 ^ 30" using assms(1) by (simp add: sticks_ok_def)
    then have "unat a + unat (bytes_done + chunk) < 4294967296" using c by simp
    moreover have "unat sz - unat (bytes_done + chunk) < unat sz - unat bytes_done"
      using c 3(1) by (simp add: u32_less_iff)
    ultimately show ?thesis using less.hyps c(4) by simp
  qed
qed

lemma write_round:
  assumes ok: "sticks_ok net infos" and dn: "bytes_done < sz" and d: "unat sz \<le> length data"
    and nw: "unat a + unat bytes_done < length (flat net infos)"
  shows "\<exists>chunk net'. 0 < unat chunk \<and> unat chunk \<le> unat sz - unat bytes_done \<and>
    unat (bytes_done + chunk) = unat bytes_done + unat chunk \<and>
    unat a + unat bytes_done + unat chunk \<le> length (flat net infos) \<and>
    sticks_ok net' infos \<and>
    flat net' infos = overwrite (unat a + unat bytes_done)
      (slice (unat bytes_done) (unat chunk) data) (flat net infos) \<and>
    memory_write_loop ex net infos a data sz bytes_done =
      memory_write_loop ex net' infos a data sz (bytes_done + chunk)"
proof -
  have len: "length (flat net infos) < 2 ^ 30" using ok by (simp add: sticks_ok_def)
  have p: "unat (a + bytes_done) = unat a + unat bytes_done"
    using nw len by (intro u32_add_unat) simp
  obtain pre ms post where infos: "infos = pre @ ms # post"
    and lo: "length (flat net pre) \<le> unat (a + bytes_done)"
    and hi: "unat (a + bytes_done) < length (flat net pre) + unat (ms_size ms)"
    and get: "get_memory_stick_by_address infos (a + bytes_done) =
      Some (ms, of_nat (unat (a + bytes_done) - length (flat net pre)))"
    using get_memory_stick_Some [OF ok, of "a + bytes_done"] nw p by auto
  define off where "off = (of_nat (unat (a + bytes_done) - length (flat net pre)) :: u32)"
  have off: "unat off = unat a + unat bytes_done - length (flat net pre)"
    using p u32_bound [of "a + bytes_done"] by (simp add: off_def)
  have "off < ms_size ms" using get_memory_stick_local [OF get] by (simp add: off_def)
  note b = next_chunk_bounds [where sz = sz and bytes_done = bytes_done and ms = ms and off = off,
      OF dn this]
  define chunk where "chunk = next_chunk sz bytes_done ms off"
  define piece where "piece = slice (unat bytes_done) (unat chunk) data"
  have lk: "link_ok net ms" using ok infos by (simp add: sticks_ok_def)
  then obtain st where st: "net (ms_fd ms) = Some st" "stick_bytes net ms = stick_memory st"
    "length (stick_memory st) = unat (ms_size ms)" by (rule link_okE)
  have fit: "unat off + unat chunk \<le> unat (ms_size ms)" using b(3) by (simp add: chunk_def)
  have pl: "length piece = unat chunk" "unat bytes_done + unat chunk \<le> length data"
    using b(2) d dn by (auto simp: piece_def chunk_def u32_less_iff)
  have "unat chunk < 2 ^ 30" using fit len infos lk st by simp
  then obtain ms' where ex: "ex net ms (ms_write_request off chunk piece) =
      Ret (net(ms_fd ms \<mapsto> st\<lparr>stick_memory := overwrite (unat off) piece (stick_memory st)\<rparr>), ms')"
    and res: "last_op_result ms' = Some MS_WRITE_RESPONSE"
    using ex_write [OF lk st(1) fit pl(1)] by auto
  define net' where
    "net' = net(ms_fd ms \<mapsto> st\<lparr>stick_memory := overwrite (unat off) piece (stick_memory st)\<rparr>)"
  have "unat off + length piece \<le> unat (ms_size ms)" using fit pl by simp
  from sticks_ok_update [OF ok infos st(1) this]
  have net': "flat net' infos = overwrite (unat a + unat bytes_done) piece (flat net infos)"
    "sticks_ok net' infos"
    using off lo p by (simp_all add: net'_def)
  have "memory_write_loop ex net infos a data sz bytes_done =
      memory_write_loop ex net' infos a data sz (bytes_done + chunk)"
    using dn get ex res pl
    by (simp add: memory_write_loop.simps [of ex net infos a data sz bytes_done] off_def [symmetric]
        chunk_def [symmetric] piece_def [symmetric] net'_def [symmetric])
  moreover have "unat a + unat bytes_done + unat chunk \<le> length (flat net infos)"
    using fit off lo p infos lk by simp
  ultimately show ?thesis using b(1,2,4) net' by (auto simp: chunk_def piece_def)
qed

lemma write_loop:
  assumes "sticks_ok net infos" and "unat a + unat sz \<le> length (flat net infos)"
    and "length data = unat sz" and "bytes_done \<le> sz"
  shows "\<exists>net'. memory_write_loop ex net infos a data sz bytes_done = Ret (True, net') \<and>
    sticks_ok net' infos \<and>
    flat net' infos = overwrite (unat a + unat bytes_done) (drop (unat bytes_done) data) (flat net infos)"
  using assms(1,2,4)
proof (induction "unat sz - unat bytes_done" arbitrary: bytes_done net rule: less_induct)
  case less
  show ?case
  proof (cases "bytes_done < sz")
    case True
    have nw: "unat a + unat bytes_done < length (flat net infos)"
      using True less.prems(2) by (simp add: u32_less_iff)
    from write_round [OF less.prems(1) True _ nw, of data] assms(3)
    obtain chunk net' where c: "0 < unat chunk" "unat chunk \<le> unat sz - unat bytes_done"
      "unat (bytes_done + chunk) = unat bytes_done + unat chunk" "sticks_ok net' infos"
      "unat a + unat bytes_done + unat chunk \<le> length (flat net infos)"
      "flat net' infos = overwrite (unat a + unat bytes_done)
         (slice (unat bytes_done) (unat chunk) data) (flat net infos)"
      "memory_write_loop ex net infos a data sz bytes_done =
        memory_write_loop ex net' infos a data sz (bytes_done + chunk)" by auto
    have lt: "unat sz - unat (bytes_done + chunk) < unat sz - unat bytes_done"
      and le: "bytes_done + chunk \<le> sz"
      using c True by (auto simp: u32_le_iff u32_less_iff)
    have pl: "length (slice (unat bytes_done) (unat chunk) data) = unat chunk"
      using c(2) assms(3) True by (simp add: u32_less_iff)
    have "unat a + unat sz \<le> length (flat net' infos)"
      using c(5,6) less.prems(2) pl by simp
    from less.hyps [OF lt c(4) this le] obtain net'' where
      n: "memory_write_loop ex net' infos a data sz (bytes_done + chunk) = Ret (True, net'')"
        "sticks_ok net'' infos"
        "flat net'' infos = overwrite (unat a + unat (bytes_done + chunk))
          (drop (unat (bytes_done + chunk)) data) (flat net' infos)" by blast
    have "slice (unat bytes_done) (unat chunk) data @ drop (unat bytes_done + unat chunk) data =
        drop (unat bytes_done) data"
      by (simp add: slice_def add.commute [of "unat bytes_done"] drop_drop [symmetric] del: drop_drop)
    moreover have "unat a + unat bytes_done + length (slice (unat bytes_done) (unat chunk) data) +
        length (drop (unat bytes_done + unat chunk) data) \<le> length (flat net infos)"
      using pl less.prems(2) assms(3) c(2) True by (simp add: u32_less_iff)
    moreover note n(3) c(3,6) pl
    ultimately
    have "flat net'' infos =
        overwrite (unat a + unat bytes_done) (drop (unat bytes_done) data) (flat net infos)"
      using overwrite_overwrite_adjacent [of "unat a + unat bytes_done"
        "slice (unat bytes_done) (unat chunk) data" "drop (unat bytes_done + unat chunk) data"
        "flat net infos"]
      by (simp add: add.assoc)
    with n c(7) show ?thesis by auto
  next
    case False
    with less.prems assms(3) show ?thesis
      by (intro exI [of _ net]) (simp add: memory_write_loop.simps)
  qed
qed

text \<open>A write that is not in range stops early or at once, and keeps the sticks as well; in range
  or not, no byte changes but to the byte of the data that belongs there.\<close>

lemma write_loop_keeps:
  assumes "sticks_ok net infos" and "unat sz \<le> length data"
    and "unat a + unat bytes_done < 4294967296"
  shows "\<exists>ok net'. memory_write_loop ex net infos a data sz bytes_done = Ret (ok, net') \<and>
    sticks_ok net' infos \<and> length (flat net' infos) = length (flat net infos) \<and>
    (\<forall>i < length (flat net infos). flat net' infos ! i = flat net infos ! i \<or>
       (unat a \<le> i \<and> i < unat a + unat sz \<and> flat net' infos ! i = data ! (i - unat a)))"
  using assms(1,3)
proof (induction "unat sz - unat bytes_done" arbitrary: bytes_done net rule: less_induct)
  case less
  consider "\<not> bytes_done < sz" | "bytes_done < sz" "length (flat net infos) \<le> unat a + unat bytes_done"
    | "bytes_done < sz" "unat a + unat bytes_done < length (flat net infos)" by linarith
  then show ?case
  proof cases
    case 1
    with less.prems show ?thesis by (auto simp: memory_write_loop.simps)
  next
    case 2
    then have "get_memory_stick_by_address infos (a + bytes_done) = None"
      using less.prems by (intro get_memory_stick_None) (simp_all add: u32_add_unat)
    with 2 less.prems show ?thesis by (auto simp: memory_write_loop.simps)
  next
    case 3
    from write_round [OF less.prems(1) 3(1) assms(2) 3(2)]
    obtain chunk net' where c: "0 < unat chunk" "unat chunk \<le> unat sz - unat bytes_done"
      "unat (bytes_done + chunk) = unat bytes_done + unat chunk" "sticks_ok net' infos"
      "unat a + unat bytes_done + unat chunk \<le> length (flat net infos)"
      "flat net' infos = overwrite (unat a + unat bytes_done)
         (slice (unat bytes_done) (unat chunk) data) (flat net infos)"
      "memory_write_loop ex net infos a data sz bytes_done =
        memory_write_loop ex net' infos a data sz (bytes_done + chunk)" by blast
    have lt: "unat sz - unat (bytes_done + chunk) < unat sz - unat bytes_done"
      using c 3(1) by (auto simp: u32_less_iff)
    have "length (flat net infos) < 2 ^ 30" using less.prems(1) by (simp add: sticks_ok_def)
    then have nw: "unat a + unat (bytes_done + chunk) < 4294967296" using c by simp
    have dl: "unat bytes_done + unat chunk \<le> unat sz" using c(2) 3(1) by (simp add: u32_less_iff)
    then have sl: "length (slice (unat bytes_done) (unat chunk) data) = unat chunk"
      using assms(2) by (intro length_slice) simp
    then have l: "length (flat net' infos) = length (flat net infos)" using c(5,6) by simp
    have b: "flat net' infos ! i = flat net infos ! i \<or>
       (unat a \<le> i \<and> i < unat a + unat sz \<and> flat net' infos ! i = data ! (i - unat a))"
      if "i < length (flat net infos)" for i
      using that c(5,6) dl sl assms(2) by (auto simp: nth_overwrite)
    from less.hyps [OF lt c(4) nw] obtain ok net'' where
      "memory_write_loop ex net' infos a data sz (bytes_done + chunk) = Ret (ok, net'')"
      "sticks_ok net'' infos" "length (flat net'' infos) = length (flat net' infos)"
      "\<forall>i < length (flat net' infos). flat net'' infos ! i = flat net' infos ! i \<or>
        (unat a \<le> i \<and> i < unat a + unat sz \<and> flat net'' infos ! i = data ! (i - unat a))" by blast
    moreover from this(4) have "\<forall>i < length (flat net infos). flat net'' infos ! i = flat net infos ! i \<or>
        (unat a \<le> i \<and> i < unat a + unat sz \<and> flat net'' infos ! i = data ! (i - unat a))"
      unfolding l using b by metis
    ultimately show ?thesis unfolding l c(7) by blast
  qed
qed

sublocale store: byte_store "memory_read_with ex" "memory_write_with ex" memory_content memory_valid
proof unfold_locales
  fix s and a n :: u32
  assume "memory_valid s" "unat a + unat n \<le> length (memory_content s)"
  then show "memory_read_with ex s a n = Ret (Some (slice (unat a) (unat n) (memory_content s)), s)"
    using read_loop [of "fst s" "snd s" a n 0 "[]"]
    by (simp add: memory_valid_def memory_content_def memory_read_with_def)
next
  fix s and a n :: u32 and d :: "byte list"
  assume "memory_valid s" "unat a + unat n \<le> length (memory_content s)" "length d = unat n"
  then show "\<exists>s'. memory_write_with ex s a d n = Ret (True, s') \<and> memory_valid s' \<and>
      memory_content s' = overwrite (unat a) d (memory_content s)"
    using write_loop [of "fst s" "snd s" a n d 0]
    by (auto simp: memory_valid_def memory_content_def memory_write_with_def)
qed

end

end
