(* ===== verification/KM_Memory_Access.thy ===== *)
theory KM_Memory_Access
  imports Memory_Access
begin

text \<open>
  Kernel Memory's side of an access to the user memory: the exchange of one request with a Memory
  Stick (the stick's \<open>kernel_memory_thread\<close> answers, the thread running
  \<open>memory_stick_handler\<close> stores the answer and posts \<open>response_sem\<close>), and
  \<open>memory_read\<close> and \<open>memory_write\<close> on top of it.
\<close>

text \<open>
  The two answers \<open>memory_stick_handler\<close> knows; \<open>last_op_result\<close> \<open>None\<close> is the code's
  \<open>-1\<close>. Any other operation posts nothing, and the waiting thread stays blocked.
\<close>

definition memory_stick_handler ::
  "op_code \<Rightarrow> byte list \<Rightarrow> t_memory_stick_info \<Rightarrow> t_memory_stick_info run" where
  "memory_stick_handler op buffer ms =
     (case op of
        MS_WRITE_RESPONSE \<Rightarrow>
          (case bool_deserialize buffer of
             None \<Rightarrow> Undef
           | Some (result, _) \<Rightarrow>
               Ret (ms\<lparr>last_op_result := (if \<not> result then None else Some MS_WRITE_RESPONSE)\<rparr>))
      | MS_READ_RESPONSE \<Rightarrow>
          (case get_field buffer of
             None \<Rightarrow> Undef
           | Some (data, _) \<Rightarrow> Ret (ms\<lparr>last_read_buffer := Some data\<rparr>))
      | _ \<Rightarrow> Blocks)"

definition km_exchange :: exchange where
  "km_exchange net ms request =
     (case net (ms_fd ms) of
        None \<Rightarrow> Blocks
      | Some stick \<Rightarrow>
          and_then (kernel_memory_thread (pkg_op request) (stream request) stick)
            (\<lambda>(stick', response).
              case response of
                None \<Rightarrow> Blocks
              | Some r \<Rightarrow> and_then (memory_stick_handler (pkg_op r) (stream r) ms)
                  (\<lambda>ms'. Ret (net(ms_fd ms \<mapsto> stick'), ms'))))"

definition memory_read :: "memory \<Rightarrow> u32 \<Rightarrow> u32 \<Rightarrow> (byte list option \<times> memory) run" where
  "memory_read = memory_read_with km_exchange"

definition memory_write :: "memory \<Rightarrow> u32 \<Rightarrow> byte list \<Rightarrow> u32 \<Rightarrow> (bool \<times> memory) run" where
  "memory_write = memory_write_with km_exchange"

interpretation km_link: stick_link km_exchange
proof unfold_locales
  fix net ms st and off n :: u32
  assume a: "link_ok net ms" "net (ms_fd ms) = Some st"
    "unat off + unat n \<le> unat (ms_size ms)" "unat n < 2 ^ 30"
  then have w: "stick_wf st" "stick_size st = ms_size ms" by (auto simp: link_ok_def)
  then have "length (slice (unat off) (unat n) (stick_memory st)) = unat n"
    using a(3) by (simp add: stick_wf_def)
  then have "get_field (field (slice (unat off) (unat n) (stick_memory st))) =
      Some (slice (unat off) (unat n) (stick_memory st), [])"
    using a(4) by (intro get_field_field(2)) simp
  then show "\<exists>ms'. km_exchange net ms (ms_read_request off n) = Ret (net, ms') \<and>
        last_read_buffer ms' = Some (slice (unat off) (unat n) (stick_memory st))"
    using a w handle_read_ok [of st off n]
    by (simp add: km_exchange_def kernel_memory_thread_def memory_stick_handler_def
        map_upd_triv del: requests(3))
next
  fix net ms st and off n :: u32 and d :: "byte list"
  assume a: "link_ok net ms" "net (ms_fd ms) = Some st"
    "unat off + unat n \<le> unat (ms_size ms)" "length d = unat n"
  then have w: "stick_wf st" "stick_size st = ms_size ms" by (auto simp: link_ok_def)
  show "\<exists>ms'. km_exchange net ms (ms_write_request off n d) =
          Ret (net(ms_fd ms \<mapsto> st\<lparr>stick_memory := overwrite (unat off) d (stick_memory st)\<rparr>), ms') \<and>
        last_op_result ms' = Some MS_WRITE_RESPONSE"
    using a w handle_write_ok [of st off n d]
    by (simp add: km_exchange_def kernel_memory_thread_def memory_stick_handler_def
        ms_write_response_def del: requests(4))
qed

lemmas km_read = km_link.store.rd [folded memory_read_def]
lemmas km_write = km_link.store.wr [folded memory_write_def]

lemma km_write_bytes:
  assumes "memory_valid s" and "unat n \<le> length d"
  shows "\<exists>ok s'. memory_write s a d n = Ret (ok, s') \<and> memory_valid s' \<and>
    length (memory_content s') = length (memory_content s) \<and>
    (\<forall>i < length (memory_content s). memory_content s' ! i = memory_content s ! i \<or>
       (unat a \<le> i \<and> i < unat a + unat n \<and> memory_content s' ! i = d ! (i - unat a)))"
  using km_link.write_loop_keeps [where net = "fst s" and infos = "snd s" and a = a and sz = n
      and bytes_done = 0 and data = d] assms
  by (auto simp: memory_write_def memory_write_with_def memory_valid_def memory_content_def)

lemma km_write_keeps:
  assumes "memory_valid s" and "unat n \<le> length d"
  shows "\<exists>ok s'. memory_write s a d n = Ret (ok, s') \<and> memory_valid s' \<and>
    length (memory_content s') = length (memory_content s)"
  using km_write_bytes [OF assms] by blast

lemma km_read_returns:
  assumes "memory_valid s"
  shows "\<exists>data. memory_read s a n = Ret (data, s)"
  using km_link.read_loop_returns [where net = "fst s" and infos = "snd s" and a = a and sz = n
      and bytes_done = 0 and res = "[]"] assms
  by (auto simp: memory_read_def memory_read_with_def memory_valid_def)

lemma km_read_out_of_range:
  assumes "memory_valid s" "length (memory_content s) < unat a + unat n"
    and "unat a + unat n < 4294967296" and "n \<noteq> 0"
  shows "memory_read s a n = Ret (None, s)"
proof -
  have "0 < n" using assms(4) by (simp add: word_neq_0_conv)
  with assms km_link.read_loop_out_of_range [of "fst s" "snd s" a n 0 "[]"]
  show ?thesis
    by (simp add: memory_read_def memory_read_with_def memory_valid_def memory_content_def)
qed

text \<open>A small memory for the witnesses: two sticks of 4 and 3 bytes.\<close>

definition two_sticks :: memory where
  "two_sticks =
     ([10 \<mapsto> \<lparr>stick_size = 4, stick_memory = [1, 2, 3, 4]\<rparr>,
       11 \<mapsto> \<lparr>stick_size = 3, stick_memory = [5, 6, 7]\<rparr>],
      [\<lparr>ms_fd = 10, ms_id = 0, ms_size = 4, last_op_result = None, last_read_buffer = None\<rparr>,
       \<lparr>ms_fd = 11, ms_id = 1, ms_size = 3, last_op_result = None, last_read_buffer = None\<rparr>])"

lemma two_sticks [simp]:
  "memory_valid two_sticks" "memory_content two_sticks = [1, 2, 3, 4, 5, 6, 7]"
  by (simp_all add: memory_valid_def memory_content_def two_sticks_def sticks_ok_def link_ok_def
      stick_wf_def stick_bytes_def)

text \<open>C23: a read of the user memory by Kernel Memory always returns. It gives exactly the bytes of
  the requested range of the concatenated sticks, wherever the stick boundaries are, or NULL when
  the range goes past the last stick; the memory does not change.\<close>
theorem memory_read_flat:
  assumes "memory_valid s" and "unat a + unat n < 2 ^ 32" and "n \<noteq> 0"
  shows "memory_read s a n =
    Ret (if unat a + unat n \<le> length (memory_content s)
         then Some (slice (unat a) (unat n) (memory_content s)) else None, s)"
  using assms km_read [OF assms(1), of a n] km_read_out_of_range [OF assms(1), of a n] by auto

theorem memory_read_flat_witness:
  "memory_read two_sticks 2 4 = Ret (Some [3, 4, 5, 6], two_sticks) \<and>
   memory_read two_sticks 2 6 = Ret (None, two_sticks)"
  using memory_read_flat [of two_sticks 2 4] memory_read_flat [of two_sticks 2 6]
  by (simp add: slice_def)

text \<open>C22: a write of the user memory that is in range succeeds, changes exactly the written range
  and is what the next read of that range returns, across stick boundaries.\<close>
theorem memory_write_flat:
  assumes "memory_valid s" and "unat a + unat n \<le> length (memory_content s)"
    and "length d = unat n"
  shows "\<exists>s'. memory_write s a d n = Ret (True, s') \<and> memory_valid s' \<and>
    memory_content s' = overwrite (unat a) d (memory_content s) \<and>
    memory_read s' a n = Ret (Some d, s')"
  using km_write [OF assms] assms by (auto simp: km_read slice_overwrite_same)

theorem memory_write_flat_witness:
  "\<exists>s'. memory_write two_sticks 3 [9, 8] 2 = Ret (True, s') \<and> memory_valid s' \<and>
    memory_content s' = overwrite 3 [9, 8] (memory_content two_sticks) \<and>
    memory_read s' 3 2 = Ret (Some [9, 8], s')"
  using memory_write_flat [of two_sticks 3 2 "[9, 8]"] by simp

end
