(* ===== verification/Swap.thy ===== *)
theory Swap
  imports Process_Utils
begin

text \<open>
  The SWAP module (\<open>swap/src/main.c\<close>), a file of fixed-size blocks, and Kernel Memory's side
  of one block transfer (\<open>swap_handler.c\<close>). The locale \<open>block_device\<close> is what Kernel
  Memory relies on when it stores a segment in a list of blocks.
\<close>

record swap_device =
  swap_file :: "byte list"
  block_size :: u32

text \<open>
  The file \<open>main\<close> creates when there is none: it seeks to \<open>swap_file_size - 1\<close>, in
  \<open>uint32_t\<close> arithmetic, and writes one zero byte there.
\<close>

definition swap_create :: "u32 \<Rightarrow> u32 \<Rightarrow> swap_device" where
  "swap_create swap_file_size bs =
     \<lparr>swap_file = replicate (Suc (unat (swap_file_size - 1))) 0, block_size = bs\<rparr>"

text \<open>\<open>fseek\<close> and \<open>fwrite\<close>; writing past the end of the file fills the gap with zeros.\<close>

definition file_write :: "nat \<Rightarrow> byte list \<Rightarrow> byte list \<Rightarrow> byte list" where
  "file_write off d file =
     take off (file @ replicate (off - length file) 0) @ d @ drop (off + length d) file"

text \<open>
  A read that reaches past the end of the file leaves the block that is sent back uninitialised.
\<close>

definition handle_block_read :: "byte list \<Rightarrow> swap_device \<Rightarrow> t_package run" where
  "handle_block_read buffer dev =
     (case uint32_deserialize buffer of
        None \<Rightarrow> Undef
      | Some (block_number, _) \<Rightarrow>
          let off = unat block_number * unat (block_size dev) in
          if off + unat (block_size dev) \<le> length (swap_file dev)
          then Ret (package_add (slice off (unat (block_size dev)) (swap_file dev)) (package_with SWAP_IN))
          else Undef)"

definition handle_block_write :: "byte list \<Rightarrow> swap_device \<Rightarrow> (swap_device \<times> t_package) run" where
  "handle_block_write buffer dev =
     (case uint32_deserialize buffer of
        None \<Rightarrow> Undef
      | Some (block_number, b) \<Rightarrow>
          if length b < 4 + unat (block_size dev) then Undef
          else let block_data = take (unat (block_size dev)) (drop 4 b) in
            Ret (dev\<lparr>swap_file := file_write (unat block_number * unat (block_size dev))
                   block_data (swap_file dev)\<rparr>,
                 package_with SWAP_OUT))"

text \<open>One round of the service loop of \<open>main\<close>.\<close>

definition swap_serve :: "op_code \<Rightarrow> byte list \<Rightarrow> swap_device \<Rightarrow> (swap_device \<times> t_package option) run"
where
  "swap_serve op buffer dev =
     (case op of
        SWAP_IN \<Rightarrow> and_then (handle_block_read buffer dev) (\<lambda>r. Ret (dev, Some r))
      | SWAP_OUT \<Rightarrow> and_then (handle_block_write buffer dev) (\<lambda>(dev', r). Ret (dev', Some r))
      | _ \<Rightarrow> Ret (dev, None))"

section \<open>Kernel Memory's side of a transfer\<close>

text \<open>
  \<open>swap_handler\<close>: the answer to \<open>SWAP_IN\<close> is a block (a NULL buffer is dereferenced), the
  answer to \<open>SWAP_OUT\<close> only wakes the writer. The result is the block left in
  \<open>swap_read_response\<close>, if any.
\<close>

definition swap_handler :: "op_code \<Rightarrow> byte list \<Rightarrow> byte list option run" where
  "swap_handler op buffer =
     (case op of
        SWAP_IN \<Rightarrow> and_then (of_option (get_field buffer)) (\<lambda>(block_buf, _). Ret (Some block_buf))
      | SWAP_OUT \<Rightarrow> Ret None
      | _ \<Rightarrow> Blocks)"

definition swap_out_block :: "swap_device \<Rightarrow> u32 \<Rightarrow> byte list \<Rightarrow> swap_device run" where
  "swap_out_block dev block_num block_buffer =
     (let pkg = package_add block_buffer (package_add (u32_bytes block_num) (package_with SWAP_OUT))
      in and_then (swap_serve (pkg_op pkg) (stream pkg) dev) (\<lambda>(dev', response).
           case response of
             None \<Rightarrow> Blocks
           | Some r \<Rightarrow> and_then (swap_handler (pkg_op r) (stream r)) (\<lambda>_. Ret dev')))"

definition swap_in_block :: "swap_device \<Rightarrow> u32 \<Rightarrow> byte list option run" where
  "swap_in_block dev block_num =
     (let pkg = package_add (u32_bytes block_num) (package_with SWAP_IN)
      in and_then (swap_serve (pkg_op pkg) (stream pkg) dev) (\<lambda>(dev', response).
           case response of
             None \<Rightarrow> Blocks
           | Some r \<Rightarrow> swap_handler (pkg_op r) (stream r)))"

section \<open>Segments in blocks\<close>

text \<open>
  \<open>write_segment_to_swap\<close> and \<open>read_segment_from_swap\<close>: one block after the other, the last
  chunk cut to the size of the segment, the block padded with zeros.
\<close>

definition chunk_size :: "u32 \<Rightarrow> u32 \<Rightarrow> u32 \<Rightarrow> u32" where
  "chunk_size bs sz bytes_done = (if bytes_done + bs > sz then sz - bytes_done else bs)"

fun write_blocks ::
  "('d \<Rightarrow> u32 \<Rightarrow> byte list \<Rightarrow> 'd run) \<Rightarrow> u32 \<Rightarrow> u32 \<Rightarrow> byte list \<Rightarrow> u32 list \<Rightarrow> u32 \<Rightarrow> 'd \<Rightarrow> 'd run"
where
  "write_blocks out bs sz data [] bytes_done dev = Ret dev"
| "write_blocks out bs sz data (block_num # blocks) bytes_done dev =
     (let chunk = chunk_size bs sz bytes_done in
      if unat bytes_done + unat chunk \<le> length data \<and> chunk \<le> bs
      then and_then (out dev block_num
             (slice (unat bytes_done) (unat chunk) data @ replicate (unat bs - unat chunk) 0))
             (write_blocks out bs sz data blocks (bytes_done + chunk))
      else Undef)"

fun read_blocks ::
  "('d \<Rightarrow> u32 \<Rightarrow> byte list option run) \<Rightarrow> u32 \<Rightarrow> u32 \<Rightarrow> u32 list \<Rightarrow> u32 \<Rightarrow> byte list \<Rightarrow> 'd \<Rightarrow>
   byte list option run"
where
  "read_blocks inb bs sz [] bytes_done data dev = Ret (Some data)"
| "read_blocks inb bs sz (block_num # blocks) bytes_done data dev =
     and_then (inb dev block_num) (\<lambda>r.
       case r of
         None \<Rightarrow> Ret None
       | Some block_buffer \<Rightarrow>
           let chunk = chunk_size bs sz bytes_done in
           if unat chunk \<le> length block_buffer
           then read_blocks inb bs sz blocks (bytes_done + chunk)
                  (data @ take (unat chunk) block_buffer) dev
           else Undef)"

text \<open>The contract: an array of blocks.\<close>

locale block_device =
  fixes out :: "'d \<Rightarrow> u32 \<Rightarrow> byte list \<Rightarrow> 'd run"
    and inb :: "'d \<Rightarrow> u32 \<Rightarrow> byte list option run"
    and blk :: "'d \<Rightarrow> u32 \<Rightarrow> byte list"
    and valid :: "u32 \<Rightarrow> 'd \<Rightarrow> bool"
    and in_range :: "'d \<Rightarrow> u32 \<Rightarrow> bool"
  assumes out: "valid bs dev \<Longrightarrow> in_range dev n \<Longrightarrow> length buf = unat bs \<Longrightarrow>
      \<exists>dev'. out dev n buf = Ret dev' \<and> valid bs dev' \<and> in_range dev' = in_range dev \<and>
        (\<forall>m. in_range dev m \<longrightarrow> blk dev' m = (if m = n then buf else blk dev m))"
    and inb: "valid bs dev \<Longrightarrow> in_range dev n \<Longrightarrow>
      inb dev n = Ret (Some (blk dev n)) \<and> length (blk dev n) = unat bs"
begin

text \<open>What a list of blocks holds of a segment, from \<open>bytes_done\<close> on.\<close>

fun holds :: "u32 \<Rightarrow> u32 \<Rightarrow> byte list \<Rightarrow> u32 list \<Rightarrow> u32 \<Rightarrow> 'd \<Rightarrow> bool" where
  "holds bs sz data [] bytes_done dev = True"
| "holds bs sz data (n # blocks) bytes_done dev =
     (let chunk = chunk_size bs sz bytes_done in
      take (unat chunk) (blk dev n) = slice (unat bytes_done) (unat chunk) data \<and>
      holds bs sz data blocks (bytes_done + chunk) dev)"

lemma holds_cong:
  "\<forall>n \<in> set blocks. blk dev' n = blk dev n \<Longrightarrow>
   holds bs sz data blocks bytes_done dev' = holds bs sz data blocks bytes_done dev"
  by (induction blocks arbitrary: bytes_done) (auto simp: Let_def)

text \<open>Enough room: the chunks of the remaining blocks cover the rest of the segment.\<close>

fun covers :: "u32 \<Rightarrow> u32 \<Rightarrow> u32 list \<Rightarrow> u32 \<Rightarrow> bool" where
  "covers bs sz [] bytes_done \<longleftrightarrow> bytes_done = sz"
| "covers bs sz (n # blocks) bytes_done \<longleftrightarrow>
     bytes_done \<le> sz \<and> chunk_size bs sz bytes_done \<le> bs \<and>
     unat bytes_done + unat (chunk_size bs sz bytes_done) \<le> unat sz \<and>
     covers bs sz blocks (bytes_done + chunk_size bs sz bytes_done)"

lemma write_blocks_holds:
  assumes "valid bs dev" and "\<forall>n \<in> set blocks. in_range dev n" and "distinct blocks"
    and "covers bs sz blocks bytes_done" and "length data = unat sz"
  shows "\<exists>dev'. write_blocks out bs sz data blocks bytes_done dev = Ret dev' \<and> valid bs dev' \<and>
    in_range dev' = in_range dev \<and> holds bs sz data blocks bytes_done dev' \<and>
    (\<forall>m. in_range dev m \<and> m \<notin> set blocks \<longrightarrow> blk dev' m = blk dev m)"
  using assms(1-4)
proof (induction blocks arbitrary: dev bytes_done)
  case Nil
  then show ?case by auto
next
  case (Cons n blocks)
  define chunk where "chunk = chunk_size bs sz bytes_done"
  define buf where
    "buf = slice (unat bytes_done) (unat chunk) data @ replicate (unat bs - unat chunk) 0"
  have c: "chunk \<le> bs" "unat bytes_done + unat chunk \<le> length data"
    using Cons.prems(4) assms(5) by (auto simp: chunk_def)
  then have lb: "length buf = unat bs" and tb: "take (unat chunk) buf = slice (unat bytes_done) (unat chunk) data"
    by (auto simp: buf_def u32_le_iff)
  have "in_range dev n" using Cons.prems(2) by simp
  from out [OF Cons.prems(1) this lb] obtain dev1 where d1: "out dev n buf = Ret dev1"
    "valid bs dev1" "in_range dev1 = in_range dev"
    "\<forall>m. in_range dev m \<longrightarrow> blk dev1 m = (if m = n then buf else blk dev m)" by blast
  have "\<forall>n \<in> set blocks. in_range dev1 n" "distinct blocks" "covers bs sz blocks (bytes_done + chunk)"
    using Cons.prems d1(3) by (simp_all add: chunk_def)
  from Cons.IH [OF d1(2) this] obtain dev' where d': 
    "write_blocks out bs sz data blocks (bytes_done + chunk) dev1 = Ret dev'" "valid bs dev'"
    "in_range dev' = in_range dev1" "holds bs sz data blocks (bytes_done + chunk) dev'"
    "\<forall>m. in_range dev1 m \<and> m \<notin> set blocks \<longrightarrow> blk dev' m = blk dev1 m" by blast
  have "blk dev' n = buf" using d'(5) d1(3,4) Cons.prems(2,3) by simp
  with d1 d' c tb Cons.prems show ?case
    by (intro exI [of _ dev']) (simp add: chunk_def [symmetric] buf_def [symmetric] Let_def)
qed

lemma read_blocks_holds:
  assumes "valid bs dev" and "\<forall>n \<in> set blocks. in_range dev n"
    and "covers bs sz blocks bytes_done" and "length data = unat sz"
    and "holds bs sz data blocks bytes_done dev"
  shows "read_blocks inb bs sz blocks bytes_done (take (unat bytes_done) data) dev = Ret (Some data)"
  using assms(2,3,5)
proof (induction blocks arbitrary: bytes_done)
  case Nil
  with assms(4) show ?case by simp
next
  case (Cons n blocks)
  define chunk where "chunk = chunk_size bs sz bytes_done"
  have c: "chunk \<le> bs" "unat bytes_done + unat chunk \<le> unat sz"
    using Cons.prems(2) by (auto simp: chunk_def)
  have nw: "unat (bytes_done + chunk) = unat bytes_done + unat chunk"
    using c(2) u32_bound [of sz] by (intro u32_add_unat) linarith
  have "inb dev n = Ret (Some (blk dev n))" "length (blk dev n) = unat bs"
    using inb [OF assms(1)] Cons.prems(1) by auto
  moreover have "take (unat bytes_done) data @ slice (unat bytes_done) (unat chunk) data =
      take (unat (bytes_done + chunk)) data"
    by (simp add: nw slice_def take_add)
  moreover have "read_blocks inb bs sz blocks (bytes_done + chunk)
      (take (unat (bytes_done + chunk)) data) dev = Ret (Some data)"
    using Cons.prems by (intro Cons.IH) (simp_all add: chunk_def Let_def)
  ultimately show ?case
    using c Cons.prems(3) by (simp add: chunk_def [symmetric] Let_def u32_le_iff)
qed

text \<open>Whatever the blocks hold, reading them gives as many bytes as the segment has.\<close>

lemma read_blocks_total:
  assumes "valid bs dev" and "\<forall>n \<in> set blocks. in_range dev n" and "covers bs sz blocks bytes_done"
  shows "\<exists>d. read_blocks inb bs sz blocks bytes_done data dev = Ret (Some d) \<and>
    length d + unat bytes_done = length data + unat sz"
  using assms(2,3)
proof (induction blocks arbitrary: bytes_done data)
  case Nil
  then show ?case by simp
next
  case (Cons n blocks)
  define chunk where "chunk = chunk_size bs sz bytes_done"
  have c: "chunk \<le> bs" "unat bytes_done + unat chunk \<le> unat sz"
    using Cons.prems(2) by (auto simp: chunk_def)
  have nw: "unat (bytes_done + chunk) = unat bytes_done + unat chunk"
    using c(2) u32_bound [of sz] by (intro u32_add_unat) linarith
  have r: "inb dev n = Ret (Some (blk dev n))" "length (blk dev n) = unat bs"
    using inb [OF assms(1)] Cons.prems(1) by auto
  obtain d where "read_blocks inb bs sz blocks (bytes_done + chunk)
      (data @ take (unat chunk) (blk dev n)) dev = Ret (Some d)"
    "length d + unat (bytes_done + chunk) = length (data @ take (unat chunk) (blk dev n)) + unat sz"
    using Cons.IH [of "bytes_done + chunk" "data @ take (unat chunk) (blk dev n)"] Cons.prems
    by (auto simp: chunk_def)
  with r c nw show ?case by (simp add: chunk_def [symmetric] Let_def u32_le_iff)
qed

text \<open>A segment written to distinct blocks is read back unchanged.\<close>

lemma segment_roundtrip:
  assumes "valid bs dev" and "\<forall>n \<in> set blocks. in_range dev n" and "distinct blocks"
    and "covers bs sz blocks 0" and "length data = unat sz"
  shows "\<exists>dev'. write_blocks out bs sz data blocks 0 dev = Ret dev' \<and> valid bs dev' \<and>
    in_range dev' = in_range dev \<and> read_blocks inb bs sz blocks 0 [] dev' = Ret (Some data) \<and>
    (\<forall>m. in_range dev m \<and> m \<notin> set blocks \<longrightarrow> blk dev' m = blk dev m)"
  using write_blocks_holds [OF assms] read_blocks_holds [of bs _ blocks sz 0 data] assms
  by fastforce

end

section \<open>The SWAP module is such a device\<close>

definition swap_blk :: "swap_device \<Rightarrow> u32 \<Rightarrow> byte list" where
  "swap_blk dev n = slice (unat n * unat (block_size dev)) (unat (block_size dev)) (swap_file dev)"

definition swap_valid :: "u32 \<Rightarrow> swap_device \<Rightarrow> bool" where
  "swap_valid bs dev \<longleftrightarrow> block_size dev = bs \<and> unat bs < 2 ^ 30"

definition swap_in_range :: "swap_device \<Rightarrow> u32 \<Rightarrow> bool" where
  "swap_in_range dev n \<longleftrightarrow> Suc (unat n) * unat (block_size dev) \<le> length (swap_file dev)"

lemma file_write_overwrite: "off + length d \<le> length file \<Longrightarrow> file_write off d file = overwrite off d file"
  by (simp add: file_write_def overwrite_def)

lemma swap_in_rangeD:
  "swap_valid bs dev \<Longrightarrow> swap_in_range dev n \<Longrightarrow> unat n * unat bs + unat bs \<le> length (swap_file dev)"
  by (simp add: swap_valid_def swap_in_range_def add.commute)

lemma swap_in_block_eq:
  assumes "swap_valid bs dev" and "swap_in_range dev n"
  shows "swap_in_block dev n = Ret (Some (swap_blk dev n))"
proof -
  note r = swap_in_rangeD [OF assms]
  have bs: "block_size dev = bs" "unat bs < 1073741824" using assms by (simp_all add: swap_valid_def)
  have "length (swap_blk dev n) = unat bs" using r bs by (simp add: swap_blk_def)
  then have "get_field (field (swap_blk dev n)) = Some (swap_blk dev n, [])"
    using bs by (intro get_field_field(2)) simp
  moreover have "handle_block_read (field (u32_bytes n)) dev =
      Ret (package_add (swap_blk dev n) (package_with SWAP_IN))"
    using r bs by (simp add: handle_block_read_def swap_blk_def Let_def)
  ultimately show ?thesis
    by (simp add: swap_in_block_def swap_serve_def swap_handler_def)
qed

lemma swap_out_block_eq:
  assumes "swap_valid bs dev" and "swap_in_range dev n" and "length buf = unat bs"
  shows "swap_out_block dev n buf =
    Ret (dev\<lparr>swap_file := overwrite (unat n * unat bs) buf (swap_file dev)\<rparr>)"
  using swap_in_rangeD [OF assms(1,2)] assms(1,3)
  by (simp add: swap_out_block_def swap_serve_def handle_block_write_def swap_handler_def
      swap_valid_def file_write_overwrite)

lemma blocks_disjoint: "m \<noteq> n \<Longrightarrow> m * b + b \<le> n * b \<or> n * b + b \<le> (m * b :: nat)"
proof -
  assume "m \<noteq> n"
  then consider "Suc m \<le> n" | "Suc n \<le> m" by linarith
  then show ?thesis
    by cases (use mult_le_mono1 [of "Suc m" n b] mult_le_mono1 [of "Suc n" m b] in auto)
qed

lemma swap_blk_write:
  assumes "swap_in_range dev n" "swap_in_range dev m" "length buf = unat (block_size dev)"
  shows "swap_blk (dev\<lparr>swap_file := overwrite (unat n * unat (block_size dev)) buf (swap_file dev)\<rparr>) m =
    (if m = n then buf else swap_blk dev m)"
proof (cases "m = n")
  case True
  with assms show ?thesis
    by (simp add: swap_blk_def swap_in_range_def slice_overwrite_same add.commute)
next
  case False
  then have "unat m * unat (block_size dev) + unat (block_size dev) \<le> unat n * unat (block_size dev) \<or>
      unat n * unat (block_size dev) + unat (block_size dev) \<le> unat m * unat (block_size dev)"
    by (intro blocks_disjoint) (simp add: word_unat_eq_iff)
  with False assms show ?thesis
    by (simp add: swap_blk_def swap_in_range_def slice_overwrite_disjoint add.commute)
qed

interpretation swap: block_device swap_out_block swap_in_block swap_blk swap_valid swap_in_range
proof unfold_locales
  fix bs n and dev :: swap_device and buf :: "byte list"
  assume v: "swap_valid bs dev" and r: "swap_in_range dev n" and l: "length buf = unat bs"
  have len: "length (overwrite (unat n * unat bs) buf (swap_file dev)) = length (swap_file dev)"
    using v r l by (simp add: swap_valid_def swap_in_range_def add.commute)
  show "\<exists>dev'. swap_out_block dev n buf = Ret dev' \<and> swap_valid bs dev' \<and>
      swap_in_range dev' = swap_in_range dev \<and>
      (\<forall>m. swap_in_range dev m \<longrightarrow> swap_blk dev' m = (if m = n then buf else swap_blk dev m))"
    using v r l len swap_out_block_eq [OF v r l] swap_blk_write [OF r _, of _ buf]
    by (auto simp: swap_valid_def swap_in_range_def fun_eq_iff)
next
  fix bs n and dev :: swap_device
  assume "swap_valid bs dev" and "swap_in_range dev n"
  then show "swap_in_block dev n = Ret (Some (swap_blk dev n)) \<and> length (swap_blk dev n) = unat bs"
    using swap_in_block_eq
    by (simp add: swap_blk_def swap_valid_def swap_in_range_def add.commute)
qed

end
