(* ===== verification/KM_State.thy ===== *)
theory KM_State
  imports KM_Memory_Access Swap
begin

text \<open>
  The state of Kernel Memory and its hole management (\<open>kernel_memory/src/utils.c\<close>,
  \<open>memory_manage.c\<close>): process control blocks, suspended processes, free holes and the choice
  of one. The semaphore \<open>compaction_sem\<close> is a counter, the threads that wait on it are the
  pending \<open>segment_create\<close> requests, and what is sent to Kernel Scheduler is collected in
  \<open>to_scheduler\<close>.
\<close>

section \<open>State\<close>

record t_pcb =
  pcb_pid :: u32
  pcb_context :: t_cpu_context
  pcb_instructions :: "string list option"
  segment_table :: "t_segment list"

record t_suspended_segment =
  ss_segment_id :: u32
  ss_size :: u32
  swap_blocks :: "u32 list"

record t_suspended_pcb =
  sp_pid :: u32
  suspended_segments :: "t_suspended_segment list"

record km_state =
  list_processes :: "t_pcb list"
  list_suspended_processes :: "t_suspended_pcb list"
  km_memory :: memory
  total_memory_size :: u32
  allocation_strategy :: string
  swap_block_size :: u32
  swap_total_size :: u32
  swap_dev :: swap_device
  compaction_sem :: nat
  compaction_waiters :: "(u32 \<times> u32 \<times> u32) list"
  to_scheduler :: "t_package list"

definition send_to_scheduler :: "t_package \<Rightarrow> km_state \<Rightarrow> km_state" where
  "send_to_scheduler pkg s = s\<lparr>to_scheduler := to_scheduler s @ [pkg]\<rparr>"

text \<open>
  \<open>get_instructions_from_file\<close>: the files are a parameter (path to content), and so is
  \<open>string_split\<close> of the commons library. The content is handed over as a C string.
\<close>

definition get_instructions_from_file ::
  "(string \<rightharpoonup> string) \<Rightarrow> (string \<Rightarrow> string \<Rightarrow> string list) \<Rightarrow> string \<Rightarrow> string list option" where
  "get_instructions_from_file files string_split path =
     (case files path of
        None \<Rightarrow> None
      | Some content \<Rightarrow>
          Some (string_split (takeWhile (\<lambda>c. c \<noteq> CHR 0x00) content) [CHR 0x0A]))"

definition create_pcb ::
  "(string \<rightharpoonup> string) \<Rightarrow> (string \<Rightarrow> string \<Rightarrow> string list) \<Rightarrow> u32 \<Rightarrow> string \<Rightarrow> t_pcb" where
  "create_pcb files string_split pid path =
     \<lparr>pcb_pid = pid,
      pcb_context = \<lparr>pc = 0, ax = 0, bx = 0, cx = 0, dx = 0, eax = 0, ebx = 0, ecx = 0, edx = 0,
                     si = 0, di = 0\<rparr>,
      pcb_instructions = get_instructions_from_file files string_split path,
      segment_table = []\<rparr>"

definition find_by_pid :: "u32 \<Rightarrow> t_pcb \<Rightarrow> bool" where
  "find_by_pid target_pid pcb \<longleftrightarrow> pcb_pid pcb = target_pid"

definition find_suspended_by_pid :: "u32 \<Rightarrow> t_suspended_pcb \<Rightarrow> bool" where
  "find_suspended_by_pid target_suspended_pid sp \<longleftrightarrow> sp_pid sp = target_suspended_pid"

definition find_by_segment_id :: "u32 \<Rightarrow> t_segment \<Rightarrow> bool" where
  "find_by_segment_id target_segment_id seg \<longleftrightarrow> segment_id seg = target_segment_id"

definition send_memory_update :: "u32 \<Rightarrow> km_state \<Rightarrow> km_state" where
  "send_memory_update new_total =
     send_to_scheduler (package_add (u32_bytes new_total) (package_with MEMORY_UPDATE))"

definition create_memory_stick_info :: "fd \<Rightarrow> u32 \<Rightarrow> t_memory_stick_info" where
  "create_memory_stick_info f i =
     \<lparr>ms_fd = f, ms_id = i, ms_size = 0, last_op_result = None, last_read_buffer = None\<rparr>"

definition process_get_segment_count :: "u32 \<Rightarrow> km_state \<Rightarrow> int" where
  "process_get_segment_count pid s =
     (case List.find (find_by_pid pid) (list_processes s) of
        None \<Rightarrow> - 1
      | Some pcb \<Rightarrow> int (length (segment_table pcb)))"

section \<open>Free holes\<close>

definition seg_hole :: "t_segment \<Rightarrow> t_hole" where
  "seg_hole seg = \<lparr>hole_base = seg_base seg, hole_size = seg_size seg\<rparr>"

definition all_segments :: "t_pcb list \<Rightarrow> t_segment list" where
  "all_segments ps = concat (map segment_table ps)"

definition compare_by_base :: "t_hole \<Rightarrow> t_hole \<Rightarrow> bool" where
  "compare_by_base a b \<longleftrightarrow> hole_base a < hole_base b"

type_synonym 'a list_sort = "('a \<Rightarrow> 'a \<Rightarrow> bool) \<Rightarrow> 'a list \<Rightarrow> 'a list"

fun free_holes_from :: "u32 \<Rightarrow> u32 \<Rightarrow> t_hole list \<Rightarrow> t_hole list" where
  "free_holes_from total_size cursor [] =
     (if cursor < total_size then [\<lparr>hole_base = cursor, hole_size = total_size - cursor\<rparr>] else [])"
| "free_holes_from total_size cursor (occ # rest) =
     (if hole_base occ > cursor
      then [\<lparr>hole_base = cursor, hole_size = hole_base occ - cursor\<rparr>] else []) @
     free_holes_from total_size (hole_base occ + hole_size occ) rest"

definition get_free_holes :: "t_hole list_sort \<Rightarrow> km_state \<Rightarrow> t_hole list" where
  "get_free_holes list_sort s =
     (let occupied = map seg_hole (all_segments (list_processes s))
      in free_holes_from (total_memory_size s) 0 (list_sort compare_by_base occupied))"

text \<open>\<open>best\<close> and \<open>worst\<close> are the loops' local variables, \<open>None\<close> is NULL.\<close>

fun best_fit_loop :: "u32 \<Rightarrow> t_hole list \<Rightarrow> t_hole option \<Rightarrow> t_hole option" where
  "best_fit_loop sz [] best = best"
| "best_fit_loop sz (hole # holes) best =
     best_fit_loop sz holes
       (if hole_size hole \<ge> sz
        then (case best of
                None \<Rightarrow> Some hole
              | Some b \<Rightarrow> if hole_size hole < hole_size b then Some hole else best)
        else best)"

definition best_fit :: "t_hole list \<Rightarrow> u32 \<Rightarrow> t_hole option" where
  "best_fit holes sz = best_fit_loop sz holes None"

fun worst_fit_loop :: "u32 \<Rightarrow> t_hole list \<Rightarrow> t_hole option \<Rightarrow> t_hole option" where
  "worst_fit_loop sz [] worst = worst"
| "worst_fit_loop sz (hole # holes) worst =
     worst_fit_loop sz holes
       (if hole_size hole \<ge> sz
        then (case worst of
                None \<Rightarrow> Some hole
              | Some w \<Rightarrow> if hole_size hole > hole_size w then Some hole else worst)
        else worst)"

definition worst_fit :: "t_hole list \<Rightarrow> u32 \<Rightarrow> t_hole option" where
  "worst_fit holes sz = worst_fit_loop sz holes None"

definition select_hole :: "string \<Rightarrow> t_hole list \<Rightarrow> u32 \<Rightarrow> t_hole option" where
  "select_hole strategy holes sz =
     (if strategy = ''BEST'' then best_fit holes sz else worst_fit holes sz)"

section \<open>Choosing a hole\<close>

lemma best_fit_loop_spec:
  "(case best_fit_loop sz holes best of
      None \<Rightarrow> best = None \<and> (\<forall>h \<in> set holes. hole_size h < sz)
    | Some b \<Rightarrow> (best = Some b \<or> b \<in> set holes \<and> sz \<le> hole_size b) \<and>
        (\<forall>h \<in> set holes. sz \<le> hole_size h \<longrightarrow> hole_size b \<le> hole_size h) \<and>
        (\<forall>h. best = Some h \<longrightarrow> hole_size b \<le> hole_size h))"
proof (induction holes arbitrary: best)
  case (Cons h holes)
  show ?case
    using Cons.IH [of "if hole_size h \<ge> sz
        then (case best of None \<Rightarrow> Some h
              | Some b \<Rightarrow> if hole_size h < hole_size b then Some h else best)
        else best"]
    by (auto split: option.splits if_splits)
qed (auto split: option.splits)

lemma worst_fit_loop_spec:
  "(case worst_fit_loop sz holes worst of
      None \<Rightarrow> worst = None \<and> (\<forall>h \<in> set holes. hole_size h < sz)
    | Some b \<Rightarrow> (worst = Some b \<or> b \<in> set holes \<and> sz \<le> hole_size b) \<and>
        (\<forall>h \<in> set holes. sz \<le> hole_size h \<longrightarrow> hole_size h \<le> hole_size b) \<and>
        (\<forall>h. worst = Some h \<longrightarrow> hole_size h \<le> hole_size b))"
proof (induction holes arbitrary: worst)
  case (Cons h holes)
  show ?case
    using Cons.IH [of "if hole_size h \<ge> sz
        then (case worst of None \<Rightarrow> Some h
              | Some b \<Rightarrow> if hole_size h > hole_size b then Some h else worst)
        else worst"]
    by (auto split: option.splits if_splits)
qed (auto split: option.splits)

lemma select_hole_cases:
  "case select_hole strategy holes sz of
     None \<Rightarrow> \<forall>h \<in> set holes. hole_size h < sz
   | Some b \<Rightarrow> b \<in> set holes \<and> sz \<le> hole_size b \<and>
       (\<forall>h \<in> set holes. sz \<le> hole_size h \<longrightarrow>
          (if strategy = ''BEST'' then hole_size b \<le> hole_size h else hole_size h \<le> hole_size b))"
  using best_fit_loop_spec [where sz = sz and holes = holes and best = None] worst_fit_loop_spec [where sz = sz and holes = holes and worst = None]
  by (auto simp: select_hole_def best_fit_def worst_fit_def split: option.splits)

lemma select_hole_Some:
  "select_hole strategy holes sz = Some b \<Longrightarrow> b \<in> set holes \<and> sz \<le> hole_size b"
  using select_hole_cases [where strategy = strategy and holes = holes and sz = sz] by simp

lemma select_hole_None:
  "select_hole strategy holes sz = None \<longleftrightarrow> (\<forall>h \<in> set holes. hole_size h < sz)"
  using select_hole_cases [where strategy = strategy and holes = holes and sz = sz] by (cases "select_hole strategy holes sz") force+

text \<open>The configured strategy picks the right hole: \<open>BEST\<close> the smallest and any other value
  the largest of the free holes in which the segment fits; nothing is picked exactly when no hole
  is large enough.\<close>
theorem select_hole_optimal:
  "case select_hole strategy holes sz of
     None \<Rightarrow> \<forall>h \<in> set holes. hole_size h < sz
   | Some b \<Rightarrow> b \<in> set holes \<and> sz \<le> hole_size b \<and>
       (\<forall>h \<in> set holes. sz \<le> hole_size h \<longrightarrow>
          (if strategy = ''BEST'' then hole_size b \<le> hole_size h else hole_size h \<le> hole_size b))"
  by (rule select_hole_cases)

theorem select_hole_optimal_witness:
  "select_hole ''BEST'' [\<lparr>hole_base = 0, hole_size = 1\<rparr>, \<lparr>hole_base = 9, hole_size = 3\<rparr>] 2 =
     Some \<lparr>hole_base = 9, hole_size = 3\<rparr>"
  using select_hole_optimal [where strategy = "''BEST''" and sz = 2 and
      holes = "[\<lparr>hole_base = 0, hole_size = 1\<rparr>, \<lparr>hole_base = 9, hole_size = 3\<rparr>]"]
  by (auto simp: u32_le_iff split: option.splits)

section \<open>The holes are exactly the free memory\<close>

definition hole_end :: "t_hole \<Rightarrow> nat" where
  "hole_end h = unat (hole_base h) + unat (hole_size h)"

definition area :: "t_hole list \<Rightarrow> nat set" where
  "area hs = (\<Union>h \<in> set hs. {unat (hole_base h) ..< hole_end h})"

definition apart :: "t_hole \<Rightarrow> t_hole \<Rightarrow> bool" where
  "apart a b \<longleftrightarrow> hole_end a \<le> unat (hole_base b) \<or> hole_end b \<le> unat (hole_base a)"

definition placed :: "nat \<Rightarrow> t_hole list \<Rightarrow> bool" where
  "placed n hs \<longleftrightarrow>
     (\<forall>h \<in> set hs. 0 < unat (hole_size h) \<and> hole_end h \<le> n) \<and> sorted_wrt apart hs"

definition sizes :: "t_hole list \<Rightarrow> nat" where
  "sizes hs = sum_list (map (\<lambda>h. unat (hole_size h)) hs)"

lemma area_simps [simp]:
  "area [] = {}" "area (h # hs) = {unat (hole_base h) ..< hole_end h} \<union> area hs"
  "area (xs @ ys) = area xs \<union> area ys"
  by (auto simp: area_def)

lemma sizes_simps [simp]:
  "sizes [] = 0" "sizes (h # hs) = unat (hole_size h) + sizes hs"
  "sizes (xs @ ys) = sizes xs + sizes ys"
  by (simp_all add: sizes_def)

lemma placed_perm: "mset xs = mset ys \<Longrightarrow> placed n xs \<Longrightarrow> placed n ys"
  using sorted_wrt_perm [of apart xs ys] mset_eq_setD [of xs ys]
  by (auto simp: placed_def apart_def)

lemma area_perm: "mset xs = mset ys \<Longrightarrow> area xs = area ys"
  using mset_eq_setD [of xs ys] by (simp add: area_def)

lemma sizes_perm: "mset xs = mset ys \<Longrightarrow> sizes xs = sizes ys"
  unfolding sizes_def by (metis mset_map sum_mset_sum_list)

abbreviation ordered :: "t_hole list \<Rightarrow> bool" where
  "ordered hs \<equiv> sorted_wrt (\<lambda>a b. hole_end a \<le> unat (hole_base b)) hs"

lemma ordered_placed:
  assumes "placed n hs" and "sorted_wrt (\<lambda>a b. \<not> compare_by_base b a) hs"
  shows "ordered hs"
  using assms
proof (induction hs)
  case (Cons h hs)
  then have "ordered hs" by (simp add: placed_def)
  moreover have "hole_end h \<le> unat (hole_base g)" if g: "g \<in> set hs" for g
  proof (rule ccontr)
    assume "\<not> hole_end h \<le> unat (hole_base g)"
    moreover have "apart h g" "0 < unat (hole_size g)" "unat (hole_base h) \<le> unat (hole_base g)"
      using Cons.prems g by (auto simp: placed_def compare_by_base_def u32_less_iff)
    ultimately show False by (auto simp: apart_def hole_end_def)
  qed
  ultimately show ?case by simp
qed simp

definition exact_holes :: "nat \<Rightarrow> nat \<Rightarrow> t_hole list \<Rightarrow> t_hole list \<Rightarrow> bool" where
  "exact_holes lo hi occ holes \<longleftrightarrow>
     (\<forall>h \<in> set holes. 0 < unat (hole_size h) \<and> hole_end h \<le> hi \<and> lo \<le> unat (hole_base h)) \<and>
     sorted_wrt (\<lambda>a b. hole_end a < unat (hole_base b)) holes \<and>
     area holes = {lo ..< hi} - area occ \<and>
     sizes holes + sizes occ = hi - lo"

lemma free_holes_from:
  assumes "ordered occ" and "unat cursor \<le> unat total_size"
    and "\<forall>h \<in> set occ. 0 < unat (hole_size h) \<and> hole_end h \<le> unat total_size \<and>
      unat cursor \<le> unat (hole_base h)"
  shows "exact_holes (unat cursor) (unat total_size) occ (free_holes_from total_size cursor occ)"
  using assms
proof (induction total_size cursor occ rule: free_holes_from.induct)
  case (1 total_size cursor)
  then show ?case
    by (auto simp: exact_holes_def u32_less_iff u32_sub_unat u32_le_iff hole_end_def)
next
  case (2 total_size cursor occ rest)
  have p: "0 < unat (hole_size occ)" "hole_end occ \<le> unat total_size" "unat cursor \<le> unat (hole_base occ)"
    using "2.prems"(3) by auto
  have "unat (hole_base occ) + unat (hole_size occ) < 4294967296"
    using p(2) u32_bound [of total_size] unfolding hole_end_def by linarith
  then have e: "unat (hole_base occ + hole_size occ) = hole_end occ"
    by (simp add: hole_end_def u32_add_unat)
  have "exact_holes (hole_end occ) (unat total_size) rest
      (free_holes_from total_size (hole_base occ + hole_size occ) rest)"
    using "2.IH" "2.prems" e by auto
  moreover have "area rest \<inter> {..< hole_end occ} = {}"
    using "2.prems"(1) by (auto simp: area_def)
  moreover have "unat (hole_base occ - cursor) = unat (hole_base occ) - unat cursor"
    using p by (simp add: u32_sub_unat u32_le_iff)
  ultimately show ?case
    using p by (auto simp: exact_holes_def hole_end_def u32_less_iff)
qed

definition occupied :: "km_state \<Rightarrow> t_hole list" where
  "occupied s = map seg_hole (all_segments (list_processes s))"

lemma get_free_holes_exact:
  assumes "sorts_by list_sort compare_by_base" and "placed (unat (total_memory_size s)) (occupied s)"
  shows "exact_holes 0 (unat (total_memory_size s)) (occupied s) (get_free_holes list_sort s)"
proof -
  let ?occ = "list_sort compare_by_base (occupied s)"
  have m: "mset (occupied s) = mset ?occ" and srt: "sorted_wrt (\<lambda>a b. \<not> compare_by_base b a) ?occ"
    using sorts_byD [OF assms(1)] by auto
  have pl: "placed (unat (total_memory_size s)) ?occ" using placed_perm [OF m assms(2)] .
  have "exact_holes 0 (unat (total_memory_size s)) ?occ (free_holes_from (total_memory_size s) 0 ?occ)"
    using free_holes_from [of ?occ 0 "total_memory_size s"] ordered_placed [OF pl srt] pl
    by (simp add: placed_def)
  then show ?thesis
    using area_perm [OF m] sizes_perm [OF m]
    by (simp add: exact_holes_def get_free_holes_def occupied_def Let_def)
qed

text \<open>A small state for the witnesses: seven bytes of memory, two processes with one segment each,
  a swap of four blocks of two bytes.\<close>

definition example_pcb :: "u32 \<Rightarrow> t_segment list \<Rightarrow> t_pcb" where
  "example_pcb pid segs =
     (create_pcb [''p'' \<mapsto> ''EXIT''] (\<lambda>x _. [x]) pid ''p'')\<lparr>segment_table := segs\<rparr>"

definition km_example :: km_state where
  "km_example =
     \<lparr>list_processes =
        [example_pcb 1 [\<lparr>segment_id = 0, seg_base = 1, seg_size = 2\<rparr>],
         example_pcb 2 [\<lparr>segment_id = 0, seg_base = 4, seg_size = 2\<rparr>]],
      list_suspended_processes = [],
      km_memory = two_sticks, total_memory_size = 7, allocation_strategy = ''BEST'',
      swap_block_size = 2, swap_total_size = 8, swap_dev = swap_create 8 2,
      compaction_sem = 0, compaction_waiters = [], to_scheduler = []\<rparr>"

lemma example_pcb [simp]:
  "pcb_pid (example_pcb pid segs) = pid" "segment_table (example_pcb pid segs) = segs"
  by (simp_all add: example_pcb_def create_pcb_def)

lemma sorts_by_base: "sorts_by sort_by compare_by_base"
  by (rule sorts_by_sort_by [where key = hole_base]) (simp add: compare_by_base_def fun_eq_iff)

lemma placed_example: "placed (unat (total_memory_size km_example)) (occupied km_example)"
  by (simp add: placed_def occupied_def all_segments_def km_example_def seg_hole_def apart_def
      hole_end_def)

text \<open>C34: the free holes that Kernel Memory computes from the segment tables are exactly the free
  memory: together they cover every address below the total size that no segment of any process
  occupies, each is non-empty, they come in the order of their bases with a segment between any
  two of them (so none can be merged), and their sizes add up to the total less what is
  occupied.\<close>
theorem get_free_holes_are_free_memory:
  assumes "sorts_by list_sort compare_by_base"
    and "placed (unat (total_memory_size s)) (occupied s)"
  defines "holes \<equiv> get_free_holes list_sort s"
  shows "area holes = {0 ..< unat (total_memory_size s)} - area (occupied s) \<and>
    (\<forall>h \<in> set holes. 0 < unat (hole_size h) \<and> hole_end h \<le> unat (total_memory_size s)) \<and>
    sorted_wrt (\<lambda>a b. hole_end a < unat (hole_base b)) holes \<and>
    sizes holes + sizes (occupied s) = unat (total_memory_size s)"
  using get_free_holes_exact [OF assms(1,2)] by (simp_all add: exact_holes_def holes_def)

theorem get_free_holes_are_free_memory_witness:
  "area (get_free_holes sort_by km_example) = {0 ..< 7} - ({1 ..< 3} \<union> {4 ..< 6})"
  using get_free_holes_are_free_memory [OF sorts_by_base placed_example, THEN conjunct1]
  by (simp add: km_example_def occupied_def all_segments_def seg_hole_def hole_end_def Un_commute numeral_3_eq_3)

text \<open>A state whose tables are laid out properly: every segment inside of the memory, no two
  overlapping, and the total size what the connected sticks really hold.\<close>

definition km_inv :: "km_state \<Rightarrow> bool" where
  "km_inv s \<longleftrightarrow>
     memory_valid (km_memory s) \<and>
     length (memory_content (km_memory s)) = unat (total_memory_size s) \<and>
     placed (unat (total_memory_size s)) (occupied s)"

lemma km_inv_example: "km_inv km_example"
  using placed_example by (simp add: km_inv_def) (simp add: km_example_def)

end
