(* ===== verification/Compaction.thy ===== *)
theory Compaction
  imports KM_State
begin

text \<open>
  Memory compaction (\<open>compact_memory\<close> in \<open>kernel_memory/src/memory_manage.c\<close>). The list
  of pointers to all segments is a list of references, the position of the process and of the
  segment in its table, each with the segment it points to; an assignment through the pointer is
  \<open>set_base\<close>. The movement of the bytes is proved in the locale \<open>byte_store\<close>, for any flat
  memory.
\<close>

section \<open>Sliding blocks down in a byte store\<close>

text \<open>Where each of a list of blocks (base and size) ends up when they are put one after the other.\<close>

fun pack :: "u32 \<Rightarrow> (u32 \<times> u32) list \<Rightarrow> u32 list" where
  "pack cursor [] = []"
| "pack cursor ((b, n) # blocks) = cursor # pack (cursor + n) blocks"

lemma length_pack [simp]: "length (pack cursor blocks) = length blocks"
  by (induction cursor blocks rule: pack.induct) auto

abbreviation in_order :: "(u32 \<times> u32) list \<Rightarrow> bool" where
  "in_order blocks \<equiv> sorted_wrt (\<lambda>a b. unat (fst a) + unat (snd a) \<le> unat (fst b)) blocks"

context byte_store
begin

fun slide :: "(u32 \<times> u32) list \<Rightarrow> u32 \<Rightarrow> 's \<Rightarrow> 's run" where
  "slide [] cursor s = Ret s"
| "slide ((b, n) # blocks) cursor s =
     (if b \<noteq> cursor
      then and_then (rd s b n) (\<lambda>(data, s1).
             and_then (case data of
                 None \<Rightarrow> Ret s1
               | Some d \<Rightarrow> and_then (wr s1 cursor d n) (\<lambda>(_, s2). Ret s2))
               (slide blocks (cursor + n)))
      else slide blocks (cursor + n) s)"

definition held :: "'s \<Rightarrow> u32 \<Rightarrow> u32 \<Rightarrow> byte list" where
  "held s b n = slice (unat b) (unat n) (content s)"

lemma slide_one:
  assumes "valid s" and "unat cursor \<le> unat b" and "unat b + unat n \<le> length (content s)"
  shows "\<exists>s1. (if b \<noteq> cursor
        then and_then (rd s b n) (\<lambda>(data, s1).
             and_then (case data of
                 None \<Rightarrow> Ret s1
               | Some d \<Rightarrow> and_then (wr s1 cursor d n) (\<lambda>(_, s2). Ret s2)) k)
        else k s) = k s1 \<and>
      valid s1 \<and> length (content s1) = length (content s) \<and> held s1 cursor n = held s b n \<and>
      take (unat cursor) (content s1) = take (unat cursor) (content s) \<and>
      (\<forall>p m. unat b + unat n \<le> unat p \<and> unat p + unat m \<le> length (content s) \<longrightarrow>
         held s1 p m = held s p m)"
proof (cases "b = cursor")
  case True
  with assms show ?thesis by auto
next
  case False
  let ?d = "slice (unat b) (unat n) (content s)"
  have d: "length ?d = unat n" using assms(3) by simp
  moreover have "unat cursor + unat n \<le> length (content s)" using assms(2,3) by linarith
  ultimately obtain s1 where "wr s cursor ?d n = Ret (True, s1)" "valid s1"
    "content s1 = overwrite (unat cursor) ?d (content s)"
    using wr [OF assms(1)] by blast
  with assms d False show ?thesis
    by (intro exI [of _ s1])
      (auto simp: rd held_def slice_overwrite_same slice_overwrite_disjoint)
qed

text \<open>Each block is read where it is and rewritten lower, in the order of the bases: no block is
  overwritten before it has been moved.\<close>

lemma slide:
  assumes "valid s" and "in_order blocks"
    and "\<forall>(b, n) \<in> set blocks. unat cursor \<le> unat b \<and> unat b + unat n \<le> length (content s)"
    and "length (content s) < 2 ^ 32"
  shows "\<exists>s'. slide blocks cursor s = Ret s' \<and> valid s' \<and>
    length (content s') = length (content s) \<and>
    take (unat cursor) (content s') = take (unat cursor) (content s) \<and>
    map2 (held s') (pack cursor blocks) (map snd blocks) = map (\<lambda>(b, n). held s b n) blocks"
  using assms
proof (induction blocks arbitrary: cursor s)
  case Nil
  then show ?case by simp
next
  case (Cons blk blocks)
  obtain b n where blk: "blk = (b, n)" by (cases blk)
  have bn: "unat cursor \<le> unat b" "unat b + unat n \<le> length (content s)"
    using Cons.prems(3) blk by auto
  from slide_one [OF Cons.prems(1) bn, of "slide blocks (cursor + n)"]
  obtain s1 where s1: "slide (blk # blocks) cursor s = slide blocks (cursor + n) s1" "valid s1"
    "length (content s1) = length (content s)" "held s1 cursor n = held s b n"
    "take (unat cursor) (content s1) = take (unat cursor) (content s)"
    "\<forall>p m. unat b + unat n \<le> unat p \<and> unat p + unat m \<le> length (content s) \<longrightarrow>
       held s1 p m = held s p m" by (auto simp: blk)
  have c: "unat (cursor + n) = unat cursor + unat n"
    using bn Cons.prems(4) by (intro u32_add_unat) simp
  have rest: "\<forall>(p, m) \<in> set blocks. unat b + unat n \<le> unat p \<and> unat p + unat m \<le> length (content s)"
    using Cons.prems(2,3) blk by auto
  then have "\<forall>(p, m) \<in> set blocks. unat (cursor + n) \<le> unat p \<and> unat p + unat m \<le> length (content s1)"
    using bn(1) c s1(3) by auto
  then obtain s' where s': "slide blocks (cursor + n) s1 = Ret s'" "valid s'"
    "length (content s') = length (content s1)"
    "take (unat (cursor + n)) (content s') = take (unat (cursor + n)) (content s1)"
    "map2 (held s') (pack (cursor + n) blocks) (map snd blocks) = map (\<lambda>(b, n). held s1 b n) blocks"
    using Cons.IH [of s1 "cursor + n"] Cons.prems s1 by auto
  have "map (\<lambda>(b, n). held s1 b n) blocks = map (\<lambda>(b, n). held s b n) blocks"
    using rest s1(6) by auto
  moreover have "held s' cursor n = held s b n"
    using s'(4) s1(4) by (simp add: held_def slice_def take_drop c add.commute [of "unat n"])
  moreover have "take (unat cursor) (content s') = take (unat cursor) (content s)"
    using arg_cong [OF s'(4), of "take (unat cursor)"] s1(5) by (simp add: c min_absorb1)
  ultimately show ?case using s1 s' by (simp add: blk)
qed

end

section \<open>\<open>compact_memory\<close>\<close>

type_synonym seg_ref = "nat \<times> nat"

definition seg_at :: "t_pcb list \<Rightarrow> seg_ref \<Rightarrow> t_segment" where
  "seg_at ps r = segment_table (ps ! fst r) ! snd r"

definition segment_refs :: "t_pcb list \<Rightarrow> seg_ref list" where
  "segment_refs ps =
     concat (map (\<lambda>i. map (\<lambda>j. (i, j)) [0..<length (segment_table (ps ! i))]) [0..<length ps])"

definition set_base :: "seg_ref \<Rightarrow> u32 \<Rightarrow> t_pcb list \<Rightarrow> t_pcb list" where
  "set_base r b ps =
     ps[fst r := (ps ! fst r)\<lparr>segment_table :=
       (segment_table (ps ! fst r))[snd r := (seg_at ps r)\<lparr>seg_base := b\<rparr>]\<rparr>]"

definition compare_segment_by_base :: "seg_ref \<times> t_segment \<Rightarrow> seg_ref \<times> t_segment \<Rightarrow> bool" where
  "compare_segment_by_base a b \<longleftrightarrow> seg_base (snd a) < seg_base (snd b)"

text \<open>
  The base is updated whether or not the bytes could be moved, and the result of the write is not
  looked at.
\<close>

fun compact_loop ::
  "(seg_ref \<times> t_segment) list \<Rightarrow> u32 \<Rightarrow> t_pcb list \<Rightarrow> memory \<Rightarrow> (t_pcb list \<times> memory) run" where
  "compact_loop [] cursor ps m = Ret (ps, m)"
| "compact_loop ((r, seg) # rest) cursor ps m =
     (if seg_base seg \<noteq> cursor
      then and_then (memory_read m (seg_base seg) (seg_size seg)) (\<lambda>(data, m1).
             and_then (case data of
                 None \<Rightarrow> Ret m1
               | Some d \<Rightarrow> and_then (memory_write m1 cursor d (seg_size seg)) (\<lambda>(_, m2). Ret m2))
               (compact_loop rest (cursor + seg_size seg) (set_base r cursor ps)))
      else compact_loop rest (cursor + seg_size seg) ps m)"

definition compact_memory :: "(seg_ref \<times> t_segment) list_sort \<Rightarrow> km_state \<Rightarrow> km_state run" where
  "compact_memory list_sort s =
     (let ps = list_processes s;
          segs = list_sort compare_segment_by_base (map (\<lambda>r. (r, seg_at ps r)) (segment_refs ps))
      in and_then (compact_loop segs 0 ps (km_memory s)) (\<lambda>(ps', m).
           Ret (s\<lparr>list_processes := ps', km_memory := m\<rparr>)))"

section \<open>What compaction does to the tables\<close>

definition blocks_of :: "(seg_ref \<times> t_segment) list \<Rightarrow> (u32 \<times> u32) list" where
  "blocks_of = map (\<lambda>(r, seg). (seg_base seg, seg_size seg))"

lemma blocks_of_simps [simp]:
  "blocks_of [] = []" "blocks_of ((r, seg) # rest) = (seg_base seg, seg_size seg) # blocks_of rest"
  "length (blocks_of segs) = length segs"
  by (simp_all add: blocks_of_def)

fun set_bases :: "(seg_ref \<times> t_segment) list \<Rightarrow> u32 \<Rightarrow> t_pcb list \<Rightarrow> t_pcb list" where
  "set_bases [] cursor ps = ps"
| "set_bases ((r, seg) # rest) cursor ps =
     set_bases rest (cursor + seg_size seg) (if seg_base seg \<noteq> cursor then set_base r cursor ps else ps)"

abbreviation km_slide :: "(u32 \<times> u32) list \<Rightarrow> u32 \<Rightarrow> memory \<Rightarrow> memory run" where
  "km_slide \<equiv> km_link.store.slide"

lemma compact_loop_slide:
  "compact_loop segs cursor ps m =
   and_then (km_slide (blocks_of segs) cursor m) (\<lambda>m'. Ret (set_bases segs cursor ps, m'))"
proof (induction segs arbitrary: cursor ps m)
  case (Cons a segs)
  obtain r seg where a: "a = (r, seg)" by (cases a)
  have "compact_loop segs c qs = (\<lambda>m. and_then (km_slide (blocks_of segs) c m)
      (\<lambda>m'. Ret (set_bases segs c qs, m')))" for c qs
    by (rule ext) (rule Cons.IH)
  then show ?case
    unfolding a
    by (simp add: memory_read_def memory_write_def and_then_assoc split_def cong: option.case_cong)
qed simp

definition valid_ref :: "t_pcb list \<Rightarrow> seg_ref \<Rightarrow> bool" where
  "valid_ref ps r \<longleftrightarrow> fst r < length ps \<and> snd r < length (segment_table (ps ! fst r))"

lemma segment_refs [simp]:
  "set (segment_refs ps) = {r. valid_ref ps r}" "distinct (segment_refs ps)"
proof -
  show "set (segment_refs ps) = {r. valid_ref ps r}"
    by (auto simp: segment_refs_def valid_ref_def)
  have "distinct (concat (map (\<lambda>i. map (\<lambda>j. (i, j)) [0..<f i]) [0..<n]))" for f :: "nat \<Rightarrow> nat" and n
    by (induction n) (auto simp: distinct_map inj_on_def)
  then show "distinct (segment_refs ps)" unfolding segment_refs_def .
qed

lemma all_segments_refs: "all_segments ps = map (seg_at ps) (segment_refs ps)"
proof -
  have t: "segment_table (ps ! i) = map (\<lambda>j. seg_at ps (i, j)) [0..<length (segment_table (ps ! i))]" for i
    by (simp add: seg_at_def map_nth)
  have "map segment_table ps = map (\<lambda>i. segment_table (ps ! i)) [0..<length ps]"
    by (rule nth_equalityI) auto
  then show ?thesis
    unfolding all_segments_def segment_refs_def map_concat
    by (simp add: comp_def t [symmetric])
qed

text \<open>Two tables with the same shape: they differ in the bases of the segments only.\<close>

definition same_shape :: "t_pcb \<Rightarrow> t_pcb \<Rightarrow> bool" where
  "same_shape p p' \<longleftrightarrow>
     pcb_pid p' = pcb_pid p \<and> pcb_context p' = pcb_context p \<and>
     pcb_instructions p' = pcb_instructions p \<and>
     map segment_id (segment_table p') = map segment_id (segment_table p) \<and>
     map seg_size (segment_table p') = map seg_size (segment_table p)"

lemma same_shape_refl [simp]: "same_shape p p"
  by (simp add: same_shape_def)

lemma same_shape_trans: "same_shape p q \<Longrightarrow> same_shape q r \<Longrightarrow> same_shape p r"
  by (simp add: same_shape_def)

lemma set_base_shape: "valid_ref ps r \<Longrightarrow> list_all2 same_shape ps (set_base r b ps)"
  by (auto simp: list_all2_conv_all_nth set_base_def nth_list_update same_shape_def seg_at_def
      valid_ref_def list_eq_iff_nth_eq)

lemma shape_refs:
  assumes "list_all2 same_shape ps ps'"
  shows "segment_refs ps' = segment_refs ps" "valid_ref ps' = valid_ref ps"
proof -
  have l: "length ps' = length ps" "\<forall>i < length ps. length (segment_table (ps' ! i)) = length (segment_table (ps ! i))"
    using assms by (auto simp: list_all2_conv_all_nth same_shape_def dest: map_eq_imp_length_eq)
  then show "segment_refs ps' = segment_refs ps" "valid_ref ps' = valid_ref ps"
    by (auto simp: segment_refs_def valid_ref_def fun_eq_iff intro!: arg_cong [where f = concat])
qed

lemma seg_at_set_base:
  "valid_ref ps r \<Longrightarrow> valid_ref ps q \<Longrightarrow>
   seg_at (set_base r b ps) q = (if q = r then (seg_at ps r)\<lparr>seg_base := b\<rparr> else seg_at ps q)"
  by (cases q; cases r) (auto simp: seg_at_def set_base_def valid_ref_def nth_list_update)

lemma set_bases:
  assumes "distinct (map fst segs)"
    and "\<forall>(r, seg) \<in> set segs. valid_ref ps r \<and> seg = seg_at ps r"
  shows "list_all2 same_shape ps (set_bases segs cursor ps) \<and>
    (\<forall>q. valid_ref ps q \<and> q \<notin> fst ` set segs \<longrightarrow> seg_at (set_bases segs cursor ps) q = seg_at ps q) \<and>
    map (\<lambda>x. seg_at (set_bases segs cursor ps) (fst x)) segs =
      map2 (\<lambda>b x. (snd x)\<lparr>seg_base := b\<rparr>) (pack cursor (blocks_of segs)) segs"
  using assms
proof (induction segs arbitrary: cursor ps)
  case Nil
  show ?case by (simp add: list_all2_refl)
next
  case (Cons a segs)
  obtain r seg where a: "a = (r, seg)" by (cases a)
  define ps1 where "ps1 = (if seg_base seg \<noteq> cursor then set_base r cursor ps else ps)"
  have r: "valid_ref ps r" "seg = seg_at ps r" "r \<notin> fst ` set segs"
    using Cons.prems by (auto simp: a)
  have sh: "list_all2 same_shape ps ps1"
    using set_base_shape [OF r(1)] by (simp add: ps1_def list_all2_refl)
  have at: "seg_at ps1 q = (if q = r then seg\<lparr>seg_base := cursor\<rparr> else seg_at ps q)"
    if "valid_ref ps q" for q
    using r that by (auto simp: ps1_def seg_at_set_base)
  have "\<forall>(q, g) \<in> set segs. valid_ref ps1 q \<and> g = seg_at ps1 q"
    using Cons.prems(2) r(3) shape_refs(2) [OF sh] by (force simp: at)
  then have IH: "list_all2 same_shape ps1 (set_bases segs (cursor + seg_size seg) ps1)"
    "\<forall>q. valid_ref ps1 q \<and> q \<notin> fst ` set segs \<longrightarrow>
       seg_at (set_bases segs (cursor + seg_size seg) ps1) q = seg_at ps1 q"
    "map (\<lambda>x. seg_at (set_bases segs (cursor + seg_size seg) ps1) (fst x)) segs =
      map2 (\<lambda>b x. (snd x)\<lparr>seg_base := b\<rparr>) (pack (cursor + seg_size seg) (blocks_of segs)) segs"
    using Cons.IH [of ps1 "cursor + seg_size seg"] Cons.prems(1) by auto
  have "list_all2 same_shape ps (set_bases segs (cursor + seg_size seg) ps1)"
    using list_all2_trans [OF same_shape_trans sh IH(1)] by simp
  moreover have "seg_at (set_bases segs (cursor + seg_size seg) ps1) r = seg\<lparr>seg_base := cursor\<rparr>"
    using IH(2) [rule_format, of r] r shape_refs(2) [OF sh] at [OF r(1)] by simp
  moreover have "\<forall>q. valid_ref ps q \<and> q \<notin> fst ` set (a # segs) \<longrightarrow>
       seg_at (set_bases segs (cursor + seg_size seg) ps1) q = seg_at ps q"
    using IH(2) shape_refs(2) [OF sh] at by (auto simp: a)
  ultimately show ?case using IH(3) by (simp add: a ps1_def)
qed

section \<open>The memory of a process\<close>

text \<open>
  What a process can see of its memory: for each of its segments, in the order of the table, the
  identifier, the size and the bytes. Where the segment is in physical memory is not part of it.
\<close>

definition seg_bytes :: "memory \<Rightarrow> t_segment \<Rightarrow> byte list" where
  "seg_bytes m seg = slice (unat (seg_base seg)) (unat (seg_size seg)) (memory_content m)"

definition process_view ::
  "memory \<Rightarrow> t_pcb \<Rightarrow> u32 \<times> t_cpu_context \<times> string list option \<times> (u32 \<times> u32 \<times> byte list) list"
where
  "process_view m p = (pcb_pid p, pcb_context p, pcb_instructions p,
     map (\<lambda>seg. (segment_id seg, seg_size seg, seg_bytes m seg)) (segment_table p))"

definition user_view ::
  "km_state \<Rightarrow> (u32 \<times> t_cpu_context \<times> string list option \<times> (u32 \<times> u32 \<times> byte list) list) list"
where
  "user_view s = map (process_view (km_memory s)) (list_processes s)"

lemma process_view_eqI:
  assumes "list_all2 same_shape ps ps'"
    and "\<forall>q. valid_ref ps q \<longrightarrow> seg_bytes m' (seg_at ps' q) = seg_bytes m (seg_at ps q)"
  shows "map (process_view m') ps' = map (process_view m) ps"
proof (rule nth_equalityI)
  show "length (map (process_view m') ps') = length (map (process_view m) ps)"
    using assms(1) by (simp add: list_all2_lengthD)
next
  fix i assume "i < length (map (process_view m') ps')"
  then have i: "i < length ps" "i < length ps'" using assms(1) by (simp_all add: list_all2_lengthD)
  then have sh: "same_shape (ps ! i) (ps' ! i)" using assms(1) by (simp add: list_all2_nthD)
  then have l: "length (segment_table (ps' ! i)) = length (segment_table (ps ! i))"
    by (auto simp: same_shape_def dest: map_eq_imp_length_eq)
  have "map (\<lambda>seg. (segment_id seg, seg_size seg, seg_bytes m' seg)) (segment_table (ps' ! i)) =
      map (\<lambda>seg. (segment_id seg, seg_size seg, seg_bytes m seg)) (segment_table (ps ! i))"
  proof (rule nth_equalityI)
    fix j assume "j < length (map (\<lambda>seg. (segment_id seg, seg_size seg, seg_bytes m' seg)) (segment_table (ps' ! i)))"
    then have j: "j < length (segment_table (ps ! i))" using l by simp
    have "segment_id (segment_table (ps' ! i) ! j) = segment_id (segment_table (ps ! i) ! j)"
      "seg_size (segment_table (ps' ! i) ! j) = seg_size (segment_table (ps ! i) ! j)"
      using sh j l by (auto simp: same_shape_def list_eq_iff_nth_eq)
    moreover have "seg_bytes m' (segment_table (ps' ! i) ! j) = seg_bytes m (segment_table (ps ! i) ! j)"
      using assms(2) [rule_format, of "(i, j)"] i j by (simp add: valid_ref_def seg_at_def)
    ultimately show "map (\<lambda>seg. (segment_id seg, seg_size seg, seg_bytes m' seg)) (segment_table (ps' ! i)) ! j =
        map (\<lambda>seg. (segment_id seg, seg_size seg, seg_bytes m seg)) (segment_table (ps ! i)) ! j"
      using j l by simp
  qed (simp add: l)
  with i sh show "map (process_view m') ps' ! i = map (process_view m) ps ! i"
    by (simp add: process_view_def same_shape_def)
qed

section \<open>Compacted tables\<close>

fun packed :: "nat \<Rightarrow> t_hole list \<Rightarrow> bool" where
  "packed c [] \<longleftrightarrow> True"
| "packed c (h # hs) \<longleftrightarrow> unat (hole_base h) = c \<and> packed (c + unat (hole_size h)) hs"

lemma packed:
  assumes "packed c hs"
  shows "area hs = {c ..< c + sizes hs}" and "ordered hs"
    and "\<forall>h \<in> set hs. c \<le> unat (hole_base h) \<and> hole_end h \<le> c + sizes hs"
proof -
  have "area hs = {c ..< c + sizes hs} \<and> ordered hs \<and>
      (\<forall>h \<in> set hs. c \<le> unat (hole_base h) \<and> hole_end h \<le> c + sizes hs)"
    using assms
  proof (induction hs arbitrary: c)
    case (Cons h hs)
    define c' where "c' = c + unat (hole_size h)"
    have IH: "area hs = {c' ..< c' + sizes hs}" "ordered hs"
      "\<forall>g \<in> set hs. c' \<le> unat (hole_base g) \<and> hole_end g \<le> c' + sizes hs"
      using Cons by (auto simp: c'_def)
    then show ?case using Cons.prems by (auto simp: hole_end_def c'_def)
  qed simp
  then show "area hs = {c ..< c + sizes hs}" and "ordered hs"
    and "\<forall>h \<in> set hs. c \<le> unat (hole_base h) \<and> hole_end h \<le> c + sizes hs" by auto
qed

lemma packed_pack:
  assumes "unat cursor + sizes (map (seg_hole \<circ> snd) segs) < 2 ^ 32"
  shows "packed (unat cursor)
    (map seg_hole (map2 (\<lambda>b x. (snd x)\<lparr>seg_base := b\<rparr>) (pack cursor (blocks_of segs)) segs))"
    and "sizes (map seg_hole (map2 (\<lambda>b x. (snd x)\<lparr>seg_base := b\<rparr>) (pack cursor (blocks_of segs)) segs)) =
      sizes (map (seg_hole \<circ> snd) segs)"
  using assms
proof (induction segs arbitrary: cursor)
  case (Cons a segs)
  obtain r seg where a: "a = (r, seg)" by (cases a)
  {
    case 1
    then have "unat (cursor + seg_size seg) = unat cursor + unat (seg_size seg)"
      by (intro u32_add_unat) (simp add: a seg_hole_def)
    with 1 Cons.IH(1) [of "cursor + seg_size seg"] show ?case by (simp add: a seg_hole_def)
  next
    case 2
    then have "unat (cursor + seg_size seg) = unat cursor + unat (seg_size seg)"
      by (intro u32_add_unat) (simp add: a seg_hole_def)
    with 2 Cons.IH(2) [of "cursor + seg_size seg"] show ?case by (simp add: a seg_hole_def)
  }
qed simp_all

text \<open>When the segments fill the memory from address 0, there is at most one hole, behind them.\<close>

lemma exact_holes_tail:
  assumes "exact_holes 0 n occ holes" and "area occ = {0 ..< used}" and "sizes occ = used"
    and "n < 2 ^ 32"
  shows "holes = (if used < n then [\<lparr>hole_base = of_nat used, hole_size = of_nat (n - used)\<rparr>] else [])"
proof (cases holes)
  case Nil
  then show ?thesis using assms by (auto simp: exact_holes_def)
next
  case (Cons h hs)
  have ar: "area holes = {used ..< n}" using assms(1,2) by (auto simp: exact_holes_def)
  have "hs = []"
  proof (cases hs)
    case (Cons g gs)
    have h: "0 < unat (hole_size h)" and g: "0 < unat (hole_size g)" "hole_end g \<le> n"
      and gap: "hole_end h < unat (hole_base g)"
      and rest: "\<forall>k \<in> set gs. unat (hole_base g) < unat (hole_base k)"
      using assms(1) \<open>holes = h # hs\<close> Cons by (auto simp: exact_holes_def hole_end_def)
    have "unat (hole_base h) \<in> area holes"
      using h \<open>holes = h # hs\<close> by (simp add: hole_end_def)
    then have "used \<le> unat (hole_base h)" using ar by simp
    then have "hole_end h \<in> area holes"
      using ar gap g by (auto simp: hole_end_def)
    moreover have "hole_end h \<notin> area holes"
      using gap rest \<open>holes = h # hs\<close> Cons by (auto simp: area_def)
    ultimately show ?thesis by simp
  qed simp
  with Cons have one: "{unat (hole_base h) ..< hole_end h} = {used ..< n}" using ar by simp
  have h: "0 < unat (hole_size h)" using assms(1) Cons by (simp add: exact_holes_def)
  then have "unat (hole_base h) < hole_end h" by (simp add: hole_end_def)
  with one have "unat (hole_base h) = used" "hole_end h = n" "used < n"
    by (metis atLeastLessThan_inj(1) atLeastLessThan_empty_iff not_less,
        metis atLeastLessThan_inj(2) atLeastLessThan_empty_iff not_less,
        metis atLeastLessThan_empty_iff not_less)
  then have "h = \<lparr>hole_base = of_nat used, hole_size = of_nat (n - used)\<rparr>"
    by (cases h) (auto simp: hole_end_def)
  with Cons \<open>hs = []\<close> \<open>used < n\<close> show ?thesis by simp
qed

section \<open>Compaction is correct\<close>

lemma held_seg_bytes: "km_link.store.held m (seg_base seg) (seg_size seg) = seg_bytes m seg"
  by (simp add: km_link.store.held_def seg_bytes_def)

lemma km_inv_sizes: "km_inv s \<Longrightarrow> sizes (occupied s) \<le> unat (total_memory_size s)"
  using get_free_holes_exact [OF sorts_by_base, of s] by (simp add: km_inv_def exact_holes_def)

lemma compact_sorted:
  assumes "km_inv s" and "sorts_by list_sort compare_segment_by_base"
  defines "segs \<equiv> list_sort compare_segment_by_base
    (map (\<lambda>r. (r, seg_at (list_processes s) r)) (segment_refs (list_processes s)))"
  shows "mset (map fst segs) = mset (segment_refs (list_processes s))"
    and "\<forall>(r, seg) \<in> set segs. valid_ref (list_processes s) r \<and> seg = seg_at (list_processes s) r"
    and "mset (map (seg_hole \<circ> snd) segs) = mset (occupied s)"
    and "ordered (map (seg_hole \<circ> snd) segs)"
    and "\<forall>h \<in> set (map (seg_hole \<circ> snd) segs). hole_end h \<le> unat (total_memory_size s)"
proof -
  let ?L = "map (\<lambda>r. (r, seg_at (list_processes s) r)) (segment_refs (list_processes s))"
  note st = sorts_byD [OF assms(2), of ?L, folded segs_def]
  show "mset (map fst segs) = mset (segment_refs (list_processes s))"
    using arg_cong [OF st(1), of "image_mset fst"] by (simp add: image_mset.compositionality comp_def)
  show "\<forall>(r, seg) \<in> set segs. valid_ref (list_processes s) r \<and> seg = seg_at (list_processes s) r"
    using st(2) by auto
  show m: "mset (map (seg_hole \<circ> snd) segs) = mset (occupied s)"
    using arg_cong [OF st(1), of "image_mset (seg_hole \<circ> snd)"]
    by (simp add: occupied_def all_segments_refs image_mset.compositionality comp_def)
  have pl: "placed (unat (total_memory_size s)) (map (seg_hole \<circ> snd) segs)"
    using assms(1) m by (auto simp: km_inv_def intro: placed_perm)
  have "sorted_wrt (\<lambda>a b. \<not> compare_by_base b a) (map (seg_hole \<circ> snd) segs)"
    using st(5) by (simp add: sorted_wrt_map compare_by_base_def compare_segment_by_base_def seg_hole_def)
  with pl show "ordered (map (seg_hole \<circ> snd) segs)" by (rule ordered_placed)
  show "\<forall>h \<in> set (map (seg_hole \<circ> snd) segs). hole_end h \<le> unat (total_memory_size s)"
    using pl by (simp add: placed_def)
qed

lemma compact_memory:
  assumes inv: "km_inv s" and srt: "sorts_by list_sort compare_segment_by_base"
  shows "\<exists>ps' m'. compact_memory list_sort s = Ret (s\<lparr>list_processes := ps', km_memory := m'\<rparr>) \<and>
    memory_valid m' \<and> length (memory_content m') = unat (total_memory_size s) \<and>
    list_all2 same_shape (list_processes s) ps' \<and>
    map (process_view m') ps' = user_view s \<and>
    (\<exists>hs. packed 0 hs \<and> sizes hs = sizes (occupied s) \<and>
       mset (map seg_hole (all_segments ps')) = mset hs)"
proof -
  let ?ps = "list_processes s" and ?m = "km_memory s"
  define segs where "segs = list_sort compare_segment_by_base (map (\<lambda>r. (r, seg_at ?ps r)) (segment_refs ?ps))"
  note so = compact_sorted [OF inv srt, folded segs_def]
  let ?N = "map2 (\<lambda>b x. (snd x)\<lparr>seg_base := b\<rparr>) (pack 0 (blocks_of segs)) segs"
  define ps' where "ps' = set_bases segs 0 ?ps"
  have fs: "fst ` set segs = {r. valid_ref ?ps r}" "distinct (map fst segs)"
    using mset_eq_setD [OF so(1)] mset_eq_imp_distinct_iff [OF so(1)] by auto
  note sb = set_bases [OF fs(2) so(2), of 0, folded ps'_def]
  have io: "in_order (blocks_of segs)"
    using so(4) by (simp add: blocks_of_def sorted_wrt_map split_def seg_hole_def hole_end_def)
  have bd: "\<forall>(b, n) \<in> set (blocks_of segs). unat (0 :: u32) \<le> unat b \<and> unat b + unat n \<le> length (memory_content ?m)"
    using so(5) inv by (auto simp: blocks_of_def seg_hole_def hole_end_def km_inv_def)
  have v: "memory_valid ?m" "length (memory_content ?m) = unat (total_memory_size s)"
    using inv by (simp_all add: km_inv_def)
  then have "length (memory_content ?m) < 2 ^ 32" by simp
  from km_link.store.slide [OF v(1) io bd this]
  obtain m' where m': "km_slide (blocks_of segs) 0 ?m = Ret m'" "memory_valid m'"
    "length (memory_content m') = length (memory_content ?m)"
    "map2 (km_link.store.held m') (pack 0 (blocks_of segs)) (map snd (blocks_of segs)) =
       map (\<lambda>(b, n). km_link.store.held ?m b n) (blocks_of segs)" by blast
  have "seg_bytes m' (seg_at ps' q) = seg_bytes ?m (seg_at ?ps q)" if q: "valid_ref ?ps q" for q
  proof -
    have "q \<in> fst ` set segs" using q fs(1) by simp
    then obtain seg where "(q, seg) \<in> set segs" by force
    moreover from this have "seg = seg_at ?ps q" using so(2) by auto
    ultimately obtain k where "k < length segs" "segs ! k = (q, seg_at ?ps q)"
      by (auto simp: in_set_conv_nth)
    then have k: "k < length segs" "fst (segs ! k) = q" "snd (segs ! k) = seg_at ?ps q" by auto
    have "map (\<lambda>x. seg_at ps' (fst x)) segs ! k = ?N ! k" using sb by simp
    then have at: "seg_at ps' q = (seg_at ?ps q)\<lparr>seg_base := pack 0 (blocks_of segs) ! k\<rparr>"
      using k by simp
    have "map2 (km_link.store.held m') (pack 0 (blocks_of segs)) (map snd (blocks_of segs)) ! k =
       map (\<lambda>(b, n). km_link.store.held ?m b n) (blocks_of segs) ! k" using m'(4) by simp
    then show ?thesis
      using k at by (simp add: blocks_of_def split_def held_seg_bytes [symmetric])
  qed
  with sb have view: "map (process_view m') ps' = user_view s"
    unfolding user_view_def by (intro process_view_eqI) auto
  have "map (seg_at ps') (map fst segs) = ?N" using sb by (simp add: comp_def)
  moreover have "mset (all_segments ps') = mset (map (seg_at ps') (map fst segs))"
    using arg_cong [OF so(1), of "image_mset (seg_at ps')"] shape_refs(1) [OF conjunct1 [OF sb]]
    by (simp only: all_segments_refs mset_map)
  ultimately have "mset (map seg_hole (all_segments ps')) = mset (map seg_hole ?N)"
    by (simp only: mset_map)
  moreover have "packed 0 (map seg_hole ?N)" "sizes (map seg_hole ?N) = sizes (occupied s)"
    using packed_pack [of 0 segs] sizes_perm [OF so(3)] km_inv_sizes [OF inv]
      u32_bound [of "total_memory_size s"] by auto
  moreover have "compact_memory list_sort s = Ret (s\<lparr>list_processes := ps', km_memory := m'\<rparr>)"
    using m'(1) by (simp add: compact_memory_def segs_def [symmetric] compact_loop_slide ps'_def)
  ultimately show ?thesis using m' v sb view by (metis (no_types, lifting))
qed

text \<open>The tables after compaction: the invariant holds and all free memory is one hole at the end.\<close>

lemma compact_memory_spec:
  assumes inv: "km_inv s" and srt: "sorts_by list_sort compare_segment_by_base"
  shows "\<exists>s'. compact_memory list_sort s = Ret s' \<and> km_inv s' \<and> user_view s' = user_view s \<and>
    sizes (occupied s') = sizes (occupied s) \<and> area (occupied s') = {0 ..< sizes (occupied s)} \<and>
    map pcb_pid (list_processes s') = map pcb_pid (list_processes s) \<and>
    s' = s\<lparr>list_processes := list_processes s', km_memory := km_memory s'\<rparr>"
proof -
  from compact_memory [OF assms] obtain ps' m' hs where
    r: "compact_memory list_sort s = Ret (s\<lparr>list_processes := ps', km_memory := m'\<rparr>)"
    and m: "memory_valid m'" "length (memory_content m') = unat (total_memory_size s)"
    and sh: "list_all2 same_shape (list_processes s) ps'"
    and v: "map (process_view m') ps' = user_view s"
    and hs: "packed 0 hs" "sizes hs = sizes (occupied s)"
      "mset (map seg_hole (all_segments ps')) = mset hs" by blast
  let ?s = "s\<lparr>list_processes := ps', km_memory := m'\<rparr>"
  have oc: "mset (occupied ?s) = mset hs" using hs(3) by (simp add: occupied_def)
  have "all_segments ps' = map (seg_at ps') (segment_refs (list_processes s))"
    using shape_refs(1) [OF sh] by (simp add: all_segments_refs)
  moreover have "\<forall>r. valid_ref (list_processes s) r \<longrightarrow>
      seg_size (seg_at ps' r) = seg_size (seg_at (list_processes s) r)"
    using sh by (auto simp: list_all2_conv_all_nth valid_ref_def seg_at_def same_shape_def
        list_eq_iff_nth_eq)
  ultimately have "map (\<lambda>h. hole_size h) (occupied ?s) = map hole_size (occupied s)"
    by (auto simp: occupied_def all_segments_refs seg_hole_def)
  then have "hole_size ` set (occupied ?s) = hole_size ` set (occupied s)"
    by (metis set_map)
  moreover have "set (occupied ?s) = set hs" using oc by (rule mset_eq_setD)
  ultimately have "\<forall>h \<in> set hs. 0 < unat (hole_size h)"
    using inv by (auto simp: km_inv_def placed_def) (metis (mono_tags, lifting) imageE imageI)
  then have "placed (unat (total_memory_size s)) hs"
    using packed [OF hs(1)] km_inv_sizes [OF inv] hs(2)
    by (auto simp: placed_def apart_def intro: sorted_wrt_mono_rel [rotated])
  then have "placed (unat (total_memory_size s)) (occupied ?s)"
    using placed_perm [OF oc [symmetric]] by simp
  then have "km_inv ?s" using m by (simp add: km_inv_def)
  moreover have "map pcb_pid ps' = map pcb_pid (list_processes s)"
    using sh by (auto simp: list_all2_conv_all_nth same_shape_def list_eq_iff_nth_eq)
  ultimately show ?thesis
    using r v sizes_perm [OF oc] area_perm [OF oc] packed(1) [OF hs(1)] hs(2)
    by (intro exI [of _ ?s]) (simp add: user_view_def)
qed

lemma holes_after_compaction:
  assumes "km_inv s" and "area (occupied s) = {0 ..< sizes (occupied s)}"
    and "sorts_by list_sort compare_by_base"
  shows "get_free_holes list_sort s =
    (if sizes (occupied s) < unat (total_memory_size s)
     then [\<lparr>hole_base = of_nat (sizes (occupied s)),
            hole_size = of_nat (unat (total_memory_size s) - sizes (occupied s))\<rparr>] else [])"
  using assms get_free_holes_exact [OF assms(3), of s]
  by (intro exact_holes_tail) (simp_all add: km_inv_def)

lemma sorts_by_segment_base: "sorts_by sort_by compare_segment_by_base"
  by (rule sorts_by_sort_by [where key = "\<lambda>x. seg_base (snd x)"])
    (simp add: compare_segment_by_base_def fun_eq_iff)

text \<open>C7: compaction is invisible to the processes: it always returns, and afterwards every process
  has the same segments (identifiers, sizes, order) with the same bytes in each, the same context
  and the same instructions; the tables are still laid out properly, so no two segments
  overlap.\<close>
theorem compact_memory_preserves_processes:
  assumes "km_inv s" and "sorts_by list_sort compare_segment_by_base"
  shows "\<exists>s'. compact_memory list_sort s = Ret s' \<and> km_inv s' \<and> user_view s' = user_view s"
  using compact_memory_spec [OF assms] by blast

theorem compact_memory_preserves_processes_witness:
  "\<exists>s'. compact_memory sort_by km_example = Ret s' \<and> km_inv s' \<and> user_view s' = user_view km_example"
  by (rule compact_memory_preserves_processes [OF km_inv_example sorts_by_segment_base])

text \<open>After compaction all the free memory is one hole behind the segments, as large as all the
  holes were together.\<close>
theorem compact_memory_joins_holes:
  assumes "km_inv s" and "sorts_by seg_sort compare_segment_by_base"
    and "sorts_by hole_sort compare_by_base"
  shows "\<exists>s'. compact_memory seg_sort s = Ret s' \<and>
    get_free_holes hole_sort s' =
      (if sizes (occupied s) < unat (total_memory_size s)
       then [\<lparr>hole_base = of_nat (sizes (occupied s)),
              hole_size = of_nat (unat (total_memory_size s) - sizes (occupied s))\<rparr>] else [])"
proof -
  from compact_memory_spec [OF assms(1,2)] obtain s' where
    s': "compact_memory seg_sort s = Ret s'" "km_inv s'" "sizes (occupied s') = sizes (occupied s)"
      "area (occupied s') = {0 ..< sizes (occupied s)}"
      "s' = s\<lparr>list_processes := list_processes s', km_memory := km_memory s'\<rparr>" by blast
  then have "total_memory_size s' = total_memory_size s"
    by (metis km_state.select_convs(4) km_state.surjective km_state.update_convs(1,3))
  with s' holes_after_compaction [OF s'(2) _ assms(3)] show ?thesis by simp
qed

theorem compact_memory_joins_holes_witness:
  "\<exists>s'. compact_memory sort_by km_example = Ret s' \<and>
    get_free_holes sort_by s' = [\<lparr>hole_base = 4, hole_size = 3\<rparr>]"
  using compact_memory_joins_holes [OF km_inv_example sorts_by_segment_base sorts_by_base]
  by (simp add: occupied_def all_segments_def km_example_def seg_hole_def)

end
