(* ===== verification/KM_Segments.thy ===== *)
theory KM_Segments
  imports Compaction
begin

text \<open>
  Creation and deletion of segments in Kernel Memory (\<open>memory_manage.c\<close>,
  \<open>segment_create_thread\<close>). A creation that finds no hole asks Kernel Scheduler for a
  compaction and waits: \<open>segment_create\<close> is split at that \<open>sem_wait\<close> into the part before
  it and \<open>segment_create_resume\<close>.
\<close>

definition send_segment_result :: "u32 \<Rightarrow> u32 \<Rightarrow> t_segment_result \<Rightarrow> km_state \<Rightarrow> km_state" where
  "send_segment_result pid sid result =
     send_to_scheduler (package_add (u32_bytes (segment_result_int result))
       (package_add (u32_bytes sid) (package_add (u32_bytes pid) (package_with SEGMENT_RESULT))))"

text \<open>The end of \<open>segment_create\<close>: the segment goes to the base of the chosen hole.\<close>

definition place_segment ::
  "u32 \<Rightarrow> u32 \<Rightarrow> u32 \<Rightarrow> t_hole \<Rightarrow> km_state \<Rightarrow> t_segment_result \<times> km_state" where
  "place_segment pid sid sz chosen s =
     (let seg = \<lparr>segment_id = sid, seg_base = hole_base chosen, seg_size = sz\<rparr> in
      case List.find (find_by_pid pid) (list_processes s) of
        None \<Rightarrow> (SEGMENT_ERROR, s)
      | Some _ \<Rightarrow>
          (SEGMENT_OK, s\<lparr>list_processes := update_first (find_by_pid pid)
             (\<lambda>pcb. pcb\<lparr>segment_table := segment_table pcb @ [seg]\<rparr>) (list_processes s)\<rparr>))"

text \<open>\<open>None\<close>: the request for a compaction was sent and the thread waits.\<close>

definition segment_create ::
  "t_hole list_sort \<Rightarrow> u32 \<Rightarrow> u32 \<Rightarrow> u32 \<Rightarrow> km_state \<Rightarrow> t_segment_result option \<times> km_state" where
  "segment_create list_sort pid sid sz s =
     (let holes = get_free_holes list_sort s;
          total_free_space = sum_list (map hole_size holes)
      in if total_free_space < sz then (Some SEGMENT_NO_SPACE, s)
         else case select_hole (allocation_strategy s) holes sz of
           Some chosen \<Rightarrow> (let (r, s') = place_segment pid sid sz chosen s in (Some r, s'))
         | None \<Rightarrow>
             (None, (send_to_scheduler (package_with COMPACTION_REQUEST) s)
                \<lparr>compaction_waiters := compaction_waiters s @ [(pid, sid, sz)]\<rparr>))"

text \<open>The rest of \<open>request_and_compact\<close>, once \<open>COMPACTION_READY\<close> has posted the semaphore.\<close>

definition finish_compaction :: "(seg_ref \<times> t_segment) list_sort \<Rightarrow> km_state \<Rightarrow> km_state run" where
  "finish_compaction seg_sort s =
     and_then (compact_memory seg_sort (s\<lparr>compaction_sem := compaction_sem s - 1\<rparr>))
       (\<lambda>s'. Ret (send_to_scheduler (package_with COMPACTION_FINISHED) s'))"

definition segment_create_resume ::
  "(seg_ref \<times> t_segment) list_sort \<Rightarrow> t_hole list_sort \<Rightarrow> u32 \<Rightarrow> u32 \<Rightarrow> u32 \<Rightarrow> km_state \<Rightarrow>
   (t_segment_result \<times> km_state) run" where
  "segment_create_resume seg_sort list_sort pid sid sz s =
     and_then (finish_compaction seg_sort s) (\<lambda>s'.
       case select_hole (allocation_strategy s') (get_free_holes list_sort s') sz of
         None \<Rightarrow> Ret (SEGMENT_ERROR, s')
       | Some chosen \<Rightarrow> Ret (place_segment pid sid sz chosen s'))"

text \<open>\<open>segment_create_thread\<close>: the start of the thread, and its end after a wait.\<close>

definition segment_create_thread ::
  "t_hole list_sort \<Rightarrow> u32 \<Rightarrow> u32 \<Rightarrow> u32 \<Rightarrow> km_state \<Rightarrow> km_state" where
  "segment_create_thread list_sort pid sid sz s =
     (case segment_create list_sort pid sid sz s of
        (None, s') \<Rightarrow> s'
      | (Some r, s') \<Rightarrow> send_segment_result pid sid r s')"

definition segment_create_thread_resume ::
  "(seg_ref \<times> t_segment) list_sort \<Rightarrow> t_hole list_sort \<Rightarrow> u32 \<times> u32 \<times> u32 \<Rightarrow> km_state \<Rightarrow> km_state run"
where
  "segment_create_thread_resume seg_sort list_sort args s =
     (case args of (pid, sid, sz) \<Rightarrow>
        and_then (segment_create_resume seg_sort list_sort pid sid sz
            (s\<lparr>compaction_waiters := remove1 args (compaction_waiters s)\<rparr>))
          (\<lambda>(r, s'). Ret (send_segment_result pid sid r s')))"

definition segment_delete :: "u32 \<Rightarrow> u32 \<Rightarrow> km_state \<Rightarrow> t_segment_result \<times> km_state" where
  "segment_delete pid sid s =
     (case List.find (find_by_pid pid) (list_processes s) of
        None \<Rightarrow> (SEGMENT_ERROR, s)
      | Some pcb \<Rightarrow>
          (case List.find (find_by_segment_id sid) (segment_table pcb) of
             None \<Rightarrow> (SEGMENT_ERROR, s)
           | Some _ \<Rightarrow>
               (SEGMENT_OK, s\<lparr>list_processes := update_first (find_by_pid pid)
                  (\<lambda>pcb. pcb\<lparr>segment_table :=
                     remove_first (find_by_segment_id sid) (segment_table pcb)\<rparr>)
                  (list_processes s)\<rparr>)))"

section \<open>Placing and removing a segment\<close>

lemma apart_free:
  assumes "{unat b ..< unat b + unat n} \<inter> area hs = {}" and "0 < unat n"
    and "\<forall>h \<in> set hs. 0 < unat (hole_size h)" and "h \<in> set hs"
  shows "apart \<lparr>hole_base = b, hole_size = n\<rparr> h"
proof (rule ccontr)
  assume "\<not> apart \<lparr>hole_base = b, hole_size = n\<rparr> h"
  then have "unat (hole_base h) < unat b + unat n" "unat b < hole_end h"
    by (auto simp: apart_def hole_end_def)
  moreover have "unat (hole_base h) < hole_end h" using assms(3,4) by (simp add: hole_end_def)
  ultimately have "max (unat b) (unat (hole_base h)) \<in> {unat b ..< unat b + unat n} \<inter> area hs"
    using assms(2,4) by (auto simp: area_def intro!: bexI [of _ h])
  with assms(1) show False by simp
qed

lemma placed_Cons_free:
  assumes "exact_holes 0 n occ holes" and "placed n occ" and "chosen \<in> set holes"
    and "sz \<le> hole_size chosen" and "sz \<noteq> 0"
  shows "placed n (\<lparr>hole_base = hole_base chosen, hole_size = sz\<rparr> # occ)"
proof -
  have sz: "unat sz \<le> unat (hole_size chosen)" "0 < unat sz"
    using assms(4,5) by (simp_all add: u32_le_iff unat_gt_0)
  then have sub: "{unat (hole_base chosen) ..< unat (hole_base chosen) + unat sz} \<subseteq> area holes"
    using assms(3) by (force simp: area_def hole_end_def)
  then have "{unat (hole_base chosen) ..< unat (hole_base chosen) + unat sz} \<inter> area occ = {}"
    using assms(1) by (auto simp: exact_holes_def)
  moreover have "\<forall>h \<in> set occ. 0 < unat (hole_size h)" using assms(2) by (simp add: placed_def)
  ultimately have "\<forall>h \<in> set occ. apart \<lparr>hole_base = hole_base chosen, hole_size = sz\<rparr> h"
    using apart_free sz(2) by blast
  moreover have "hole_end chosen \<le> n" using assms(1,3) by (simp add: exact_holes_def)
  ultimately show ?thesis
    using assms(2) sz by (simp add: placed_def hole_end_def)
qed

lemma update_first_append_mset:
  assumes "List.find (find_by_pid pid) ps \<noteq> None"
  shows "mset (all_segments (update_first (find_by_pid pid)
      (\<lambda>pcb. pcb\<lparr>segment_table := segment_table pcb @ [seg]\<rparr>) ps)) =
    add_mset seg (mset (all_segments ps))"
  using assms by (induction ps) (auto simp: all_segments_def)

text \<open>One segment more, or one less, in the view of a process.\<close>

definition add_to_view ::
  "u32 \<Rightarrow> u32 \<times> u32 \<times> byte list \<Rightarrow>
   (u32 \<times> t_cpu_context \<times> string list option \<times> (u32 \<times> u32 \<times> byte list) list) list \<Rightarrow>
   (u32 \<times> t_cpu_context \<times> string list option \<times> (u32 \<times> u32 \<times> byte list) list) list" where
  "add_to_view pid seg =
     update_first (\<lambda>v. fst v = pid) (\<lambda>(p, c, i, segs). (p, c, i, segs @ [seg]))"

definition remove_from_view ::
  "u32 \<Rightarrow> u32 \<Rightarrow>
   (u32 \<times> t_cpu_context \<times> string list option \<times> (u32 \<times> u32 \<times> byte list) list) list \<Rightarrow>
   (u32 \<times> t_cpu_context \<times> string list option \<times> (u32 \<times> u32 \<times> byte list) list) list" where
  "remove_from_view pid sid =
     update_first (\<lambda>v. fst v = pid)
       (\<lambda>(p, c, i, segs). (p, c, i, remove_first (\<lambda>seg. fst seg = sid) segs))"

lemma map_update_first_conv:
  "(\<And>x. Q (g x) = P x) \<Longrightarrow> (\<And>x. P x \<Longrightarrow> g (f x) = f' (g x)) \<Longrightarrow>
   map g (update_first P f xs) = update_first Q f' (map g xs)"
  by (induction xs) auto

lemma map_remove_first:
  "(\<And>x. Q (g x) = P x) \<Longrightarrow> map g (remove_first P xs) = remove_first Q (map g xs)"
  by (induction xs) auto

lemma place_segment:
  assumes "km_inv s" and "sorts_by list_sort compare_by_base" and "sz \<noteq> 0"
    and "chosen \<in> set (get_free_holes list_sort s)" and "sz \<le> hole_size chosen"
    and "pid \<in> pcb_pid ` set (list_processes s)"
  shows "\<exists>s'. place_segment pid sid sz chosen s = (SEGMENT_OK, s') \<and> km_inv s' \<and>
    mset (occupied s') = add_mset \<lparr>hole_base = hole_base chosen, hole_size = sz\<rparr> (mset (occupied s)) \<and>
    to_scheduler s' = to_scheduler s \<and>
    user_view s' = add_to_view pid (sid, sz, slice (unat (hole_base chosen)) (unat sz)
      (memory_content (km_memory s))) (user_view s)"
proof -
  let ?seg = "\<lparr>segment_id = sid, seg_base = hole_base chosen, seg_size = sz\<rparr>"
  have f: "List.find (find_by_pid pid) (list_processes s) \<noteq> None"
    using assms(6) by (auto simp: find_None_iff find_by_pid_def)
  let ?s = "s\<lparr>list_processes := update_first (find_by_pid pid)
      (\<lambda>pcb. pcb\<lparr>segment_table := segment_table pcb @ [?seg]\<rparr>) (list_processes s)\<rparr>"
  have p: "place_segment pid sid sz chosen s = (SEGMENT_OK, ?s)"
    using f by (auto simp: place_segment_def Let_def)
  have m: "mset (occupied ?s) = add_mset \<lparr>hole_base = hole_base chosen, hole_size = sz\<rparr> (mset (occupied s))"
    using update_first_append_mset [OF f, of ?seg] by (simp add: occupied_def seg_hole_def)
  have "placed (unat (total_memory_size s)) (\<lparr>hole_base = hole_base chosen, hole_size = sz\<rparr> # occupied s)"
    using get_free_holes_exact [OF assms(2), of s] assms by (intro placed_Cons_free) (auto simp: km_inv_def)
  then have "km_inv ?s"
    using assms(1) m placed_perm [of "\<lparr>hole_base = hole_base chosen, hole_size = sz\<rparr> # occupied s" "occupied ?s"]
    by (simp add: km_inv_def)
  moreover have "user_view ?s = add_to_view pid (sid, sz, slice (unat (hole_base chosen)) (unat sz)
      (memory_content (km_memory s))) (user_view s)"
    unfolding add_to_view_def user_view_def km_state.select_convs km_state.update_convs
    by (simp, rule map_update_first_conv) (simp_all add: process_view_def find_by_pid_def seg_bytes_def)
  ultimately show ?thesis using p m by auto
qed

lemma total_free_space:
  assumes "km_inv s" and "sorts_by list_sort compare_by_base"
  shows "unat (sum_list (map hole_size (get_free_holes list_sort s))) =
    unat (total_memory_size s) - sizes (occupied s)"
proof -
  have e: "sizes (get_free_holes list_sort s) + sizes (occupied s) = unat (total_memory_size s)"
    using get_free_holes_exact [OF assms(2), of s] assms(1) by (simp add: km_inv_def exact_holes_def)
  then have "sum_list (map unat (map hole_size (get_free_holes list_sort s))) < 4294967296"
    using u32_bound [of "total_memory_size s"] unfolding sizes_def map_map comp_def by linarith
  from unat_sum_list_u32 [OF this] e show ?thesis by (simp add: sizes_def comp_def)
qed

section \<open>Correctness\<close>

text \<open>The system never asks for a segment of 0 bytes: \<open>km_inv\<close> has only non-empty ones.\<close>

lemma segment_create_cases:
  assumes inv: "km_inv s" and srt: "sorts_by list_sort compare_by_base"
    and sz: "sz \<noteq> 0" and pid: "pid \<in> pcb_pid ` set (list_processes s)"
  defines "free \<equiv> unat (total_memory_size s) - sizes (occupied s)"
  shows "(free < unat sz \<and> segment_create list_sort pid sid sz s = (Some SEGMENT_NO_SPACE, s)) \<or>
    (unat sz \<le> free \<and> (\<exists>h \<in> set (get_free_holes list_sort s). sz \<le> hole_size h) \<and>
      (\<exists>s' h. segment_create list_sort pid sid sz s = (Some SEGMENT_OK, s') \<and> km_inv s' \<and>
         h \<in> set (get_free_holes list_sort s) \<and> sz \<le> hole_size h \<and>
         mset (occupied s') = add_mset \<lparr>hole_base = hole_base h, hole_size = sz\<rparr> (mset (occupied s)) \<and>
         user_view s' = add_to_view pid (sid, sz, slice (unat (hole_base h)) (unat sz)
           (memory_content (km_memory s))) (user_view s))) \<or>
    (unat sz \<le> free \<and> (\<forall>h \<in> set (get_free_holes list_sort s). hole_size h < sz) \<and>
      segment_create list_sort pid sid sz s =
        (None, (send_to_scheduler (package_with COMPACTION_REQUEST) s)
           \<lparr>compaction_waiters := compaction_waiters s @ [(pid, sid, sz)]\<rparr>))"
proof (cases "free < unat sz")
  case True
  then show ?thesis
    using total_free_space [OF inv srt]
    by (simp add: segment_create_def Let_def u32_less_iff free_def)
next
  case False
  then have nf: "\<not> sum_list (map hole_size (get_free_holes list_sort s)) < sz"
    using total_free_space [OF inv srt] by (simp add: u32_less_iff free_def)
  show ?thesis
  proof (cases "select_hole (allocation_strategy s) (get_free_holes list_sort s) sz")
    case None
    with nf False show ?thesis
      using select_hole_None [of "allocation_strategy s" "get_free_holes list_sort s" sz]
      by (simp add: segment_create_def Let_def)
  next
    case (Some h)
    then have h: "h \<in> set (get_free_holes list_sort s)" "sz \<le> hole_size h"
      using select_hole_Some by blast+
    from place_segment [OF inv srt sz h pid, of sid] obtain s' where
      "place_segment pid sid sz h s = (SEGMENT_OK, s')" "km_inv s'"
      "mset (occupied s') = add_mset \<lparr>hole_base = hole_base h, hole_size = sz\<rparr> (mset (occupied s))"
      "user_view s' = add_to_view pid (sid, sz, slice (unat (hole_base h)) (unat sz)
           (memory_content (km_memory s))) (user_view s)"
      by blast
    with nf False Some h show ?thesis by (auto simp: segment_create_def Let_def)
  qed
qed

lemma finish_compaction:
  assumes inv: "km_inv s" and srt: "sorts_by seg_sort compare_segment_by_base"
  shows "\<exists>s'. finish_compaction seg_sort s = Ret s' \<and> km_inv s' \<and> user_view s' = user_view s \<and>
    sizes (occupied s') = sizes (occupied s) \<and> area (occupied s') = {0 ..< sizes (occupied s)} \<and>
    map pcb_pid (list_processes s') = map pcb_pid (list_processes s) \<and>
    total_memory_size s' = total_memory_size s \<and>
    to_scheduler s' = to_scheduler s @ [package_with COMPACTION_FINISHED] \<and>
    compaction_sem s' = compaction_sem s - 1"
proof -
  let ?s = "s\<lparr>compaction_sem := compaction_sem s - 1\<rparr>"
  have i: "km_inv ?s" and oc: "occupied ?s = occupied s" and uv: "user_view ?s = user_view s"
    using inv by (simp_all add: km_inv_def occupied_def user_view_def)
  from compact_memory_spec [OF i srt] obtain s1 where s1:
    "compact_memory seg_sort ?s = Ret s1" "km_inv s1" "user_view s1 = user_view s"
    "sizes (occupied s1) = sizes (occupied s)" "area (occupied s1) = {0 ..< sizes (occupied s)}"
    "map pcb_pid (list_processes s1) = map pcb_pid (list_processes s)"
    "s1 = ?s\<lparr>list_processes := list_processes s1, km_memory := km_memory s1\<rparr>"
    unfolding oc uv by auto
  obtain ps m where "s1 = ?s\<lparr>list_processes := ps, km_memory := m\<rparr>" using s1(7) by blast
  with s1(1-6) show ?thesis
    by (simp add: finish_compaction_def send_to_scheduler_def km_inv_def occupied_def user_view_def)
qed

lemma segment_create_resume:
  assumes inv: "km_inv s" and srt: "sorts_by seg_sort compare_segment_by_base"
    "sorts_by list_sort compare_by_base"
    and sz: "sz \<noteq> 0" and pid: "pid \<in> pcb_pid ` set (list_processes s)"
    and free: "sizes (occupied s) + unat sz \<le> unat (total_memory_size s)"
  shows "\<exists>s'. segment_create_resume seg_sort list_sort pid sid sz s = Ret (SEGMENT_OK, s') \<and>
    km_inv s' \<and> sizes (occupied s') = sizes (occupied s) + unat sz \<and>
    to_scheduler s' = to_scheduler s @ [package_with COMPACTION_FINISHED] \<and>
    (\<exists>bytes. user_view s' = add_to_view pid (sid, sz, bytes) (user_view s))"
proof -
  from finish_compaction [OF inv srt(1)] obtain s1 where s1:
    "finish_compaction seg_sort s = Ret s1" "km_inv s1"
    "sizes (occupied s1) = sizes (occupied s)" "area (occupied s1) = {0 ..< sizes (occupied s)}"
    "map pcb_pid (list_processes s1) = map pcb_pid (list_processes s)"
    "total_memory_size s1 = total_memory_size s" "user_view s1 = user_view s"
    "to_scheduler s1 = to_scheduler s @ [package_with COMPACTION_FINISHED]" by blast
  have pid': "pid \<in> pcb_pid ` set (list_processes s1)" using pid s1(5) by (metis set_map)
  let ?h = "\<lparr>hole_base = of_nat (sizes (occupied s)),
            hole_size = of_nat (unat (total_memory_size s) - sizes (occupied s))\<rparr> :: t_hole"
  have pos: "0 < unat sz" using sz by (simp add: unat_gt_0)
  then have hs: "get_free_holes list_sort s1 = [?h]"
    using holes_after_compaction [OF s1(2) _ srt(2)] s1 free by simp
  have "unat (total_memory_size s) - sizes (occupied s) < 4294967296"
    using u32_bound [of "total_memory_size s"] by linarith
  then have "sz \<le> hole_size ?h" using free by (simp add: u32_le_iff del: of_nat_diff)
  then have "select_hole (allocation_strategy s1) [?h] sz = Some ?h"
    using select_hole_None [of "allocation_strategy s1" "[?h]" sz]
      select_hole_Some [of "allocation_strategy s1" "[?h]" sz]
    by (cases "select_hole (allocation_strategy s1) [?h] sz") auto
  moreover obtain s' where "place_segment pid sid sz ?h s1 = (SEGMENT_OK, s')" "km_inv s'"
    "mset (occupied s') = add_mset \<lparr>hole_base = hole_base ?h, hole_size = sz\<rparr> (mset (occupied s1))"
    "to_scheduler s' = to_scheduler s1"
    "user_view s' = add_to_view pid (sid, sz, slice (unat (hole_base ?h)) (unat sz)
      (memory_content (km_memory s1))) (user_view s1)"
    using place_segment [OF s1(2) srt(2) sz _ \<open>sz \<le> hole_size ?h\<close> pid'] hs by auto
  moreover from this have "sizes (occupied s') = sizes (\<lparr>hole_base = hole_base ?h, hole_size = sz\<rparr> # occupied s1)"
    by (intro sizes_perm) simp
  ultimately show ?thesis
    using s1 hs by (auto simp: segment_create_resume_def)
qed

lemma segment_delete:
  assumes inv: "km_inv s" and ps: "list_processes s = ps1 @ pcb # ps2"
    and f: "find_by_pid pid pcb" "\<forall>p \<in> set ps1. \<not> find_by_pid pid p"
    and tb: "segment_table pcb = t1 @ seg # t2"
    and g: "find_by_segment_id sid seg" "\<forall>x \<in> set t1. \<not> find_by_segment_id sid x"
  shows "\<exists>s'. segment_delete pid sid s = (SEGMENT_OK, s') \<and> km_inv s' \<and>
    add_mset (seg_hole seg) (mset (occupied s')) = mset (occupied s) \<and>
    user_view s' = remove_from_view pid sid (user_view s)"
proof -
  let ?f = "\<lambda>pcb. pcb\<lparr>segment_table := remove_first (find_by_segment_id sid) (segment_table pcb)\<rparr>"
  let ?s = "s\<lparr>list_processes := update_first (find_by_pid pid) ?f (list_processes s)\<rparr>"
  have d: "segment_delete pid sid s = (SEGMENT_OK, ?s)"
    using f g by (simp add: segment_delete_def ps tb)
  have m: "add_mset (seg_hole seg) (mset (occupied ?s)) = mset (occupied s)"
    using f g by (simp add: occupied_def all_segments_def ps tb)
  then have m': "mset (seg_hole seg # occupied ?s) = mset (occupied s)" by simp
  have "placed (unat (total_memory_size s)) (seg_hole seg # occupied ?s)"
    using placed_perm [OF m' [symmetric]] inv by (simp add: km_inv_def)
  then have "km_inv ?s" using inv by (simp add: km_inv_def placed_def)
  moreover have "map (process_view (km_memory s)) (update_first (find_by_pid pid) ?f (list_processes s)) =
      remove_from_view pid sid (map (process_view (km_memory s)) (list_processes s))"
    unfolding remove_from_view_def
    by (rule map_update_first_conv)
      (simp_all add: process_view_def find_by_pid_def map_remove_first [where Q = "\<lambda>seg. fst seg = sid"]
        find_by_segment_id_def)
  ultimately show ?thesis using d m by (auto simp: user_view_def)
qed

lemma segment_create_branches:
  assumes "km_inv s" and "sorts_by list_sort compare_by_base"
    and "sz \<noteq> 0" and "pid \<in> pcb_pid ` set (list_processes s)"
  defines "free \<equiv> unat (total_memory_size s) - sizes (occupied s)"
    and "fits \<equiv> \<exists>h \<in> set (get_free_holes list_sort s). sz \<le> hole_size h"
  shows "free < unat sz \<Longrightarrow> segment_create list_sort pid sid sz s = (Some SEGMENT_NO_SPACE, s)"
    and "unat sz \<le> free \<Longrightarrow> fits \<Longrightarrow>
      \<exists>s' bytes. segment_create list_sort pid sid sz s = (Some SEGMENT_OK, s') \<and> km_inv s' \<and>
        sizes (occupied s') = sizes (occupied s) + unat sz \<and>
        user_view s' = add_to_view pid (sid, sz, bytes) (user_view s)"
    and "unat sz \<le> free \<Longrightarrow> \<not> fits \<Longrightarrow>
      \<exists>s'. segment_create list_sort pid sid sz s = (None, s') \<and>
        to_scheduler s' = to_scheduler s @ [package_with COMPACTION_REQUEST] \<and>
        compaction_waiters s' = compaction_waiters s @ [(pid, sid, sz)]"
proof -
  note c = segment_create_cases [OF assms(1-4), of sid, folded free_def]
  show "free < unat sz \<Longrightarrow> segment_create list_sort pid sid sz s = (Some SEGMENT_NO_SPACE, s)"
    using c by linarith
  show "unat sz \<le> free \<Longrightarrow> fits \<Longrightarrow>
      \<exists>s' bytes. segment_create list_sort pid sid sz s = (Some SEGMENT_OK, s') \<and> km_inv s' \<and>
        sizes (occupied s') = sizes (occupied s) + unat sz \<and>
        user_view s' = add_to_view pid (sid, sz, bytes) (user_view s)"
  proof -
    assume "unat sz \<le> free" "fits"
    then have "\<exists>s' h. segment_create list_sort pid sid sz s = (Some SEGMENT_OK, s') \<and> km_inv s' \<and>
         h \<in> set (get_free_holes list_sort s) \<and> sz \<le> hole_size h \<and>
         mset (occupied s') = add_mset \<lparr>hole_base = hole_base h, hole_size = sz\<rparr> (mset (occupied s)) \<and>
         user_view s' = add_to_view pid (sid, sz, slice (unat (hole_base h)) (unat sz)
           (memory_content (km_memory s))) (user_view s)"
      using c by (auto simp: fits_def not_less)
    then obtain s' and h :: t_hole where r: "segment_create list_sort pid sid sz s = (Some SEGMENT_OK, s')" "km_inv s'"
      "mset (occupied s') = add_mset \<lparr>hole_base = hole_base h, hole_size = sz\<rparr> (mset (occupied s))"
      "user_view s' = add_to_view pid (sid, sz, slice (unat (hole_base h)) (unat sz)
           (memory_content (km_memory s))) (user_view s)" by blast
    then have "sizes (occupied s') = sizes (\<lparr>hole_base = hole_base h, hole_size = sz\<rparr> # occupied s)"
      by (intro sizes_perm) simp
    with r show ?thesis by auto
  qed
  show "unat sz \<le> free \<Longrightarrow> \<not> fits \<Longrightarrow>
      \<exists>s'. segment_create list_sort pid sid sz s = (None, s') \<and>
        to_scheduler s' = to_scheduler s @ [package_with COMPACTION_REQUEST] \<and>
        compaction_waiters s' = compaction_waiters s @ [(pid, sid, sz)]"
    using c by (auto simp: fits_def send_to_scheduler_def)
qed

text \<open>C24: a request for a segment of an existing process is answered in the right one of three ways.
  With less free memory than asked for, in all holes together, the answer is
  \<open>SEGMENT_NO_SPACE\<close> and nothing changes. With a hole that is large enough the segment is
  created in one, without touching any other segment or the memory of any process, and the tables
  stay laid out properly. Otherwise, and only then, a compaction is requested.\<close>
theorem segment_create_outcomes:
  assumes "km_inv s" and "sorts_by list_sort compare_by_base"
    and "sz \<noteq> 0" and "pid \<in> pcb_pid ` set (list_processes s)"
  defines "free \<equiv> unat (total_memory_size s) - sizes (occupied s)"
    and "fits \<equiv> \<exists>h \<in> set (get_free_holes list_sort s). sz \<le> hole_size h"
  shows "(free < unat sz \<longrightarrow> segment_create list_sort pid sid sz s = (Some SEGMENT_NO_SPACE, s)) \<and>
    (unat sz \<le> free \<and> fits \<longrightarrow>
      (\<exists>s' bytes. segment_create list_sort pid sid sz s = (Some SEGMENT_OK, s') \<and> km_inv s' \<and>
        sizes (occupied s') = sizes (occupied s) + unat sz \<and>
        user_view s' = add_to_view pid (sid, sz, bytes) (user_view s))) \<and>
    (unat sz \<le> free \<and> \<not> fits \<longrightarrow>
      (\<exists>s'. segment_create list_sort pid sid sz s = (None, s') \<and>
        to_scheduler s' = to_scheduler s @ [package_with COMPACTION_REQUEST] \<and>
        compaction_waiters s' = compaction_waiters s @ [(pid, sid, sz)]))"
  using segment_create_branches [OF assms(1-4), of sid] by (auto simp: free_def fits_def)

lemma example_holes:
  "get_free_holes sort_by km_example =
    [\<lparr>hole_base = 0, hole_size = 1\<rparr>, \<lparr>hole_base = 3, hole_size = 1\<rparr>, \<lparr>hole_base = 6, hole_size = 1\<rparr>]"
  by (simp add: get_free_holes_def all_segments_def km_example_def seg_hole_def compare_by_base_def)

lemma example_facts [simp]:
  "unat (total_memory_size km_example) = 7" "sizes (occupied km_example) = 4"
  "pcb_pid ` set (list_processes km_example) = {1, 2}"
  by (auto simp: km_example_def occupied_def all_segments_def seg_hole_def)

theorem segment_create_outcomes_witness:
  "segment_create sort_by 1 5 4 km_example = (Some SEGMENT_NO_SPACE, km_example) \<and>
   (\<exists>s' bytes. segment_create sort_by 1 5 1 km_example = (Some SEGMENT_OK, s') \<and> km_inv s' \<and>
     sizes (occupied s') = 5 \<and> user_view s' = add_to_view 1 (5, 1, bytes) (user_view km_example)) \<and>
   (\<exists>s'. segment_create sort_by 1 5 3 km_example = (None, s') \<and>
     to_scheduler s' = to_scheduler km_example @ [package_with COMPACTION_REQUEST] \<and>
     compaction_waiters s' = compaction_waiters km_example @ [(1, 5, 3)])"
  using segment_create_outcomes [OF km_inv_example sorts_by_base, of 4 1 5]
    segment_create_outcomes [OF km_inv_example sorts_by_base, of 1 1 5]
    segment_create_outcomes [OF km_inv_example sorts_by_base, of 3 1 5]
  by (simp add: example_holes u32_le_iff)



text \<open>Deleting a segment by its identifier removes exactly that segment of that process: its
  memory becomes free, every other segment and process stays as it is and the tables stay laid out
  properly.\<close>
theorem segment_delete_removes:
  assumes "km_inv s" and "List.find (find_by_pid pid) (list_processes s) = Some pcb"
    and "List.find (find_by_segment_id sid) (segment_table pcb) = Some seg"
  shows "\<exists>s'. segment_delete pid sid s = (SEGMENT_OK, s') \<and> km_inv s' \<and>
    add_mset (seg_hole seg) (mset (occupied s')) = mset (occupied s) \<and>
    user_view s' = remove_from_view pid sid (user_view s)"
proof -
  from find_split [OF assms(2)] obtain ps1 ps2 where ps: "list_processes s = ps1 @ pcb # ps2"
    "find_by_pid pid pcb" "\<forall>p \<in> set ps1. \<not> find_by_pid pid p" by blast
  from find_split [OF assms(3)] obtain t1 t2 where tb: "segment_table pcb = t1 @ seg # t2"
    "find_by_segment_id sid seg" "\<forall>x \<in> set t1. \<not> find_by_segment_id sid x" by blast
  from segment_delete [OF assms(1) ps tb] show ?thesis .
qed

theorem segment_delete_removes_witness:
  "\<exists>s'. segment_delete 2 0 km_example = (SEGMENT_OK, s') \<and> km_inv s' \<and>
    add_mset \<lparr>hole_base = 4, hole_size = 2\<rparr> (mset (occupied s')) = mset (occupied km_example) \<and>
    user_view s' = remove_from_view 2 0 (user_view km_example)"
  using segment_delete_removes [OF km_inv_example, of 2
      "example_pcb 2 [\<lparr>segment_id = 0, seg_base = 4, seg_size = 2\<rparr>]" 0
      "\<lparr>segment_id = 0, seg_base = 4, seg_size = 2\<rparr>"]
  by (simp add: find_by_pid_def find_by_segment_id_def seg_hole_def) (simp add: km_example_def find_by_pid_def)

end
