(* ===== verification/KM_Swap.thy ===== *)
theory KM_Swap
  imports KM_Segments
begin

text \<open>
  Suspension of processes to SWAP and back (\<open>memory_manage.c\<close>). The blocks of every suspended
  segment are kept in \<open>list_suspended_processes\<close>; a block is free when it is in none of them.
  A process that is being suspended is entered in that list when all its segments are written,
  and the tables of a process that is being resumed are filled when all its segments are back.
\<close>

definition used_blocks :: "km_state \<Rightarrow> u32 set" where
  "used_blocks s = (\<Union>sp \<in> set (list_suspended_processes s).
     \<Union>ss \<in> set (suspended_segments sp). set (swap_blocks ss))"

text \<open>The blocks of the file that are free, in the order the loop finds them.\<close>

definition free_blocks :: "km_state \<Rightarrow> u32 list" where
  "free_blocks s =
     (let total_blocks = swap_total_size s div swap_block_size s
      in filter (\<lambda>i. i \<notin> used_blocks s) (map of_nat [0..<unat total_blocks]))"

definition get_free_swap_blocks :: "u32 \<Rightarrow> km_state \<Rightarrow> u32 list option run" where
  "get_free_swap_blocks blocks_needed s =
     (if swap_block_size s = 0 then Undef
      else let free = take (nat (sint blocks_needed)) (free_blocks s)
           in Ret (if int (length free) < sint blocks_needed then None else Some free))"

definition write_segment_to_swap ::
  "t_suspended_segment \<Rightarrow> byte list \<Rightarrow> km_state \<Rightarrow> km_state run" where
  "write_segment_to_swap ss data s =
     and_then (write_blocks swap_out_block (swap_block_size s) (ss_size ss) data (swap_blocks ss) 0
         (swap_dev s)) (\<lambda>dev. Ret (s\<lparr>swap_dev := dev\<rparr>))"

definition read_segment_from_swap :: "t_suspended_segment \<Rightarrow> km_state \<Rightarrow> byte list option run" where
  "read_segment_from_swap ss s =
     read_blocks swap_in_block (swap_block_size s) (ss_size ss) (swap_blocks ss) 0 [] (swap_dev s)"

definition blocks_for :: "u32 \<Rightarrow> u32 \<Rightarrow> u32" where
  "blocks_for bs sz = (sz + bs - 1) div bs"

fun suspend_segments ::
  "t_segment list \<Rightarrow> t_suspended_segment list \<Rightarrow> km_state \<Rightarrow>
   (t_suspended_segment list option \<times> km_state) run" where
  "suspend_segments [] suspended s = Ret (Some suspended, s)"
| "suspend_segments (seg # segs) suspended s =
     (if swap_block_size s = 0 then Undef
      else and_then (get_free_swap_blocks (blocks_for (swap_block_size s) (seg_size seg)) s) (\<lambda>found.
        case found of
          None \<Rightarrow> Ret (None, s)
        | Some blocks \<Rightarrow>
            and_then (memory_read (km_memory s) (seg_base seg) (seg_size seg)) (\<lambda>(read, m).
              case read of
                None \<Rightarrow> Ret (None, s\<lparr>km_memory := m\<rparr>)
              | Some data \<Rightarrow>
                  let ss = \<lparr>ss_segment_id = segment_id seg, ss_size = seg_size seg, swap_blocks = blocks\<rparr>
                  in and_then (write_segment_to_swap ss data (s\<lparr>km_memory := m\<rparr>))
                       (suspend_segments segs (suspended @ [ss])))))"

definition process_suspend :: "u32 \<Rightarrow> km_state \<Rightarrow> (bool \<times> km_state) run" where
  "process_suspend pid s =
     (case List.find (find_by_pid pid) (list_processes s) of
        None \<Rightarrow> Ret (False, s)
      | Some pcb \<Rightarrow>
          and_then (suspend_segments (segment_table pcb) [] s) (\<lambda>(r, s').
            case r of
              None \<Rightarrow> Ret (False, s')
            | Some suspended \<Rightarrow>
                Ret (True, s'\<lparr>
                  list_processes := update_first (find_by_pid pid)
                    (\<lambda>pcb. pcb\<lparr>segment_table := []\<rparr>) (list_processes s'),
                  list_suspended_processes := list_suspended_processes s' @
                    [\<lparr>sp_pid = pid, suspended_segments = suspended\<rparr>]\<rparr>)))"

text \<open>\<open>process_desuspend\<close>: its first phase, the loop over the suspended segments, then the
  update of the tables.\<close>

fun restore_segments ::
  "t_hole list_sort \<Rightarrow> t_suspended_segment list \<Rightarrow> t_segment list \<Rightarrow> km_state \<Rightarrow>
   (t_segment list option \<times> km_state) run" where
  "restore_segments list_sort [] segments_ready s = Ret (Some segments_ready, s)"
| "restore_segments list_sort (ss # rest) segments_ready s =
     (case select_hole (allocation_strategy s) (get_free_holes list_sort s) (ss_size ss) of
        None \<Rightarrow> Ret (None, s)
      | Some chosen \<Rightarrow>
          and_then (read_segment_from_swap ss s) (\<lambda>read.
            case read of
              None \<Rightarrow> Ret (None, s)
            | Some data \<Rightarrow>
                and_then (memory_write (km_memory s) (hole_base chosen) data (ss_size ss)) (\<lambda>(could_write, m).
                  if could_write
                  then restore_segments list_sort rest
                         (segments_ready @ [\<lparr>segment_id = ss_segment_id ss, seg_base = hole_base chosen,
                            seg_size = ss_size ss\<rparr>])
                         (s\<lparr>km_memory := m\<rparr>)
                  else Ret (None, s\<lparr>km_memory := m\<rparr>))))"

definition process_desuspend :: "t_hole list_sort \<Rightarrow> u32 \<Rightarrow> km_state \<Rightarrow> (bool \<times> km_state) run" where
  "process_desuspend list_sort pid s =
     (case List.find (find_suspended_by_pid pid) (list_suspended_processes s) of
        None \<Rightarrow> Ret (False, s)
      | Some sp \<Rightarrow>
          and_then (restore_segments list_sort (suspended_segments sp) [] s) (\<lambda>(r, s').
            case r of
              None \<Rightarrow> Ret (False, s')
            | Some segments_ready \<Rightarrow>
                (case List.find (find_by_pid pid) (list_processes s') of
                   None \<Rightarrow> Ret (False, s')
                 | Some _ \<Rightarrow>
                     Ret (True, s'\<lparr>
                       list_processes := update_first (find_by_pid pid)
                         (\<lambda>pcb. pcb\<lparr>segment_table := segment_table pcb @ segments_ready\<rparr>)
                         (list_processes s'),
                       list_suspended_processes :=
                         remove_first (find_suspended_by_pid pid) (list_suspended_processes s')\<rparr>))))"

section \<open>Block arithmetic\<close>

lemma blocks_for_unat:
  assumes "0 < unat bs" and "unat sz < 2 ^ 30" and "unat bs < 2 ^ 30"
  shows "unat (blocks_for bs sz) = (unat sz + unat bs - 1) div unat bs"
proof -
  have "unat (sz + bs) = unat sz + unat bs"
    using assms by (intro u32_add_unat) simp
  moreover from this have "unat (sz + bs - 1) = unat sz + unat bs - 1"
    using assms by (subst u32_sub_unat) (simp_all add: u32_le_iff)
  ultimately show ?thesis by (simp add: blocks_for_def unat_div)
qed

lemma blocks_for_bounds:
  assumes "0 < unat bs" and "unat sz < 2 ^ 30" and "unat bs < 2 ^ 30"
  defines "k \<equiv> unat (blocks_for bs sz)"
  shows "unat sz \<le> k * unat bs" and "0 < k \<Longrightarrow> (k - 1) * unat bs < unat sz" and "k < 2 ^ 31"
    and "sint (blocks_for bs sz) = int k"
proof -
  have k: "k = (unat sz + unat bs - 1) div unat bs"
    using blocks_for_unat [OF assms(1-3)] by (simp add: k_def)
  let ?x = "unat sz + unat bs - 1"
  have d: "k * unat bs \<le> ?x" "?x < k * unat bs + unat bs"
    using k div_times_less_eq_dividend [of ?x "unat bs"] dividend_less_div_times [OF assms(1), of ?x]
    by (simp_all add: add.commute)
  show "unat sz \<le> k * unat bs" using d(2) assms(1) by linarith
  show "(k - 1) * unat bs < unat sz" if "0 < k"
    using d(1) assms(1) that by (cases k) auto
  have "k \<le> ?x" using k by simp
  also have "?x < 2 ^ 31" using assms(2,3) by simp
  finally show lt: "k < 2 ^ 31" .
  have "int k = uint (blocks_for bs sz)" by (simp add: k_def)
  moreover have "int k < 2147483648" using lt by simp
  ultimately show "sint (blocks_for bs sz) = int k"
    by (simp add: sint_uint signed_take_bit_int_eq_self)
qed

lemma covers_blocks:
  assumes "0 < unat bs" and "unat sz < 2 ^ 30" and "unat bs < 2 ^ 30"
    and "unat written \<le> unat sz" and "unat sz - unat written \<le> length blocks * unat bs"
    and "blocks \<noteq> [] \<Longrightarrow> (length blocks - 1) * unat bs < unat sz - unat written"
  shows "swap.covers bs sz blocks written"
  using assms(4-6)
proof (induction blocks arbitrary: written)
  case Nil
  then show ?case by (simp add: word_unat_eq_iff)
next
  case (Cons n blocks)
  have nw: "unat (written + bs) = unat written + unat bs"
    using Cons.prems(1) assms(2,3) by (intro u32_add_unat) simp
  define c where "c = chunk_size bs sz written"
  have c: "unat c = min (unat bs) (unat sz - unat written)"
    using nw Cons.prems(1) by (auto simp: c_def chunk_size_def u32_less_iff u32_le_iff u32_sub_unat)
  then have d: "unat (written + c) = unat written + unat c"
    using Cons.prems(1) assms(2) by (intro u32_add_unat) simp
  have "swap.covers bs sz blocks (written + c)"
  proof (rule Cons.IH)
    show "unat (written + c) \<le> unat sz" using c d Cons.prems(1) by simp
    show "unat sz - unat (written + c) \<le> length blocks * unat bs"
      using c d Cons.prems(2) by (auto simp: min_def)
    assume "blocks \<noteq> []"
    then obtain l where l: "length blocks = Suc l" by (cases blocks) auto
    then show "(length blocks - 1) * unat bs < unat sz - unat (written + c)"
      using c d Cons.prems(3) by (auto simp: min_def)
  qed
  then show ?case
    using Cons.prems(1) c by (simp add: c_def [symmetric] u32_le_iff)
qed

section \<open>The exact effect of a suspension\<close>

text \<open>The swap is as configured: the blocks Kernel Memory counts exist in the file.\<close>

definition swap_ok :: "km_state \<Rightarrow> bool" where
  "swap_ok s \<longleftrightarrow>
     swap_valid (swap_block_size s) (swap_dev s) \<and> 0 < unat (swap_block_size s) \<and>
     (\<forall>i < unat (swap_total_size s div swap_block_size s). swap_in_range (swap_dev s) (of_nat i))"

lemma free_blocks:
  assumes "swap_ok s"
  shows "distinct (free_blocks s)" and "set (free_blocks s) \<inter> used_blocks s = {}"
    and "\<forall>n \<in> set (free_blocks s). swap_in_range (swap_dev s) n"
proof -
  have "inj_on (of_nat :: nat \<Rightarrow> u32) {0..<unat (swap_total_size s div swap_block_size s)}"
  proof (rule inj_onI)
    fix i j assume a: "i \<in> {0..<unat (swap_total_size s div swap_block_size s)}"
      "j \<in> {0..<unat (swap_total_size s div swap_block_size s)}" and e: "(of_nat i :: u32) = of_nat j"
    have "i < 4294967296" "j < 4294967296"
      using a u32_bound [of "swap_total_size s div swap_block_size s"] unfolding atLeastLessThan_iff
      by linarith+
    then show "i = j" using arg_cong [OF e, of unat] by simp
  qed
  then show "distinct (free_blocks s)"
    by (auto simp: free_blocks_def Let_def distinct_map intro!: distinct_filter)
  show "set (free_blocks s) \<inter> used_blocks s = {}" by (auto simp: free_blocks_def Let_def)
  show "\<forall>n \<in> set (free_blocks s). swap_in_range (swap_dev s) n"
    using assms by (auto simp: free_blocks_def Let_def swap_ok_def)
qed

definition needed :: "km_state \<Rightarrow> t_segment \<Rightarrow> nat" where
  "needed s seg = unat (blocks_for (swap_block_size s) (seg_size seg))"

definition suspended_of :: "km_state \<Rightarrow> t_segment \<Rightarrow> t_suspended_segment" where
  "suspended_of s seg = \<lparr>ss_segment_id = segment_id seg, ss_size = seg_size seg,
     swap_blocks = take (needed s seg) (free_blocks s)\<rparr>"

definition seg_ok :: "km_state \<Rightarrow> t_segment \<Rightarrow> bool" where
  "seg_ok s seg \<longleftrightarrow> unat (seg_base seg) + unat (seg_size seg) \<le> length (memory_content (km_memory s))"

lemma get_free_swap_blocks:
  assumes "swap_ok s" and "unat (seg_size seg) < 2 ^ 30"
  shows "get_free_swap_blocks (blocks_for (swap_block_size s) (seg_size seg)) s =
    Ret (if length (free_blocks s) < needed s seg then None
         else Some (take (needed s seg) (free_blocks s)))"
proof -
  have "swap_block_size s \<noteq> 0" using assms(1) by (auto simp: swap_ok_def)
  moreover have "sint (blocks_for (swap_block_size s) (seg_size seg)) = int (needed s seg)"
    using blocks_for_bounds(4) [of "swap_block_size s" "seg_size seg"] assms
    by (simp add: needed_def swap_ok_def swap_valid_def)
  ultimately show ?thesis by (auto simp: get_free_swap_blocks_def Let_def)
qed

lemma write_one_segment:
  assumes ok: "swap_ok s" and sz: "unat (seg_size seg) < 2 ^ 30" and d: "length data = unat (seg_size seg)"
    and fits: "needed s seg \<le> length (free_blocks s)"
  shows "\<exists>dev. write_segment_to_swap (suspended_of s seg) data s = Ret (s\<lparr>swap_dev := dev\<rparr>) \<and>
    swap_ok (s\<lparr>swap_dev := dev\<rparr>) \<and>
    read_segment_from_swap (suspended_of s seg) (s\<lparr>swap_dev := dev\<rparr>) = Ret (Some data) \<and>
    (\<forall>m. swap_in_range (swap_dev s) m \<and> m \<notin> set (free_blocks s) \<longrightarrow>
       swap_blk dev m = swap_blk (swap_dev s) m) \<and>
    swap_in_range dev = swap_in_range (swap_dev s)"
proof -
  let ?bs = "swap_block_size s" and ?k = "needed s seg"
  let ?blocks = "take ?k (free_blocks s)"
  have bs: "0 < unat ?bs" "unat ?bs < 2 ^ 30" "swap_valid ?bs (swap_dev s)"
    using ok by (simp_all add: swap_ok_def swap_valid_def)
  note k = blocks_for_bounds [OF bs(1) sz bs(2), folded needed_def]
  have l: "length ?blocks = ?k" using fits by simp
  have "swap.covers ?bs (seg_size seg) ?blocks 0"
  proof (rule covers_blocks [OF bs(1) sz bs(2)])
    show "?blocks \<noteq> [] \<Longrightarrow> (length ?blocks - 1) * unat ?bs < unat (seg_size seg) - unat (0 :: u32)"
      using k(2) l by (cases ?k) auto
  qed (use k(1) l in auto)
  moreover have "\<forall>n \<in> set ?blocks. swap_in_range (swap_dev s) n" "distinct ?blocks"
    using free_blocks [OF ok] by (auto dest: in_set_takeD)
  ultimately obtain dev where "write_blocks swap_out_block ?bs (seg_size seg) data ?blocks 0 (swap_dev s) = Ret dev"
    "swap_valid ?bs dev" "swap_in_range dev = swap_in_range (swap_dev s)"
    "read_blocks swap_in_block ?bs (seg_size seg) ?blocks 0 [] dev = Ret (Some data)"
    "\<forall>m. swap_in_range (swap_dev s) m \<and> m \<notin> set ?blocks \<longrightarrow> swap_blk dev m = swap_blk (swap_dev s) m"
    using swap.segment_roundtrip [OF bs(3) _ _ _ d] by blast
  with ok show ?thesis
    by (intro exI [of _ dev])
      (auto simp: write_segment_to_swap_def read_segment_from_swap_def suspended_of_def swap_ok_def
        dest: in_set_takeD)
qed

lemma swap_dev_irrelevant [simp]:
  "used_blocks (s\<lparr>swap_dev := dev\<rparr>) = used_blocks s"
  "free_blocks (s\<lparr>swap_dev := dev\<rparr>) = free_blocks s"
  "needed (s\<lparr>swap_dev := dev\<rparr>) seg = needed s seg"
  "suspended_of (s\<lparr>swap_dev := dev\<rparr>) = suspended_of s"
  "seg_ok (s\<lparr>swap_dev := dev\<rparr>) = seg_ok s"
  by (simp_all add: fun_eq_iff used_blocks_def free_blocks_def needed_def suspended_of_def seg_ok_def)

lemma read_ok_segment:
  assumes "memory_valid (km_memory s)" and "seg_ok s seg"
  shows "memory_read (km_memory s) (seg_base seg) (seg_size seg) =
      Ret (Some (seg_bytes (km_memory s) seg), km_memory s)"
    and "length (seg_bytes (km_memory s) seg) = unat (seg_size seg)"
    and "unat (seg_size seg) < 2 ^ 30"
proof -
  have "length (memory_content (km_memory s)) < 2 ^ 30"
    using assms(1) by (simp add: memory_valid_def memory_content_def sticks_ok_def)
  then show "unat (seg_size seg) < 2 ^ 30" using assms(2) by (simp add: seg_ok_def)
qed (use assms in \<open>simp_all add: km_read seg_bytes_def seg_ok_def\<close>)

text \<open>
  What \<open>process_suspend\<close> does, whatever the number of segments: every segment gets its blocks
  from the same list of free ones, and only the last one written is sure to be there afterwards.
\<close>

lemma suspend_segments:
  assumes "swap_ok s" and "memory_valid (km_memory s)" and "\<forall>seg \<in> set segs. seg_ok s seg"
  shows "\<exists>dev. suspend_segments segs acc s =
      Ret (if \<forall>seg \<in> set segs. needed s seg \<le> length (free_blocks s)
           then Some (acc @ map (suspended_of s) segs) else None, s\<lparr>swap_dev := dev\<rparr>) \<and>
    swap_ok (s\<lparr>swap_dev := dev\<rparr>) \<and> swap_in_range dev = swap_in_range (swap_dev s) \<and>
    (\<forall>m. swap_in_range (swap_dev s) m \<and> m \<notin> set (free_blocks s) \<longrightarrow>
       swap_blk dev m = swap_blk (swap_dev s) m) \<and>
    (segs \<noteq> [] \<longrightarrow> (\<forall>seg \<in> set segs. needed s seg \<le> length (free_blocks s)) \<longrightarrow>
       read_segment_from_swap (suspended_of s (last segs)) (s\<lparr>swap_dev := dev\<rparr>) =
         Ret (Some (seg_bytes (km_memory s) (last segs))))"
  using assms
proof (induction segs arbitrary: acc s)
  case Nil
  then show ?case by (intro exI [of _ "swap_dev s"]) simp
next
  case (Cons seg segs)
  have ok: "seg_ok s seg" using Cons.prems(3) by simp
  note rd = read_ok_segment [OF Cons.prems(2) ok]
  have nz: "swap_block_size s \<noteq> 0" using Cons.prems(1) by (auto simp: swap_ok_def)
  show ?case
  proof (cases "needed s seg \<le> length (free_blocks s)")
    case False
    then show ?thesis
      using nz get_free_swap_blocks [OF Cons.prems(1) rd(3)] Cons.prems(1)
      by (intro exI [of _ "swap_dev s"]) simp
  next
    case True
    from write_one_segment [OF Cons.prems(1) rd(3,2) True]
    obtain dev1 where d1: "write_segment_to_swap (suspended_of s seg) (seg_bytes (km_memory s) seg) s =
        Ret (s\<lparr>swap_dev := dev1\<rparr>)" "swap_ok (s\<lparr>swap_dev := dev1\<rparr>)"
      "read_segment_from_swap (suspended_of s seg) (s\<lparr>swap_dev := dev1\<rparr>) =
        Ret (Some (seg_bytes (km_memory s) seg))"
      "\<forall>m. swap_in_range (swap_dev s) m \<and> m \<notin> set (free_blocks s) \<longrightarrow>
         swap_blk dev1 m = swap_blk (swap_dev s) m"
      "swap_in_range dev1 = swap_in_range (swap_dev s)" by blast
    have step: "suspend_segments (seg # segs) acc s =
        suspend_segments segs (acc @ [suspended_of s seg]) (s\<lparr>swap_dev := dev1\<rparr>)"
      using nz True get_free_swap_blocks [OF Cons.prems(1) rd(3)] rd(1) d1(1)
      by (simp add: suspended_of_def)
    show ?thesis
    proof (cases "segs = []")
      case True
      with step d1 \<open>needed s seg \<le> length (free_blocks s)\<close> show ?thesis
        by (intro exI [of _ dev1]) (simp del: suspend_segments.simps(2))
    next
      case False
      have "\<exists>dev. suspend_segments segs (acc @ [suspended_of s seg]) (s\<lparr>swap_dev := dev1\<rparr>) =
          Ret (if \<forall>seg \<in> set segs. needed s seg \<le> length (free_blocks s)
            then Some (acc @ [suspended_of s seg] @ map (suspended_of s) segs) else None,
            s\<lparr>swap_dev := dev\<rparr>) \<and>
        swap_ok (s\<lparr>swap_dev := dev\<rparr>) \<and> swap_in_range dev = swap_in_range dev1 \<and>
        (\<forall>m. swap_in_range dev1 m \<and> m \<notin> set (free_blocks s) \<longrightarrow> swap_blk dev m = swap_blk dev1 m) \<and>
        ((\<forall>seg \<in> set segs. needed s seg \<le> length (free_blocks s)) \<longrightarrow>
          read_segment_from_swap (suspended_of s (last segs)) (s\<lparr>swap_dev := dev\<rparr>) =
            Ret (Some (seg_bytes (km_memory s) (last segs))))"
        using Cons.IH [OF d1(2), of "acc @ [suspended_of s seg]"] Cons.prems(2,3) False
        by (simp del: suspend_segments.simps split del: if_split cong: if_cong)
      then obtain dev where "suspend_segments segs (acc @ [suspended_of s seg]) (s\<lparr>swap_dev := dev1\<rparr>) =
          Ret (if \<forall>seg \<in> set segs. needed s seg \<le> length (free_blocks s)
            then Some (acc @ [suspended_of s seg] @ map (suspended_of s) segs) else None,
            s\<lparr>swap_dev := dev\<rparr>)"
        "swap_ok (s\<lparr>swap_dev := dev\<rparr>)" "swap_in_range dev = swap_in_range dev1"
        "\<forall>m. swap_in_range dev1 m \<and> m \<notin> set (free_blocks s) \<longrightarrow> swap_blk dev m = swap_blk dev1 m"
        "(\<forall>seg \<in> set segs. needed s seg \<le> length (free_blocks s)) \<longrightarrow>
          read_segment_from_swap (suspended_of s (last segs)) (s\<lparr>swap_dev := dev\<rparr>) =
            Ret (Some (seg_bytes (km_memory s) (last segs)))" by blast
      with step d1(4,5) \<open>needed s seg \<le> length (free_blocks s)\<close> False show ?thesis
        by (intro exI [of _ dev]) (simp del: suspend_segments.simps)
    qed
  qed
qed

lemma km_inv_seg_ok:
  assumes "km_inv s" and "pcb \<in> set (list_processes s)" and "seg \<in> set (segment_table pcb)"
  shows "seg_ok s seg" and "0 < unat (seg_size seg)"
proof -
  have "seg_hole seg \<in> set (occupied s)"
    using assms(2,3) by (auto simp: occupied_def all_segments_def)
  then show "seg_ok s seg" and "0 < unat (seg_size seg)"
    using assms(1) by (auto simp: km_inv_def placed_def seg_ok_def seg_hole_def hole_end_def)
qed

lemma process_suspend:
  assumes inv: "km_inv s" and ok: "swap_ok s"
    and pcb: "List.find (find_by_pid pid) (list_processes s) = Some pcb"
  defines "fits \<equiv> \<forall>seg \<in> set (segment_table pcb). needed s seg \<le> length (free_blocks s)"
  shows "\<exists>dev. process_suspend pid s = Ret (fits, if fits then s\<lparr>swap_dev := dev,
        list_processes := update_first (find_by_pid pid) (\<lambda>pcb. pcb\<lparr>segment_table := []\<rparr>) (list_processes s),
        list_suspended_processes := list_suspended_processes s @
          [\<lparr>sp_pid = pid, suspended_segments = map (suspended_of s) (segment_table pcb)\<rparr>]\<rparr>
      else s\<lparr>swap_dev := dev\<rparr>) \<and>
    swap_ok (s\<lparr>swap_dev := dev\<rparr>) \<and>
    (\<forall>m. swap_in_range (swap_dev s) m \<and> m \<notin> set (free_blocks s) \<longrightarrow>
       swap_blk dev m = swap_blk (swap_dev s) m) \<and>
    (segment_table pcb \<noteq> [] \<longrightarrow> fits \<longrightarrow>
       read_segment_from_swap (suspended_of s (last (segment_table pcb))) (s\<lparr>swap_dev := dev\<rparr>) =
         Ret (Some (seg_bytes (km_memory s) (last (segment_table pcb)))))"
proof -
  have "pcb \<in> set (list_processes s)" using find_Some_iff_set [OF pcb] by simp
  then have "\<forall>seg \<in> set (segment_table pcb). seg_ok s seg" using km_inv_seg_ok [OF inv] by blast
  from suspend_segments [OF ok _ this, of "[]"] inv obtain dev where
    d: "suspend_segments (segment_table pcb) [] s =
      Ret (if fits then Some ([] @ map (suspended_of s) (segment_table pcb)) else None, s\<lparr>swap_dev := dev\<rparr>)"
    "swap_ok (s\<lparr>swap_dev := dev\<rparr>)"
    "\<forall>m. swap_in_range (swap_dev s) m \<and> m \<notin> set (free_blocks s) \<longrightarrow> swap_blk dev m = swap_blk (swap_dev s) m"
    "segment_table pcb \<noteq> [] \<longrightarrow> fits \<longrightarrow>
       read_segment_from_swap (suspended_of s (last (segment_table pcb))) (s\<lparr>swap_dev := dev\<rparr>) =
         Ret (Some (seg_bytes (km_memory s) (last (segment_table pcb))))"
    unfolding fits_def km_inv_def by blast
  then show ?thesis
    by (intro exI [of _ dev]) (simp add: process_suspend_def pcb)
qed

end
