(* ===== verification/KM_Resume.thy ===== *)
theory KM_Resume
  imports KM_Swap
begin

text \<open>
  What \<open>process_suspend\<close> and \<open>process_desuspend\<close> guarantee together: a process with one
  segment comes back with the same memory, wherever the segment is put. With two segments it does
  not: both are written to the same blocks, and both are put into the same hole.
\<close>

section \<open>Writing into a hole\<close>

lemma interval_in_one_hole:
  assumes "exact_holes 0 n occ holes" and "{b ..< b + k} \<subseteq> area holes" and "0 < k"
  shows "\<exists>h \<in> set holes. unat (hole_base h) \<le> b \<and> b + k \<le> hole_end h"
proof -
  have "b \<in> area holes" using assms(2,3) by auto
  then obtain h where h: "h \<in> set holes" "unat (hole_base h) \<le> b" "b < hole_end h"
    by (auto simp: area_def)
  have "b + k \<le> hole_end h"
  proof (rule ccontr)
    assume "\<not> b + k \<le> hole_end h"
    with h have "hole_end h \<in> {b ..< b + k}" by simp
    with assms(2) have "hole_end h \<in> area holes" by (rule subsetD)
    then obtain g where g: "g \<in> set holes" "unat (hole_base g) \<le> hole_end h" "hole_end h < hole_end g"
      by (auto simp: area_def)
    have srt: "sorted_wrt (\<lambda>a b. hole_end a < unat (hole_base b)) holes"
      and pos: "0 < unat (hole_size h)" using assms(1) h(1) by (simp_all add: exact_holes_def)
    from h(1) obtain i where i: "i < length holes" "holes ! i = h" by (auto simp: in_set_conv_nth)
    from g(1) obtain j where j: "j < length holes" "holes ! j = g" by (auto simp: in_set_conv_nth)
    consider "i < j" | "i = j" | "j < i" by linarith
    then show False
    proof cases
      case 1
      then have "hole_end h < unat (hole_base g)" using sorted_wrt_nth_less [OF srt] i j by blast
      with g show False by simp
    next
      case 2
      with i j g show False by simp
    next
      case 3
      then have "hole_end g < unat (hole_base h)" using sorted_wrt_nth_less [OF srt] i j by blast
      with g pos show False by (simp add: hole_end_def)
    qed
  qed
  with h show ?thesis by blast
qed

text \<open>What was occupied and is free again fits into one of the holes.\<close>

lemma freed_room:
  assumes "exact_holes 0 n occ holes" and "\<forall>h \<in> set occ. apart g h" and "hole_end g \<le> n"
    and "0 < unat (hole_size g)"
  shows "\<exists>h \<in> set holes. hole_size g \<le> hole_size h"
proof -
  have "{unat (hole_base g) ..< unat (hole_base g) + unat (hole_size g)} \<inter> area occ = {}"
    using assms(2) by (fastforce simp: area_def apart_def hole_end_def)
  then have "{unat (hole_base g) ..< unat (hole_base g) + unat (hole_size g)} \<subseteq> area holes"
    using assms(1,3) by (auto simp: exact_holes_def hole_end_def)
  from interval_in_one_hole [OF assms(1) this assms(4)] obtain h where "h \<in> set holes"
    "unat (hole_base h) \<le> unat (hole_base g)"
    "unat (hole_base g) + unat (hole_size g) \<le> hole_end h" by blast
  then show ?thesis by (intro bexI [of _ h]) (simp_all add: hole_end_def u32_le_iff)
qed

lemma write_hole:
  assumes inv: "km_inv s" and srt: "sorts_by list_sort compare_by_base"
    and h: "h \<in> set (get_free_holes list_sort s)" and sz: "sz \<le> hole_size h"
    and d: "length d = unat sz"
  shows "\<exists>m. memory_write (km_memory s) (hole_base h) d sz = Ret (True, m) \<and>
    km_inv (s\<lparr>km_memory := m\<rparr>) \<and> user_view (s\<lparr>km_memory := m\<rparr>) = user_view s \<and>
    slice (unat (hole_base h)) (unat sz) (memory_content m) = d"
proof -
  note ex = get_free_holes_exact [OF srt, of s]
  have e: "exact_holes 0 (unat (total_memory_size s)) (occupied s) (get_free_holes list_sort s)"
    using ex inv by (simp add: km_inv_def)
  have v: "memory_valid (km_memory s)" and len: "length (memory_content (km_memory s)) = unat (total_memory_size s)"
    using inv by (simp_all add: km_inv_def)
  have szu: "unat sz \<le> unat (hole_size h)" using sz by (simp add: u32_le_iff)
  then have fit: "unat (hole_base h) + unat sz \<le> length (memory_content (km_memory s))"
    using e h len by (auto simp: exact_holes_def hole_end_def)
  from km_write [OF v fit d] obtain m where m: "memory_write (km_memory s) (hole_base h) d sz = Ret (True, m)"
    "memory_valid m" "memory_content m = overwrite (unat (hole_base h)) d (memory_content (km_memory s))"
    by blast
  have free: "{unat (hole_base h) ..< unat (hole_base h) + unat sz} \<inter> area (occupied s) = {}"
    using e h szu by (fastforce simp: exact_holes_def area_def hole_end_def)
  have "seg_bytes m seg = seg_bytes (km_memory s) seg"
    if "pcb \<in> set (list_processes s)" "seg \<in> set (segment_table pcb)" for pcb seg
  proof (cases "sz = 0")
    case True
    with d m(3) show ?thesis by (simp add: seg_bytes_def)
  next
    case False
    then have pos: "0 < unat sz" by (simp add: unat_gt_0)
    have o: "seg_hole seg \<in> set (occupied s)"
      using that by (auto simp: occupied_def all_segments_def)
    have "\<forall>h \<in> set (occupied s). 0 < unat (hole_size h)" using inv by (simp add: km_inv_def placed_def)
    then have "apart \<lparr>hole_base = hole_base h, hole_size = sz\<rparr> (seg_hole seg)"
      using apart_free [OF free pos _ o] by blast
    then show ?thesis
      using km_inv_seg_ok(1) [OF inv that] fit d
      by (auto simp: seg_bytes_def m(3) apart_def hole_end_def seg_hole_def seg_ok_def
          intro!: slice_overwrite_disjoint)
  qed
  then have "user_view (s\<lparr>km_memory := m\<rparr>) = user_view s"
    by (simp add: user_view_def process_view_def)
  moreover have "km_inv (s\<lparr>km_memory := m\<rparr>)"
    using inv m len fit d by (simp add: km_inv_def occupied_def)
  ultimately show ?thesis
    using m fit d by (intro exI [of _ m]) (simp add: slice_overwrite_same)
qed

section \<open>Resuming a process\<close>

lemma process_desuspend:
  assumes inv: "km_inv s" and srt: "sorts_by list_sort compare_by_base"
    and sp: "List.find (find_suspended_by_pid pid) (list_suspended_processes s) = Some sp"
      "suspended_segments sp = [ss]"
    and rd: "read_segment_from_swap ss s = Ret (Some d)" "length d = unat (ss_size ss)"
    and sz: "ss_size ss \<noteq> 0" and room: "h \<in> set (get_free_holes list_sort s)" "ss_size ss \<le> hole_size h"
    and pid: "pid \<in> pcb_pid ` set (list_processes s)"
  shows "\<exists>s'. process_desuspend list_sort pid s = Ret (True, s') \<and> km_inv s' \<and>
    user_view s' = add_to_view pid (ss_segment_id ss, ss_size ss, d) (user_view s) \<and>
    list_suspended_processes s' = remove_first (find_suspended_by_pid pid) (list_suspended_processes s)"
proof -
  obtain c where c: "select_hole (allocation_strategy s) (get_free_holes list_sort s) (ss_size ss) = Some c"
    using select_hole_None [of "allocation_strategy s" "get_free_holes list_sort s" "ss_size ss"] room
    by (cases "select_hole (allocation_strategy s) (get_free_holes list_sort s) (ss_size ss)") auto
  then have c': "c \<in> set (get_free_holes list_sort s)" "ss_size ss \<le> hole_size c"
    using select_hole_Some by blast+
  from write_hole [OF inv srt c' rd(2)] obtain m where
    m: "memory_write (km_memory s) (hole_base c) d (ss_size ss) = Ret (True, m)"
      "km_inv (s\<lparr>km_memory := m\<rparr>)" "user_view (s\<lparr>km_memory := m\<rparr>) = user_view s"
      "slice (unat (hole_base c)) (unat (ss_size ss)) (memory_content m) = d" by blast
  let ?s = "s\<lparr>km_memory := m\<rparr>"
  have "get_free_holes list_sort ?s = get_free_holes list_sort s" by (simp add: get_free_holes_def)
  then obtain s' where s': "place_segment pid (ss_segment_id ss) (ss_size ss) c ?s = (SEGMENT_OK, s')"
    "km_inv s'" "user_view s' = add_to_view pid (ss_segment_id ss, ss_size ss, d) (user_view s)"
    using place_segment [OF m(2) srt sz, of c pid "ss_segment_id ss"] c' pid m(3,4) by auto
  obtain pcb where pcb: "List.find (find_by_pid pid) (list_processes s) = Some pcb"
    using pid by (cases "List.find (find_by_pid pid) (list_processes s)")
      (auto simp: find_None_iff find_by_pid_def)
  have "process_desuspend list_sort pid s = Ret (True, s'\<lparr>list_suspended_processes :=
      remove_first (find_suspended_by_pid pid) (list_suspended_processes s)\<rparr>)"
    using s'(1) by (auto simp: process_desuspend_def sp rd c m(1) pcb place_segment_def Let_def)
  with s'(2,3) show ?thesis by (auto simp: km_inv_def occupied_def user_view_def)
qed

section \<open>Properties\<close>

lemma suspend_resume:
  assumes inv: "km_inv s" and ok: "swap_ok s" and srt: "sorts_by list_sort compare_by_base"
    and pcb: "List.find (find_by_pid pid) (list_processes s) = Some pcb" "segment_table pcb = [seg]"
    and new: "pid \<notin> sp_pid ` set (list_suspended_processes s)"
    and fits: "needed s seg \<le> length (free_blocks s)"
  shows "\<exists>s1 s2. process_suspend pid s = Ret (True, s1) \<and> km_inv s1 \<and>
    add_mset (seg_hole seg) (mset (occupied s1)) = mset (occupied s) \<and>
    process_desuspend list_sort pid s1 = Ret (True, s2) \<and> km_inv s2 \<and>
    user_view s2 = user_view s \<and> list_suspended_processes s2 = list_suspended_processes s"
proof -
  from process_suspend [OF inv ok pcb(1)] pcb(2) fits obtain dev where
    su: "process_suspend pid s = Ret (True, s\<lparr>swap_dev := dev,
        list_processes := update_first (find_by_pid pid) (\<lambda>pcb. pcb\<lparr>segment_table := []\<rparr>) (list_processes s),
        list_suspended_processes := list_suspended_processes s @
          [\<lparr>sp_pid = pid, suspended_segments = [suspended_of s seg]\<rparr>]\<rparr>)"
    and rd: "read_segment_from_swap (suspended_of s seg) (s\<lparr>swap_dev := dev\<rparr>) =
         Ret (Some (seg_bytes (km_memory s) seg))" by auto
  define s1 where "s1 = s\<lparr>swap_dev := dev,
        list_processes := update_first (find_by_pid pid) (\<lambda>pcb. pcb\<lparr>segment_table := []\<rparr>) (list_processes s),
        list_suspended_processes := list_suspended_processes s @
          [\<lparr>sp_pid = pid, suspended_segments = [suspended_of s seg]\<rparr>]\<rparr>"
  from find_split [OF pcb(1)] obtain ps1 ps2 where ps: "list_processes s = ps1 @ pcb # ps2"
    "find_by_pid pid pcb" "\<forall>p \<in> set ps1. \<not> find_by_pid pid p" by blast
  have ps': "list_processes s1 = ps1 @ pcb\<lparr>segment_table := []\<rparr> # ps2"
    using ps(2,3) by (simp add: s1_def ps(1))
  have oc: "add_mset (seg_hole seg) (mset (occupied s1)) = mset (occupied s)"
    by (simp add: occupied_def ps' ps(1) all_segments_def pcb(2))
  then have "mset (seg_hole seg # occupied s1) = mset (occupied s)" by simp
  then have pl: "placed (unat (total_memory_size s)) (seg_hole seg # occupied s1)"
    using inv placed_perm [of "occupied s" "seg_hole seg # occupied s1"] by (simp add: km_inv_def)
  then have inv1: "km_inv s1" using inv by (simp add: km_inv_def placed_def s1_def)
  have mem: "pcb \<in> set (list_processes s)" by (simp add: ps(1))
  have so: "seg_ok s seg" "0 < unat (seg_size seg)" using km_inv_seg_ok [OF inv mem, of seg] pcb(2) by simp_all
  have e: "exact_holes 0 (unat (total_memory_size s)) (occupied s1) (get_free_holes list_sort s1)"
    using get_free_holes_exact [OF srt, of s1] inv1 by (simp add: km_inv_def s1_def)
  from freed_room [OF e, of "seg_hole seg"] pl so(2) obtain h where h: "h \<in> set (get_free_holes list_sort s1)"
    and room: "seg_size seg \<le> hole_size h" by (auto simp: placed_def seg_hole_def)
  let ?sp = "\<lparr>sp_pid = pid, suspended_segments = [suspended_of s seg]\<rparr>"
  have nf: "\<forall>sp \<in> set (list_suspended_processes s). \<not> find_suspended_by_pid pid sp"
    "find_suspended_by_pid pid ?sp" using new by (auto simp: find_suspended_by_pid_def)
  have fs: "List.find (find_suspended_by_pid pid) (list_suspended_processes s1) = Some ?sp"
    "remove_first (find_suspended_by_pid pid) (list_suspended_processes s1) = list_suspended_processes s"
    using first_split(3) [OF nf, of "[]"] first_split(2) [OF nf, of "[]"] by (simp_all add: s1_def)
  have rd1: "read_segment_from_swap (suspended_of s seg) s1 = Ret (Some (seg_bytes (km_memory s) seg))"
    using rd by (simp add: read_segment_from_swap_def s1_def)
  have l: "length (seg_bytes (km_memory s) seg) = unat (seg_size seg)"
    using so(1) by (simp add: seg_bytes_def seg_ok_def)
  have "pid \<in> pcb_pid ` set (list_processes s1)" using ps(2) by (auto simp: ps' find_by_pid_def)
  with process_desuspend [OF inv1 srt fs(1) _ rd1 _ _ h] room l so(2) fs(2)
  obtain s2 where s2: "process_desuspend list_sort pid s1 = Ret (True, s2)" "km_inv s2"
    "user_view s2 = add_to_view pid (segment_id seg, seg_size seg, seg_bytes (km_memory s) seg) (user_view s1)"
    "list_suspended_processes s2 = list_suspended_processes s"
    by (auto simp: suspended_of_def unat_gt_0)
  have mem1: "km_memory s1 = km_memory s" by (simp add: s1_def)
  have "user_view s2 = user_view s"
    unfolding s2(3) add_to_view_def user_view_def [of s1] user_view_def [of s] mem1 ps' ps(1)
    using ps(2,3) by (simp add: process_view_def find_by_pid_def pcb(2))
  with s2 su oc inv1 show ?thesis unfolding s1_def [symmetric] by blast
qed

text \<open>Suspending a process with one segment to SWAP frees its memory, and resuming it is the
  inverse: whatever hole the segment is put into and however many blocks it takes, all processes
  have the same segments with the same bytes as before, no two segments overlap, and the blocks are
  free again.\<close>
theorem suspend_resume_roundtrip:
  assumes "km_inv s" and "swap_ok s" and "sorts_by list_sort compare_by_base"
    and "List.find (find_by_pid pid) (list_processes s) = Some pcb" and "segment_table pcb = [seg]"
    and "pid \<notin> sp_pid ` set (list_suspended_processes s)"
    and "needed s seg \<le> length (free_blocks s)"
  shows "\<exists>s1 s2. process_suspend pid s = Ret (True, s1) \<and>
    add_mset (seg_hole seg) (mset (occupied s1)) = mset (occupied s) \<and>
    process_desuspend list_sort pid s1 = Ret (True, s2) \<and> km_inv s2 \<and>
    user_view s2 = user_view s \<and> list_suspended_processes s2 = list_suspended_processes s"
  using suspend_resume [OF assms] by blast

text \<open>The swap of the example: blocks of two bytes.\<close>

lemma swap_ok_example: "swap_ok km_example" "free_blocks km_example = [0, 1, 2, 3]"
proof -
  have e: "swap_total_size km_example div swap_block_size km_example = 4"
    by (simp add: km_example_def)
  have l: "length (swap_file (swap_dev km_example)) = 8" "block_size (swap_dev km_example) = 2"
    by (simp_all add: km_example_def swap_create_def)
  have "swap_in_range (swap_dev km_example) (of_nat i)" if "i < 4" for i
    using that l by (simp add: swap_in_range_def)
  then show "swap_ok km_example"
    unfolding swap_ok_def e using l by (simp add: swap_valid_def km_example_def)
  have "used_blocks km_example = {}" by (simp add: used_blocks_def km_example_def)
  moreover have "[0..<4] = [0, 1, 2, 3]" by (simp add: upt_rec)
  ultimately show "free_blocks km_example = [0, 1, 2, 3]"
    unfolding free_blocks_def Let_def e by simp
qed

theorem suspend_resume_roundtrip_witness:
  "\<exists>s1 s2. process_suspend 2 km_example = Ret (True, s1) \<and>
    add_mset \<lparr>hole_base = 4, hole_size = 2\<rparr> (mset (occupied s1)) = mset (occupied km_example) \<and>
    process_desuspend sort_by 2 s1 = Ret (True, s2) \<and> km_inv s2 \<and>
    user_view s2 = user_view km_example"
proof -
  let ?seg = "\<lparr>segment_id = 0, seg_base = 4, seg_size = 2\<rparr> :: t_segment"
  have "List.find (find_by_pid 2) (list_processes km_example) = Some (example_pcb 2 [?seg])"
    by (simp add: km_example_def find_by_pid_def)
  moreover have "list_suspended_processes km_example = []" "swap_block_size km_example = 2"
    by (simp_all add: km_example_def)
  ultimately show ?thesis
    using suspend_resume_roundtrip [OF km_inv_example swap_ok_example(1) sorts_by_base,
      of 2 "example_pcb 2 [?seg]" ?seg] swap_ok_example(2)
    by (simp add: needed_def blocks_for_def seg_hole_def) blast
qed

section \<open>Two segments\<close>

text \<open>Suspending a process with several segments stores them all from the same block on: the
  list of free blocks is computed anew for each, but the blocks of the segments before it are not
  taken out of it, because the process is entered in \<open>list_suspended_processes\<close> only at the
  end. Only the segment written last is still in SWAP afterwards.\<close>
theorem suspended_segments_share_blocks:
  assumes "km_inv s" and "swap_ok s"
    and "List.find (find_by_pid pid) (list_processes s) = Some pcb"
    and "process_suspend pid s = Ret (True, s1)"
  shows "\<exists>sss. list_suspended_processes s1 = list_suspended_processes s @
      [\<lparr>sp_pid = pid, suspended_segments = sss\<rparr>] \<and>
    length sss = length (segment_table pcb) \<and>
    (\<forall>ss \<in> set sss. \<exists>blocks. swap_blocks ss = hd (free_blocks s) # blocks)"
proof -
  have mem: "pcb \<in> set (list_processes s)" using find_Some_iff_set [OF assms(3)] by simp
  have fits: "\<forall>seg \<in> set (segment_table pcb). needed s seg \<le> length (free_blocks s)"
    and r: "list_suspended_processes s1 = list_suspended_processes s @
      [\<lparr>sp_pid = pid, suspended_segments = map (suspended_of s) (segment_table pcb)\<rparr>]"
    using process_suspend [OF assms(1-3)] assms(4) by (auto split: if_splits)
  have "\<exists>blocks. swap_blocks (suspended_of s seg) = hd (free_blocks s) # blocks"
    if "seg \<in> set (segment_table pcb)" for seg
  proof -
    note so = km_inv_seg_ok [OF assms(1) mem that]
    have "unat (seg_size seg) < 2 ^ 30"
      using read_ok_segment(3) [of s seg] so(1) assms(1) by (simp add: km_inv_def)
    then have "unat (seg_size seg) \<le> needed s seg * unat (swap_block_size s)"
      using blocks_for_bounds(1) assms(2) by (simp add: needed_def swap_ok_def swap_valid_def)
    with so(2) have "0 < needed s seg" by (cases "needed s seg") auto
    moreover from this have "free_blocks s \<noteq> []" using fits that by (cases "free_blocks s") auto
    ultimately show ?thesis
      by (cases "free_blocks s"; cases "needed s seg") (auto simp: suspended_of_def)
  qed
  with r show ?thesis by auto
qed

lemma desuspend_two:
  assumes inv: "km_inv s" and ok: "swap_ok s" and srt: "sorts_by list_sort compare_by_base"
    and sp: "List.find (find_suspended_by_pid pid) (list_suspended_processes s) = Some sp"
      "suspended_segments sp = [a, b]" "ss_size b = ss_size a" "ss_size a \<noteq> 0"
    and rd: "\<And>m. \<exists>d. read_segment_from_swap a (s\<lparr>km_memory := m\<rparr>) = Ret (Some d) \<and> length d = unat (ss_size a)"
      "\<And>m. \<exists>d. read_segment_from_swap b (s\<lparr>km_memory := m\<rparr>) = Ret (Some d) \<and> length d = unat (ss_size a)"
    and room: "h \<in> set (get_free_holes list_sort s)" "ss_size a \<le> hole_size h"
    and pid: "pid \<in> pcb_pid ` set (list_processes s)"
  shows "\<exists>s'. process_desuspend list_sort pid s = Ret (True, s') \<and> \<not> km_inv s'"
proof -
  obtain c where c: "select_hole (allocation_strategy s) (get_free_holes list_sort s) (ss_size a) = Some c"
    using select_hole_None [of "allocation_strategy s" "get_free_holes list_sort s" "ss_size a"] room
    by (cases "select_hole (allocation_strategy s) (get_free_holes list_sort s) (ss_size a)") auto
  then have c': "c \<in> set (get_free_holes list_sort s)" "ss_size a \<le> hole_size c"
    using select_hole_Some by blast+
  obtain da where da: "read_segment_from_swap a s = Ret (Some da)" "length da = unat (ss_size a)"
    using rd(1) [of "km_memory s"] by auto
  obtain m1 where m1: "memory_write (km_memory s) (hole_base c) da (ss_size a) = Ret (True, m1)"
    "km_inv (s\<lparr>km_memory := m1\<rparr>)" using write_hole [OF inv srt c' da(2)] by blast
  have hs: "get_free_holes list_sort (s\<lparr>km_memory := m\<rparr>) = get_free_holes list_sort s" for m
    by (simp add: get_free_holes_def)
  obtain db where db: "read_segment_from_swap b (s\<lparr>km_memory := m1\<rparr>) = Ret (Some db)"
    "length db = unat (ss_size a)" using rd(2) by blast
  obtain m2 where m2: "memory_write m1 (hole_base c) db (ss_size a) = Ret (True, m2)"
    using write_hole [OF m1(2) srt _ c'(2) db(2)] c'(1) by (auto simp: hs)
  obtain pcb where pcb: "List.find (find_by_pid pid) (list_processes s) = Some pcb"
    using pid by (cases "List.find (find_by_pid pid) (list_processes s)")
      (auto simp: find_None_iff find_by_pid_def)
  let ?ga = "\<lparr>segment_id = ss_segment_id a, seg_base = hole_base c, seg_size = ss_size a\<rparr> :: t_segment"
  let ?gb = "\<lparr>segment_id = ss_segment_id b, seg_base = hole_base c, seg_size = ss_size a\<rparr> :: t_segment"
  let ?s = "s\<lparr>km_memory := m2, list_processes := update_first (find_by_pid pid)
      (\<lambda>pcb. pcb\<lparr>segment_table := segment_table pcb @ [?ga, ?gb]\<rparr>) (list_processes s),
      list_suspended_processes := remove_first (find_suspended_by_pid pid) (list_suspended_processes s)\<rparr>"
  have "process_desuspend list_sort pid s = Ret (True, ?s)"
    using da db m1(1) m2 by (simp add: process_desuspend_def sp c hs pcb)
  moreover have "\<not> km_inv ?s"
  proof
    assume "km_inv ?s"
    from find_split [OF pcb] obtain ps1 ps2 where ps: "list_processes s = ps1 @ pcb # ps2"
      "find_by_pid pid pcb" "\<forall>p \<in> set ps1. \<not> find_by_pid pid p" by blast
    let ?rest = "map seg_hole (all_segments ps1 @ segment_table pcb @ all_segments ps2)"
    have "mset (occupied ?s) = mset (seg_hole ?ga # seg_hole ?gb # ?rest)"
      using ps(2,3) by (simp add: occupied_def ps(1) all_segments_def)
    then have "placed (unat (total_memory_size s)) (seg_hole ?ga # seg_hole ?gb # ?rest)"
      using \<open>km_inv ?s\<close> placed_perm by (fastforce simp: km_inv_def)
    then have "0 < unat (ss_size a) \<and> apart (seg_hole ?ga) (seg_hole ?gb)"
      by (simp add: placed_def seg_hole_def)
    then show False by (auto simp: apart_def seg_hole_def hole_end_def)
  qed
  ultimately show ?thesis by blast
qed

lemma read_suspended_total:
  assumes ok: "swap_ok s" and sz: "unat (seg_size seg) < 2 ^ 30"
    and fits: "needed s seg \<le> length (free_blocks s)"
    and t: "swap_block_size t = swap_block_size s" "swap_ok (s\<lparr>swap_dev := swap_dev t\<rparr>)"
  shows "\<exists>d. read_segment_from_swap (suspended_of s seg) t = Ret (Some d) \<and>
    length d = unat (seg_size seg)"
proof -
  let ?bs = "swap_block_size s" and ?k = "needed s seg"
  let ?blocks = "take ?k (free_blocks s)"
  have bs: "0 < unat ?bs" "unat ?bs < 2 ^ 30" using ok by (simp_all add: swap_ok_def swap_valid_def)
  note k = blocks_for_bounds [OF bs(1) sz bs(2), folded needed_def]
  have l: "length ?blocks = ?k" using fits by simp
  have "swap.covers ?bs (seg_size seg) ?blocks 0"
  proof (rule covers_blocks [OF bs(1) sz bs(2)])
    show "?blocks \<noteq> [] \<Longrightarrow> (length ?blocks - 1) * unat ?bs < unat (seg_size seg) - unat (0 :: u32)"
      using k(2) l by (cases ?k) auto
  qed (use k(1) l in auto)
  moreover have "\<forall>n \<in> set ?blocks. swap_in_range (swap_dev t) n"
    using free_blocks(3) [OF t(2)] by (auto dest: in_set_takeD)
  moreover have "swap_valid ?bs (swap_dev t)" using t(2) by (simp add: swap_ok_def)
  ultimately show ?thesis
    using swap.read_blocks_total [of ?bs "swap_dev t" ?blocks "seg_size seg" 0 "[]"]
    by (simp add: read_segment_from_swap_def suspended_of_def t(1))
qed


text \<open>The example with two segments of one byte in the second process.\<close>

definition km_example2 :: km_state where
  "km_example2 = km_example\<lparr>list_processes :=
     [example_pcb 1 [\<lparr>segment_id = 0, seg_base = 1, seg_size = 2\<rparr>],
      example_pcb 2 [\<lparr>segment_id = 0, seg_base = 4, seg_size = 1\<rparr>,
                     \<lparr>segment_id = 1, seg_base = 5, seg_size = 1\<rparr>]]\<rparr>"

lemma km_example2:
  "km_inv km_example2" "swap_ok km_example2" "free_blocks km_example2 = [0, 1, 2, 3]"
  "list_suspended_processes km_example2 = []" "swap_block_size km_example2 = 2"
  "List.find (find_by_pid 2) (list_processes km_example2) =
     Some (example_pcb 2 [\<lparr>segment_id = 0, seg_base = 4, seg_size = 1\<rparr>,
                          \<lparr>segment_id = 1, seg_base = 5, seg_size = 1\<rparr>])"
proof -
  show "km_inv km_example2"
    using km_inv_example
    by (simp add: km_inv_def km_example2_def placed_def occupied_def all_segments_def seg_hole_def
        apart_def hole_end_def)
  show "swap_ok km_example2" using swap_ok_example(1) by (simp add: swap_ok_def km_example2_def)
  show "free_blocks km_example2 = [0, 1, 2, 3]"
    using swap_ok_example(2) by (simp add: free_blocks_def used_blocks_def km_example2_def)
qed (simp_all add: km_example2_def km_example_def find_by_pid_def)

theorem suspended_segments_share_blocks_witness:
  "\<exists>s1 ss1 ss2 bs1 bs2. process_suspend 2 km_example2 = Ret (True, s1) \<and>
     list_suspended_processes s1 = [\<lparr>sp_pid = 2, suspended_segments = [ss1, ss2]\<rparr>] \<and>
     swap_blocks ss1 = 0 # bs1 \<and> swap_blocks ss2 = 0 # bs2"
proof -
  obtain s1 where s1: "process_suspend 2 km_example2 = Ret (True, s1)"
    using process_suspend [OF km_example2(1,2,6)] km_example2
    by (auto simp: needed_def blocks_for_def)
  from suspended_segments_share_blocks [OF km_example2(1,2,6) s1] km_example2
  obtain sss where "list_suspended_processes s1 = [\<lparr>sp_pid = 2, suspended_segments = sss\<rparr>]"
    "length sss = 2" "\<forall>ss \<in> set sss. \<exists>blocks. swap_blocks ss = 0 # blocks" by auto
  with s1 show ?thesis by (auto simp: numeral_2_eq_2 length_Suc_conv)
qed


end
