(* ===== verification/KM_Handlers.thy ===== *)
theory KM_Handlers
  imports KM_Resume
begin

text \<open>
  The threads of Kernel Memory: what each message of Kernel Scheduler
  (\<open>kernel_scheduler_handler.c\<close>) and of a CPU (\<open>cpu_handler.c\<close>) does, the connection and
  the loss of a Memory Stick (\<open>main.c\<close>, \<open>memory_stick_handler.c\<close>), and the threads that
  \<open>SEGMENT_CREATE\<close> starts. A handler gets the operation code and the buffer of the message.
\<close>

record km_server =
  km :: km_state
  segment_threads :: "(u32 \<times> u32 \<times> u32) list"
  list_memory_stick_credentials :: "t_memory_stick_credentials list"
  list_cpu :: "t_client_info list"
  next_memory_stick_id :: u32
  kernel_scheduler :: "fd option"
  segment_max_size :: u32
  outgoing :: "(fd \<times> t_package) list"

definition on_km :: "(km_state \<Rightarrow> km_state) \<Rightarrow> km_server \<Rightarrow> km_server" where
  "on_km f srv = srv\<lparr>km := f (km srv)\<rparr>"

definition send_on :: "fd \<Rightarrow> t_package \<Rightarrow> km_server \<Rightarrow> km_server" where
  "send_on f pkg srv = srv\<lparr>outgoing := outgoing srv @ [(f, pkg)]\<rparr>"

section \<open>Messages of Kernel Scheduler\<close>

text \<open>\<open>PROCESS_CREATE\<close>: without instructions there is no answer and no process.\<close>

definition km_process_create ::
  "(string \<rightharpoonup> string) \<Rightarrow> (string \<Rightarrow> string \<Rightarrow> string list) \<Rightarrow> string \<Rightarrow> byte list \<Rightarrow> km_state \<Rightarrow>
   km_state run" where
  "km_process_create files string_split base_path buffer s =
     (if buffer = [] then Ret s
      else and_then (of_option (do {
          (pid, b) \<leftarrow> uint32_deserialize buffer;
          (relative_path, b) \<leftarrow> string_deserialize b;
          Some (pid, relative_path) })) (\<lambda>(pid, relative_path).
        let full_path = base_path @ ''/'' @ relative_path;
            pcb = create_pcb files string_split pid full_path
        in case pcb_instructions pcb of
             None \<Rightarrow> Ret s
           | Some _ \<Rightarrow>
               Ret (send_to_scheduler (uint32_send_with_op_code pid PROCESS_CREATE)
                      (s\<lparr>list_processes := list_processes s @ [pcb]\<rparr>))))"

text \<open>\<open>PROCESS_END\<close>: the segments go with the process; nothing looks at the suspended ones.\<close>

definition km_process_end :: "u32 \<Rightarrow> km_state \<Rightarrow> km_state" where
  "km_process_end pid s = s\<lparr>list_processes := remove_first (find_by_pid pid) (list_processes s)\<rparr>"

text \<open>\<open>IO_MEMORY_READ\<close>: the bytes are sent as a C string, so up to the first zero byte; a
  \<open>strlen\<close> that finds none runs out of the buffer. An error is the empty string.\<close>

definition c_string_prefix :: "byte list \<Rightarrow> byte list option" where
  "c_string_prefix data =
     (if 0 \<in> set data then Some (takeWhile (\<lambda>b. b \<noteq> 0) data @ [0]) else None)"

definition km_io_memory_read :: "byte list \<Rightarrow> km_state \<Rightarrow> km_state run" where
  "km_io_memory_read buffer s =
     (if buffer = [] then Ret s
      else and_then (of_option (do {
          (pid, b) \<leftarrow> uint32_deserialize buffer;
          (physical_address, b) \<leftarrow> uint32_deserialize b;
          (size_to_read, b) \<leftarrow> uint32_deserialize b;
          Some (pid, physical_address, size_to_read) })) (\<lambda>(pid, physical_address, size_to_read).
        and_then (memory_read (km_memory s) physical_address size_to_read) (\<lambda>(data, m).
          let reply = (\<lambda>bytes. send_to_scheduler (package_add bytes
                 (package_add (u32_bytes pid) (package_with IO_MEMORY_READ))) (s\<lparr>km_memory := m\<rparr>))
          in case data of
               None \<Rightarrow> Ret (reply [0])
             | Some d \<Rightarrow> and_then (of_option (c_string_prefix d)) (\<lambda>text. Ret (reply text)))))"

definition padded :: "string \<Rightarrow> u32 \<Rightarrow> byte list" where
  "padded raw_data size_to_write =
     (let bytes_to_copy = min (length raw_data) (unat size_to_write)
      in take bytes_to_copy (map byte_of_char raw_data) @
         replicate (unat size_to_write - bytes_to_copy) 0)"

definition km_io_memory_write :: "byte list \<Rightarrow> km_state \<Rightarrow> km_state run" where
  "km_io_memory_write buffer s =
     (if buffer = [] then Ret s
      else and_then (of_option (do {
          (pid, b) \<leftarrow> uint32_deserialize buffer;
          (physical_address, b) \<leftarrow> uint32_deserialize b;
          (size_to_write, b) \<leftarrow> uint32_deserialize b;
          (raw_data, b) \<leftarrow> string_deserialize b;
          Some (pid, physical_address, size_to_write, raw_data) }))
        (\<lambda>(pid, physical_address, size_to_write, raw_data).
          and_then (memory_write (km_memory s) physical_address (padded raw_data size_to_write) size_to_write)
            (\<lambda>(could_write, m).
              Ret (send_to_scheduler (package_add [bool_byte could_write]
                (package_add (u32_bytes pid) (package_with IO_MEMORY_WRITE))) (s\<lparr>km_memory := m\<rparr>)))))"

definition km_swap_out :: "u32 \<Rightarrow> km_state \<Rightarrow> km_state run" where
  "km_swap_out pid s =
     and_then (process_suspend pid s) (\<lambda>(could_suspend, s').
       Ret (send_to_scheduler (package_add [bool_byte could_suspend]
         (package_add (u32_bytes pid) (package_with SWAP_OUT))) s'))"

fun desuspend_all :: "t_hole list_sort \<Rightarrow> u32 list \<Rightarrow> u32 list \<Rightarrow> km_state \<Rightarrow> (u32 list \<times> km_state) run"
where
  "desuspend_all list_sort [] desuspended_pids s = Ret (desuspended_pids, s)"
| "desuspend_all list_sort (pid # pids) desuspended_pids s =
     and_then (process_desuspend list_sort pid s) (\<lambda>(ok, s').
       desuspend_all list_sort pids (if ok then desuspended_pids @ [pid] else desuspended_pids) s')"

definition km_swap_in :: "t_hole list_sort \<Rightarrow> u32 list \<Rightarrow> km_state \<Rightarrow> km_state run" where
  "km_swap_in list_sort pids s =
     and_then (desuspend_all list_sort pids [] s) (\<lambda>(desuspended_pids, s').
       Ret (send_to_scheduler (uint32_list_send desuspended_pids SWAP_IN) s'))"

definition km_segment_delete :: "byte list \<Rightarrow> km_state \<Rightarrow> km_state run" where
  "km_segment_delete buffer s =
     (if buffer = [] then Ret s
      else and_then (of_option (do {
          (pid, b) \<leftarrow> uint32_deserialize buffer;
          (sid, b) \<leftarrow> uint32_deserialize b;
          Some (pid, sid) })) (\<lambda>(pid, sid).
        case segment_delete pid sid s of
          (SEGMENT_OK, s') \<Rightarrow> Ret (send_segment_result pid sid SEGMENT_OK s')
        | (_, s') \<Rightarrow> Ret (send_segment_result pid sid SEGMENT_ERROR s')))"

definition segment_create_args :: "byte list \<Rightarrow> (u32 \<times> u32 \<times> u32) option" where
  "segment_create_args buffer = do {
     (pid, b) \<leftarrow> uint32_deserialize buffer;
     (sid, b) \<leftarrow> uint32_deserialize b;
     (segment_size, b) \<leftarrow> uint32_deserialize b;
     Some (pid, sid, segment_size) }"

definition on_km_run :: "(km_state \<Rightarrow> km_state run) \<Rightarrow> km_server \<Rightarrow> km_server run" where
  "on_km_run f srv = and_then (f (km srv)) (\<lambda>s. Ret (srv\<lparr>km := s\<rparr>))"

definition kernel_scheduler_handler ::
  "(string \<rightharpoonup> string) \<Rightarrow> (string \<Rightarrow> string \<Rightarrow> string list) \<Rightarrow> string \<Rightarrow> t_hole list_sort \<Rightarrow>
   op_code \<Rightarrow> byte list \<Rightarrow> km_server \<Rightarrow> km_server run" where
  "kernel_scheduler_handler files string_split base_path list_sort op buffer srv =
     (case op of
        PROCESS_CREATE \<Rightarrow> on_km_run (km_process_create files string_split base_path buffer) srv
      | PROCESS_END \<Rightarrow>
          and_then (of_option (uint32_deserialize buffer)) (\<lambda>(pid, _).
            Ret (on_km (km_process_end pid) srv))
      | SEGMENT_CREATE \<Rightarrow>
          (if buffer = [] then Ret srv
           else and_then (of_option (segment_create_args buffer)) (\<lambda>args.
             Ret (srv\<lparr>segment_threads := segment_threads srv @ [args]\<rparr>)))
      | SEGMENT_DELETE \<Rightarrow> on_km_run (km_segment_delete buffer) srv
      | COMPACTION_READY \<Rightarrow>
          Ret (on_km (\<lambda>s. s\<lparr>compaction_sem := Suc (compaction_sem s)\<rparr>) srv)
      | IO_MEMORY_READ \<Rightarrow> on_km_run (km_io_memory_read buffer) srv
      | IO_MEMORY_WRITE \<Rightarrow> on_km_run (km_io_memory_write buffer) srv
      | SWAP_OUT \<Rightarrow>
          and_then (of_option (uint32_deserialize buffer)) (\<lambda>(pid, _).
            on_km_run (km_swap_out pid) srv)
      | SWAP_IN \<Rightarrow>
          and_then (of_option (deserialize_all uint32_deserialize buffer)) (\<lambda>pids.
            on_km_run (km_swap_in list_sort pids) srv)
      | _ \<Rightarrow> Ret srv)"

section \<open>Messages of a CPU\<close>

definition cpu_context_transfer :: "byte list \<Rightarrow> km_state \<Rightarrow> km_state run" where
  "cpu_context_transfer buffer s =
     and_then (context_transfer_receive buffer) (\<lambda>(pid, ctx).
       Ret (s\<lparr>list_processes :=
         update_first (find_by_pid pid) (\<lambda>pcb. pcb\<lparr>pcb_context := ctx\<rparr>) (list_processes s)\<rparr>))"

definition cpu_context_seek :: "byte list \<Rightarrow> km_state \<Rightarrow> t_package option run" where
  "cpu_context_seek buffer s =
     (if buffer = [] then Ret None
      else and_then (of_option (uint32_deserialize buffer)) (\<lambda>(pid, _).
        case List.find (find_by_pid pid) (list_processes s) of
          None \<Rightarrow> Ret None
        | Some pcb \<Rightarrow> Ret (Some (context_send_from_pcb (pcb_context pcb) (segment_table pcb)))))"

text \<open>\<open>instructions[pc]\<close> is not checked: behind the last instruction is the NULL that ends the
  array, and then anything.\<close>

definition instruction_message :: "string \<Rightarrow> t_package" where
  "instruction_message instruction =
     \<lparr>pkg_op = INSTRUCTION_FETCH, stream = string_bytes instruction\<rparr>"

definition cpu_instruction_fetch :: "byte list \<Rightarrow> km_state \<Rightarrow> t_package option run" where
  "cpu_instruction_fetch buffer s =
     (if buffer = [] then Ret None
      else and_then (of_option (do {
          (pid, b) \<leftarrow> uint32_deserialize buffer;
          (ip, b) \<leftarrow> uint32_deserialize b;
          Some (pid, ip) })) (\<lambda>(pid, ip).
        case List.find (find_by_pid pid) (list_processes s) of
          None \<Rightarrow> Ret None
        | Some pcb \<Rightarrow>
            (case pcb_instructions pcb of
               None \<Rightarrow> Ret None
             | Some instructions \<Rightarrow>
                 if unat ip < length instructions
                 then Ret (Some (instruction_message (instructions ! unat ip)))
                 else Undef)))"

definition km_cpu_handler :: "t_client_info \<Rightarrow> op_code \<Rightarrow> byte list \<Rightarrow> km_server \<Rightarrow> km_server run" where
  "km_cpu_handler cpu op buffer srv =
     (let reply = (\<lambda>r. case r of None \<Rightarrow> srv | Some pkg \<Rightarrow> send_on (ci_fd cpu) pkg srv) in
      case op of
        CONTEXT_TRANSFER \<Rightarrow> on_km_run (cpu_context_transfer buffer) srv
      | CONTEXT_SEEK \<Rightarrow> and_then (cpu_context_seek buffer (km srv)) (\<lambda>r. Ret (reply r))
      | INSTRUCTION_FETCH \<Rightarrow> and_then (cpu_instruction_fetch buffer (km srv)) (\<lambda>r. Ret (reply r))
      | _ \<Rightarrow> Ret srv)"

section \<open>Connections\<close>

text \<open>
  \<open>handle_module\<close> for Kernel Scheduler and for a CPU: the current total is announced, the CPU
  gets the sticks and the segment size limit.
\<close>

definition kernel_scheduler_connected :: "fd \<Rightarrow> km_server \<Rightarrow> km_server" where
  "kernel_scheduler_connected client_fd srv =
     (let current_total = total_memory_size (km srv);
          srv' = srv\<lparr>kernel_scheduler := Some client_fd\<rparr>
      in if current_total > 0 then on_km (send_memory_update current_total) srv' else srv')"

definition cpu_connected :: "fd \<Rightarrow> u32 \<Rightarrow> km_server \<Rightarrow> km_server" where
  "cpu_connected client_fd cpu_id srv =
     send_on client_fd (uint32_send (segment_max_size srv))
       (send_on client_fd (send_credentials_list (list_memory_stick_credentials srv))
         (srv\<lparr>list_cpu := add_client_to_list (list_cpu srv) client_fd cpu_id\<rparr>))"

definition cpu_disconnected :: "t_client_info \<Rightarrow> km_server \<Rightarrow> km_server" where
  "cpu_disconnected cpu srv = srv\<lparr>list_cpu := remove_client_from_list (list_cpu srv) cpu\<rparr>"

definition update_cpu_list :: "t_memory_stick_credentials \<Rightarrow> km_server \<Rightarrow> km_server" where
  "update_cpu_list new_cred srv =
     srv\<lparr>outgoing := outgoing srv @ map (\<lambda>cpu. (ci_fd cpu, send_credentials new_cred)) (list_cpu srv)\<rparr>"

text \<open>
  \<open>memory_stick_protocol\<close>: the stick gets its id, sends its size and where the CPUs reach it.
  The two phases are separate because the new total is announced to Kernel Scheduler before the
  stick is in \<open>list_memory_stick\<close>. The answer fields that \<open>malloc\<close> leaves undefined are
  \<open>None\<close>: they are written before they are read.
\<close>

definition memory_stick_announce :: "fd \<Rightarrow> u32 \<Rightarrow> km_server \<Rightarrow> u32 \<times> km_server" where
  "memory_stick_announce client_fd sz srv =
     (let new_id = next_memory_stick_id srv;
          current_total = total_memory_size (km srv) + sz;
          srv' = on_km (\<lambda>s. s\<lparr>total_memory_size := current_total\<rparr>)
            (send_on client_fd (uint32_send new_id)
              (srv\<lparr>next_memory_stick_id := new_id + 1\<rparr>))
      in (new_id, if kernel_scheduler srv \<noteq> None
          then on_km (send_memory_update current_total) srv' else srv'))"

definition memory_stick_register ::
  "fd \<Rightarrow> u32 \<Rightarrow> u32 \<Rightarrow> string \<Rightarrow> string \<Rightarrow> km_server \<Rightarrow> km_server" where
  "memory_stick_register client_fd new_id sz ip port srv =
     (let info = (create_memory_stick_info client_fd new_id)\<lparr>ms_size := sz\<rparr>;
          client = \<lparr>cred_ip = ip, cred_port = port, cred_id = new_id, cred_size = sz\<rparr>;
          srv' = (on_km (\<lambda>s. s\<lparr>km_memory := (fst (km_memory s), snd (km_memory s) @ [info])\<rparr>) srv)
            \<lparr>list_memory_stick_credentials := list_memory_stick_credentials srv @ [client]\<rparr>
      in if list_cpu srv \<noteq> [] then update_cpu_list client srv' else srv')"

definition memory_stick_protocol ::
  "fd \<Rightarrow> u32 \<Rightarrow> string \<Rightarrow> string \<Rightarrow> km_server \<Rightarrow> km_server" where
  "memory_stick_protocol client_fd sz ip port srv =
     (case memory_stick_announce client_fd sz srv of
        (new_id, srv') \<Rightarrow> memory_stick_register client_fd new_id sz ip port srv')"

text \<open>The loss of a stick: it is forgotten and Kernel Scheduler is told that the memory is corrupt.\<close>

definition memory_stick_disconnected ::
  "fd \<Rightarrow> t_memory_stick_credentials \<Rightarrow> km_server \<Rightarrow> km_server" where
  "memory_stick_disconnected client_fd client srv =
     (let ms_match = (\<lambda>mi. ms_id mi = cred_id client \<or> ms_fd mi = client_fd);
          s = km srv;
          srv' = srv\<lparr>list_memory_stick_credentials := remove1 client (list_memory_stick_credentials srv)\<rparr>
      in case List.find ms_match (snd (km_memory s)) of
           None \<Rightarrow> srv'
         | Some ms_corrupted \<Rightarrow>
             let s1 = s\<lparr>km_memory := (fst (km_memory s), remove_first ms_match (snd (km_memory s)))\<rparr>;
                 s2 = (if total_memory_size s1 \<ge> ms_size ms_corrupted
                       then s1\<lparr>total_memory_size := total_memory_size s1 - ms_size ms_corrupted\<rparr> else s1);
                 s3 = (if kernel_scheduler srv \<noteq> None
                       then send_to_scheduler (package_with CORRUPTED_MEMORY) s2 else s2)
             in srv'\<lparr>km := s3\<rparr>)"

end
