(* ===== verification/KM_System.thy ===== *)
theory KM_System
  imports KM_Handlers
begin

text \<open>
  Kernel Memory as a whole: a step relation whose steps are the messages its threads handle and
  the two halves of a \<open>segment_create_thread\<close>, in any order, and the layout invariant all of
  them keep. Resuming processes (\<open>SWAP_IN\<close>) is a step too, but not one of those that keep the
  invariant, see \<open>KM_Resume\<close>.
\<close>

datatype km_event =
    Scheduler_message op_code "byte list"
  | Cpu_message t_client_info op_code "byte list"
  | Thread_start "u32 \<times> u32 \<times> u32"
  | Thread_resume "u32 \<times> u32 \<times> u32"

text \<open>\<open>0 < compaction_sem\<close>: \<open>sem_wait\<close> lets one of the waiting threads through, any of
  them.\<close>

inductive km_step ::
  "(string \<rightharpoonup> string) \<Rightarrow> (string \<Rightarrow> string \<Rightarrow> string list) \<Rightarrow> string \<Rightarrow>
   (seg_ref \<times> t_segment) list_sort \<Rightarrow> t_hole list_sort \<Rightarrow>
   km_server \<Rightarrow> km_event \<Rightarrow> km_server \<Rightarrow> bool"
  for files string_split base_path seg_sort hole_sort where
  scheduler:
    "kernel_scheduler_handler files string_split base_path hole_sort op buffer srv = Ret srv' \<Longrightarrow>
     km_step files string_split base_path seg_sort hole_sort srv (Scheduler_message op buffer) srv'"
| cpu:
    "km_cpu_handler cpu op buffer srv = Ret srv' \<Longrightarrow>
     km_step files string_split base_path seg_sort hole_sort srv (Cpu_message cpu op buffer) srv'"
| start:
    "(pid, sid, sz) \<in> set (segment_threads srv) \<Longrightarrow>
     km_step files string_split base_path seg_sort hole_sort srv (Thread_start (pid, sid, sz))
       (srv\<lparr>km := segment_create_thread hole_sort pid sid sz (km srv),
            segment_threads := remove1 (pid, sid, sz) (segment_threads srv)\<rparr>)"
| resume:
    "args \<in> set (compaction_waiters (km srv)) \<Longrightarrow> 0 < compaction_sem (km srv) \<Longrightarrow>
     segment_create_thread_resume seg_sort hole_sort args (km srv) = Ret s' \<Longrightarrow>
     km_step files string_split base_path seg_sort hole_sort srv (Thread_resume args) (srv\<lparr>km := s'\<rparr>)"

inductive_cases km_stepE:
  "km_step files string_split base_path seg_sort hole_sort srv (Scheduler_message op buffer) srv'"
  "km_step files string_split base_path seg_sort hole_sort srv (Cpu_message cpu op buffer) srv'"
  "km_step files string_split base_path seg_sort hole_sort srv (Thread_start args) srv'"
  "km_step files string_split base_path seg_sort hole_sort srv (Thread_resume args) srv'"

text \<open>A run: a list of events, each a step.\<close>

inductive km_run ::
  "(string \<rightharpoonup> string) \<Rightarrow> (string \<Rightarrow> string \<Rightarrow> string list) \<Rightarrow> string \<Rightarrow>
   (seg_ref \<times> t_segment) list_sort \<Rightarrow> t_hole list_sort \<Rightarrow>
   km_server \<Rightarrow> km_event list \<Rightarrow> km_server \<Rightarrow> bool"
  for files string_split base_path seg_sort hole_sort where
  idle: "km_run files string_split base_path seg_sort hole_sort srv [] srv"
| more: "km_step files string_split base_path seg_sort hole_sort srv e srv' \<Longrightarrow>
    km_run files string_split base_path seg_sort hole_sort srv' es srv'' \<Longrightarrow>
    km_run files string_split base_path seg_sort hole_sort srv (e # es) srv''"

text \<open>What Kernel Scheduler sends: no segment of 0 bytes; and here no \<open>SWAP_IN\<close>.\<close>

definition tame :: "km_event \<Rightarrow> bool" where
  "tame e \<longleftrightarrow>
     (case e of
        Scheduler_message op buffer \<Rightarrow>
          op \<noteq> SWAP_IN \<and>
          (op = SEGMENT_CREATE \<longrightarrow>
             (case segment_create_args buffer of None \<Rightarrow> True | Some args \<Rightarrow> snd (snd args) \<noteq> 0))
      | _ \<Rightarrow> True)"

definition km_ok :: "km_server \<Rightarrow> bool" where
  "km_ok srv \<longleftrightarrow>
     km_inv (km srv) \<and> swap_ok (km srv) \<and>
     (\<forall>args \<in> set (segment_threads srv) \<union> set (compaction_waiters (km srv)). snd (snd args) \<noteq> 0)"

section \<open>The operations keep the layout\<close>

text \<open>The part of the state the two invariants and the waiting threads depend on.\<close>

definition kept :: "km_state \<Rightarrow> km_state \<Rightarrow> bool" where
  "kept s s' \<longleftrightarrow>
     km_inv s' \<and> swap_ok s' \<and> compaction_waiters s' = compaction_waiters s"

lemma send_frame [simp]:
  "km_inv (send_to_scheduler pkg s) = km_inv s" "swap_ok (send_to_scheduler pkg s) = swap_ok s"
  "compaction_waiters (send_to_scheduler pkg s) = compaction_waiters s"
  by (simp_all add: send_to_scheduler_def km_inv_def swap_ok_def occupied_def)

lemma kept_send [simp]: "kept s (send_to_scheduler pkg s') = kept s s'"
  by (simp add: kept_def)

lemma km_inv_same_tables:
  assumes "km_inv s" and "all_segments ps = all_segments (list_processes s)"
  shows "km_inv (s\<lparr>list_processes := ps\<rparr>)"
  using assms by (simp add: km_inv_def occupied_def)

lemma swap_ok_frame [simp]:
  "swap_ok (s\<lparr>list_processes := ps\<rparr>) = swap_ok s" "swap_ok (s\<lparr>km_memory := m\<rparr>) = swap_ok s"
  "swap_ok (s\<lparr>list_suspended_processes := sps\<rparr>) = swap_ok s"
  "swap_ok (s\<lparr>compaction_sem := n\<rparr>) = swap_ok s" "swap_ok (s\<lparr>compaction_waiters := w\<rparr>) = swap_ok s"
  by (simp_all add: swap_ok_def)

lemma km_inv_frame [simp]:
  "km_inv (s\<lparr>swap_dev := dev\<rparr>) = km_inv s" "km_inv (s\<lparr>list_suspended_processes := sps\<rparr>) = km_inv s"
  "km_inv (s\<lparr>compaction_sem := n\<rparr>) = km_inv s" "km_inv (s\<lparr>compaction_waiters := w\<rparr>) = km_inv s"
  by (simp_all add: km_inv_def occupied_def)

lemma placed_drop: "placed n (xs @ ys @ zs) \<Longrightarrow> placed n (xs @ zs)"
  by (auto simp: placed_def sorted_wrt_append)

lemma km_inv_drop:
  assumes "km_inv s" and "list_processes s = ps1 @ pcb # ps2"
  shows "km_inv (s\<lparr>list_processes := ps1 @ ps2\<rparr>)"
    and "km_inv (s\<lparr>list_processes := ps1 @ pcb\<lparr>segment_table := []\<rparr> # ps2\<rparr>)"
  using assms placed_drop [of _ "map seg_hole (all_segments ps1)" "map seg_hole (segment_table pcb)"
      "map seg_hole (all_segments ps2)"]
  by (auto simp: km_inv_def occupied_def all_segments_def)

lemma km_process_create_keeps:
  "km_process_create files string_split base_path buffer s = Ret s' \<Longrightarrow> km_inv s \<Longrightarrow> swap_ok s \<Longrightarrow>
   kept s s'"
  by (auto simp: km_process_create_def and_then_eq_Ret Let_def create_pcb_def all_segments_def
      kept_def [of s s] intro: km_inv_same_tables split: if_splits option.splits)
    (simp_all add: kept_def km_inv_def swap_ok_def occupied_def all_segments_def)

lemma km_process_end_keeps: "km_inv s \<Longrightarrow> swap_ok s \<Longrightarrow> kept s (km_process_end pid s)"
proof (cases "List.find (find_by_pid pid) (list_processes s)")
  case None
  have "List.find P xs = None \<Longrightarrow> remove_first P xs = xs" for P and xs :: "t_pcb list"
    by (induction xs) (auto split: if_splits)
  with None show "km_inv s \<Longrightarrow> swap_ok s \<Longrightarrow> kept s (km_process_end pid s)"
    by (simp add: km_process_end_def kept_def)
next
  case (Some pcb)
  from find_split [OF Some] obtain ps1 ps2 where ps: "list_processes s = ps1 @ pcb # ps2"
    "find_by_pid pid pcb" "\<forall>p \<in> set ps1. \<not> find_by_pid pid p" by blast
  then show "km_inv s \<Longrightarrow> swap_ok s \<Longrightarrow> kept s (km_process_end pid s)"
    using km_inv_drop(1) [OF _ ps(1)] by (simp add: km_process_end_def kept_def)
qed

lemma km_segment_delete_keeps:
  assumes "km_segment_delete buffer s = Ret s'" and "km_inv s" and "swap_ok s"
  shows "kept s s'"
proof -
  have k: "kept s (snd (segment_delete pid sid s))" for pid sid
  proof (cases "fst (segment_delete pid sid s) = SEGMENT_OK")
    case True
    then obtain pcb seg where f: "List.find (find_by_pid pid) (list_processes s) = Some pcb"
      "List.find (find_by_segment_id sid) (segment_table pcb) = Some seg"
      by (auto simp: segment_delete_def split: option.splits)
    from find_split [OF f(1)] obtain ps1 ps2 where ps: "list_processes s = ps1 @ pcb # ps2"
      "find_by_pid pid pcb" "\<forall>p \<in> set ps1. \<not> find_by_pid pid p" by blast
    from find_split [OF f(2)] obtain t1 t2 where tb: "segment_table pcb = t1 @ seg # t2"
      "find_by_segment_id sid seg" "\<forall>x \<in> set t1. \<not> find_by_segment_id sid x" by blast
    from segment_delete [OF assms(2) ps tb] have "km_inv (snd (segment_delete pid sid s))" by auto
    then show ?thesis using assms(3) f by (simp add: kept_def segment_delete_def)
  next
    case False
    then show ?thesis using assms(2,3) by (auto simp: kept_def segment_delete_def split: option.splits)
  qed
  show ?thesis
  proof (cases "buffer = []")
    case True
    with assms show ?thesis by (simp add: km_segment_delete_def kept_def)
  next
    case False
    with assms(1) obtain pid sid where
      d: "(case segment_delete pid sid s of
          (SEGMENT_OK, s') \<Rightarrow> Ret (send_segment_result pid sid SEGMENT_OK s')
        | (_, s') \<Rightarrow> Ret (send_segment_result pid sid SEGMENT_ERROR s')) = Ret s'"
      by (auto simp: km_segment_delete_def and_then_eq_Ret)
    obtain r t where rt: "segment_delete pid sid s = (r, t)" by (cases "segment_delete pid sid s")
    then have "kept s t" using k [of pid sid] by simp
    with d rt show ?thesis by (cases r) (auto simp: send_segment_result_def)
  qed
qed

lemma km_io_memory_read_keeps:
  assumes "km_io_memory_read buffer s = Ret s'" and "km_inv s" and "swap_ok s"
  shows "kept s s'"
proof (cases "buffer = []")
  case True
  with assms show ?thesis by (simp add: km_io_memory_read_def kept_def)
next
  case False
  with assms(1) obtain pid a n data m where r: "memory_read (km_memory s) a n = Ret (data, m)"
    and d: "(case data of
        None \<Rightarrow> Ret (send_to_scheduler (package_add [0]
          (package_add (u32_bytes pid) (package_with IO_MEMORY_READ))) (s\<lparr>km_memory := m\<rparr>))
      | Some d \<Rightarrow> and_then (of_option (c_string_prefix d)) (\<lambda>text. Ret (send_to_scheduler (package_add text
          (package_add (u32_bytes pid) (package_with IO_MEMORY_READ))) (s\<lparr>km_memory := m\<rparr>)))) = Ret s'"
    by (auto simp: km_io_memory_read_def and_then_eq_Ret Let_def)
  then have s': "\<exists>bytes. s' = send_to_scheduler (package_add bytes
        (package_add (u32_bytes pid) (package_with IO_MEMORY_READ))) (s\<lparr>km_memory := m\<rparr>)"
    by (cases data) (auto simp: and_then_eq_Ret)
  have "m = km_memory s"
    using r km_read_returns [of "km_memory s" a n] assms(2) by (auto simp: km_inv_def)
  then have "kept s (s\<lparr>km_memory := m\<rparr>)" using assms(2,3) by (simp add: kept_def)
  with s' show ?thesis by auto
qed

lemma length_padded [simp]: "length (padded raw n) = unat n"
  by (simp add: padded_def Let_def)

lemma km_io_memory_write_keeps:
  assumes "km_io_memory_write buffer s = Ret s'" and "km_inv s" and "swap_ok s"
  shows "kept s s'"
proof (cases "buffer = []")
  case True
  with assms show ?thesis by (simp add: km_io_memory_write_def kept_def)
next
  case False
  with assms(1) obtain pid a n raw ok m where
    w: "memory_write (km_memory s) a (padded raw n) n = Ret (ok, m)"
    and s': "s' = send_to_scheduler (package_add [bool_byte ok]
        (package_add (u32_bytes pid) (package_with IO_MEMORY_WRITE))) (s\<lparr>km_memory := m\<rparr>)"
    by (auto simp: km_io_memory_write_def and_then_eq_Ret)
  have "memory_valid m" "length (memory_content m) = length (memory_content (km_memory s))"
    using w km_write_keeps [of "km_memory s" n "padded raw n" a] assms(2) by (auto simp: km_inv_def)
  then have "kept s (s\<lparr>km_memory := m\<rparr>)"
    using assms(2,3) by (simp add: kept_def km_inv_def occupied_def)
  with s' show ?thesis by simp
qed

lemma km_swap_out_keeps:
  assumes "km_swap_out pid s = Ret s'" and "km_inv s" and "swap_ok s"
  shows "kept s s'"
proof (cases "List.find (find_by_pid pid) (list_processes s)")
  case None
  with assms show ?thesis by (simp add: km_swap_out_def process_suspend_def) (auto simp: kept_def)
next
  case (Some pcb)
  from find_split [OF Some] obtain ps1 ps2 where ps: "list_processes s = ps1 @ pcb # ps2"
    "find_by_pid pid pcb" "\<forall>p \<in> set ps1. \<not> find_by_pid pid p" by blast
  from process_suspend [OF assms(2,3) Some] obtain dev fits where
    su: "process_suspend pid s = Ret (fits, if fits then s\<lparr>swap_dev := dev,
        list_processes := update_first (find_by_pid pid) (\<lambda>pcb. pcb\<lparr>segment_table := []\<rparr>) (list_processes s),
        list_suspended_processes := list_suspended_processes s @
          [\<lparr>sp_pid = pid, suspended_segments = map (suspended_of s) (segment_table pcb)\<rparr>]\<rparr>
      else s\<lparr>swap_dev := dev\<rparr>)" "swap_ok (s\<lparr>swap_dev := dev\<rparr>)" by blast
  have "km_inv (s\<lparr>list_processes := update_first (find_by_pid pid) (\<lambda>pcb. pcb\<lparr>segment_table := []\<rparr>) (list_processes s)\<rparr>)"
    using km_inv_drop(2) [OF assms(2) ps(1)] ps by simp
  then have "km_inv (s\<lparr>swap_dev := dev, list_processes := update_first (find_by_pid pid)
      (\<lambda>pcb. pcb\<lparr>segment_table := []\<rparr>) (list_processes s)\<rparr>)"
    by (simp add: km_inv_def occupied_def)
  with su assms show ?thesis
    by (auto simp: km_swap_out_def and_then_eq_Ret kept_def [of s] swap_ok_def send_to_scheduler_def
        km_inv_def occupied_def split: if_splits)
qed

lemma cpu_context_transfer_keeps:
  assumes "cpu_context_transfer buffer s = Ret s'" and "km_inv s" and "swap_ok s"
  shows "kept s s'"
proof -
  have t: "all_segments (update_first (find_by_pid pid) (\<lambda>pcb. pcb\<lparr>pcb_context := c\<rparr>) ps) = all_segments ps"
    for pid c ps by (simp add: all_segments_def)
  from assms show ?thesis
    using km_inv_same_tables [OF assms(2) t]
    by (auto simp: cpu_context_transfer_def and_then_eq_Ret kept_def)
qed

lemma place_segment_keeps:
  assumes "km_inv s" and "swap_ok s" and "sorts_by list_sort compare_by_base" and "sz \<noteq> 0"
    and "chosen \<in> set (get_free_holes list_sort s)" and "sz \<le> hole_size chosen"
  shows "kept s (snd (place_segment pid sid sz chosen s))"
proof (cases "pid \<in> pcb_pid ` set (list_processes s)")
  case True
  from place_segment [OF assms(1,3-6) True, of sid] have "km_inv (snd (place_segment pid sid sz chosen s))"
    by auto
  with assms(2) show ?thesis
    by (auto simp: kept_def place_segment_def Let_def split: option.splits)
next
  case False
  then have "List.find (find_by_pid pid) (list_processes s) = None"
    by (auto simp: find_None_iff find_by_pid_def)
  with assms(1,2) show ?thesis by (simp add: place_segment_def Let_def kept_def)
qed

lemma segment_create_thread_keeps:
  fixes pid sid :: u32
  assumes "km_inv s" and "swap_ok s" and "sorts_by list_sort compare_by_base" and "sz \<noteq> 0"
  defines "s' \<equiv> segment_create_thread list_sort pid sid sz s"
  shows "km_inv s'" and "swap_ok s'"
    and "set (compaction_waiters s') \<subseteq> insert (pid, sid, sz) (set (compaction_waiters s))"
proof -
  have "(km_inv s' \<and> swap_ok s') \<and>
      set (compaction_waiters s') \<subseteq> insert (pid, sid, sz) (set (compaction_waiters s))"
  proof (cases "sum_list (map hole_size (get_free_holes list_sort s)) < sz")
    case True
    then have "s' = send_segment_result pid sid SEGMENT_NO_SPACE s"
      by (simp add: s'_def segment_create_thread_def segment_create_def Let_def)
    moreover have "kept s s" using assms(1,2) by (simp add: kept_def)
    ultimately show ?thesis
      using kept_send [of s _ s] by (auto simp: send_segment_result_def kept_def)
  next
    case False
    show ?thesis
    proof (cases "select_hole (allocation_strategy s) (get_free_holes list_sort s) sz")
      case None
      with False show ?thesis
        using assms(1,2)
        by (auto simp: s'_def segment_create_thread_def segment_create_def Let_def send_to_scheduler_def
            km_inv_def swap_ok_def occupied_def)
    next
      case (Some c)
      then have c: "c \<in> set (get_free_holes list_sort s)" "sz \<le> hole_size c"
        using select_hole_Some by blast+
      obtain r t where rt: "place_segment pid sid sz c s = (r, t)" by (cases "place_segment pid sid sz c s")
      then have "kept s t" using place_segment_keeps [OF assms(1-4) c, of pid sid] by simp
      moreover have "s' = send_segment_result pid sid r t"
        using False Some rt by (simp add: s'_def segment_create_thread_def segment_create_def Let_def)
      ultimately have "kept s s'" by (simp add: send_segment_result_def)
      then show ?thesis by (auto simp: kept_def)
    qed
  qed
  then show "km_inv s'" and "swap_ok s'"
    and "set (compaction_waiters s') \<subseteq> insert (pid, sid, sz) (set (compaction_waiters s))" by auto
qed

lemma segment_create_thread_resume_keeps:
  assumes "segment_create_thread_resume seg_sort list_sort (pid, sid, sz) s = Ret s'"
    and "km_inv s" and "swap_ok s" and "sorts_by list_sort compare_by_base"
    and "sorts_by seg_sort compare_segment_by_base" and "sz \<noteq> 0"
  shows "km_inv s'" and "swap_ok s'"
    and "compaction_waiters s' = remove1 (pid, sid, sz) (compaction_waiters s)"
proof -
  let ?s = "s\<lparr>compaction_waiters := remove1 (pid, sid, sz) (compaction_waiters s)\<rparr>"
  let ?t = "?s\<lparr>compaction_sem := compaction_sem s - 1\<rparr>"
  from assms(1) obtain r t where t: "segment_create_resume seg_sort list_sort pid sid sz ?s = Ret (r, t)"
    "s' = send_segment_result pid sid r t"
    by (auto simp: segment_create_thread_resume_def and_then_eq_Ret)
  have i: "km_inv ?t" using assms(2) by simp
  from compact_memory_spec [OF i assms(5)] obtain ps m where
    c: "compact_memory seg_sort ?t = Ret (?t\<lparr>list_processes := ps, km_memory := m\<rparr>)"
      "km_inv (?t\<lparr>list_processes := ps, km_memory := m\<rparr>)" by metis
  define u where "u = send_to_scheduler (package_with COMPACTION_FINISHED) (?t\<lparr>list_processes := ps, km_memory := m\<rparr>)"
  have u: "kept ?s u"
    using c(2) assms(3) by (simp add: u_def) (simp add: kept_def)
  then have uu: "km_inv u" "swap_ok u" by (simp_all add: kept_def)
  have "finish_compaction seg_sort ?s = Ret u" using c(1) by (simp add: finish_compaction_def u_def)
  with t(1) have "(case select_hole (allocation_strategy u) (get_free_holes list_sort u) sz of
         None \<Rightarrow> Ret (SEGMENT_ERROR, u)
       | Some chosen \<Rightarrow> Ret (place_segment pid sid sz chosen u)) = Ret (r, t)"
    by (simp add: segment_create_resume_def)
  then have "kept u t"
    using uu place_segment_keeps [OF uu assms(4,6) , of _ pid sid] select_hole_Some
    by (fastforce simp: kept_def split: option.splits)
  with u have "kept ?s s'" by (auto simp: t(2) send_segment_result_def) (auto simp: kept_def)
  then show "km_inv s'" and "swap_ok s'"
    and "compaction_waiters s' = remove1 (pid, sid, sz) (compaction_waiters s)"
    by (simp_all add: kept_def)
qed

lemmas handler_keeps = km_process_create_keeps km_process_end_keeps km_segment_delete_keeps
  km_io_memory_read_keeps km_io_memory_write_keeps km_swap_out_keeps cpu_context_transfer_keeps

lemma on_km_run_keeps:
  assumes "on_km_run f srv = Ret srv'" and "\<And>s'. f (km srv) = Ret s' \<Longrightarrow> kept (km srv) s'"
    and "km_ok srv"
  shows "km_ok srv'"
  using assms by (auto simp: on_km_run_def and_then_eq_Ret km_ok_def kept_def)

lemma scheduler_message_keeps:
  assumes "kernel_scheduler_handler files string_split base_path list_sort op buffer srv = Ret srv'"
    and "km_ok srv" and "tame (Scheduler_message op buffer)"
  shows "km_ok srv'"
proof -
  have inv: "km_inv (km srv)" "swap_ok (km srv)" using assms(2) by (simp_all add: km_ok_def)
  consider "op = PROCESS_CREATE" | "op = PROCESS_END" | "op = SEGMENT_CREATE" | "op = SEGMENT_DELETE"
    | "op = COMPACTION_READY" | "op = IO_MEMORY_READ" | "op = IO_MEMORY_WRITE" | "op = SWAP_OUT"
    | "op = SWAP_IN" | "op \<notin> {PROCESS_CREATE, PROCESS_END, SEGMENT_CREATE, SEGMENT_DELETE, COMPACTION_READY,
        IO_MEMORY_READ, IO_MEMORY_WRITE, SWAP_OUT, SWAP_IN}" by auto
  then show ?thesis
  proof cases
    case 1
    with assms(1,2) inv show ?thesis
      by (auto simp: kernel_scheduler_handler_def intro: on_km_run_keeps handler_keeps)
  next
    case 2
    with assms(1,2) inv km_process_end_keeps [of "km srv"] show ?thesis
      by (auto simp: kernel_scheduler_handler_def and_then_eq_Ret on_km_def km_ok_def kept_def)
  next
    case 3
    with assms show ?thesis
      by (auto simp: kernel_scheduler_handler_def and_then_eq_Ret km_ok_def tame_def split: if_splits)
  next
    case 4
    with assms(1,2) inv show ?thesis
      by (auto simp: kernel_scheduler_handler_def intro: on_km_run_keeps handler_keeps)
  next
    case 5
    with assms(1,2) show ?thesis
      by (auto simp: kernel_scheduler_handler_def on_km_def km_ok_def)
  next
    case 6
    with assms(1,2) inv show ?thesis
      by (auto simp: kernel_scheduler_handler_def intro: on_km_run_keeps handler_keeps)
  next
    case 7
    with assms(1,2) inv show ?thesis
      by (auto simp: kernel_scheduler_handler_def intro: on_km_run_keeps handler_keeps)
  next
    case 8
    with assms(1,2) inv show ?thesis
      by (auto simp: kernel_scheduler_handler_def and_then_eq_Ret intro: on_km_run_keeps handler_keeps)
  next
    case 9
    with assms(3) show ?thesis by (simp add: tame_def)
  next
    case 10
    with assms(1,2) show ?thesis by (cases op) (simp_all add: kernel_scheduler_handler_def)
  qed
qed

lemma cpu_message_keeps:
  assumes "km_cpu_handler cpu op buffer srv = Ret srv'" and "km_ok srv"
  shows "km_ok srv'"
proof -
  have inv: "km_inv (km srv)" "swap_ok (km srv)" using assms(2) by (simp_all add: km_ok_def)
  have s: "km_ok (send_on f pkg srv)" for f pkg using assms(2) by (simp add: km_ok_def send_on_def)
  show ?thesis
  proof (cases "op = CONTEXT_TRANSFER")
    case True
    with assms inv show ?thesis
      by (auto simp: km_cpu_handler_def Let_def intro: on_km_run_keeps handler_keeps)
  next
    case False
    with assms s show ?thesis
      by (cases op) (auto simp: km_cpu_handler_def Let_def and_then_eq_Ret split: option.splits)
  qed
qed

lemma km_step_keeps:
  assumes "km_step files string_split base_path seg_sort hole_sort srv e srv'"
    and "km_ok srv" and "tame e"
    and "sorts_by seg_sort compare_segment_by_base" and "sorts_by hole_sort compare_by_base"
  shows "km_ok srv'"
  using assms(1)
proof cases
  case (scheduler op buffer)
  with assms(2,3) show ?thesis by (auto intro: scheduler_message_keeps)
next
  case (cpu c op buffer)
  with assms(2) show ?thesis by (auto intro: cpu_message_keeps)
next
  case (start pid sid sz)
  then have "snd (snd (pid, sid, sz)) \<noteq> 0" using assms(2) unfolding km_ok_def by blast
  with segment_create_thread_keeps [of "km srv" hole_sort sz pid sid] assms(2,5) start
  show ?thesis by (auto simp: km_ok_def dest: set_remove1_subset [THEN subsetD])
next
  case (resume args s')
  obtain pid sid sz where a: "args = (pid, sid, sz)" by (cases args)
  then have "snd (snd (pid, sid, sz)) \<noteq> 0" using resume assms(2) unfolding km_ok_def by blast
  with segment_create_thread_resume_keeps [of seg_sort hole_sort pid sid sz "km srv" s'] resume a assms(2,4,5)
  show ?thesis by (auto simp: km_ok_def dest: set_remove1_subset [THEN subsetD])
qed


text \<open>A server for the witness, and a creation that waits for a compaction and succeeds.\<close>

definition km_server_example :: km_server where
  "km_server_example =
     \<lparr>km = km_example, segment_threads = [(1, 5, 3)], list_memory_stick_credentials = [],
      list_cpu = [], next_memory_stick_id = 2, kernel_scheduler = Some 4, segment_max_size = 64,
      outgoing = []\<rparr>"

lemma km_run_example:
  "\<exists>srv. km_run Map.empty (\<lambda>x _. [x]) [] sort_by sort_by km_server_example
      [Thread_start (1, 5, 3), Scheduler_message COMPACTION_READY [], Thread_resume (1, 5, 3)] srv"
proof -
  let ?step = "km_step Map.empty (\<lambda>x _. [x]) [] sort_by sort_by"
  let ?run = "km_run Map.empty (\<lambda>x _. [x]) [] sort_by sort_by"
  obtain k where c: "segment_create sort_by 1 5 3 km_example = (None, k)"
    using segment_create_cases [OF km_inv_example sorts_by_base, of 3 1 5]
    by (auto simp: example_holes u32_le_iff)
  have w: "k = (send_to_scheduler (package_with COMPACTION_REQUEST) km_example)\<lparr>compaction_waiters := [(1, 5, 3)]\<rparr>"
    using segment_create_cases [OF km_inv_example sorts_by_base, of 3 1 5] c
    by (auto simp: km_example_def)
  define s1 where "s1 = km_server_example\<lparr>km := k, segment_threads := []\<rparr>"
  define s2 where "s2 = s1\<lparr>km := k\<lparr>compaction_sem := Suc 0\<rparr>\<rparr>"
  have 1: "?step km_server_example (Thread_start (1, 5, 3)) s1"
    using km_step.start [of 1 5 3 km_server_example Map.empty "\<lambda>x _. [x]" "[]" sort_by sort_by] c
    by (simp add: s1_def km_server_example_def segment_create_thread_def)
  have 2: "?step s1 (Scheduler_message COMPACTION_READY []) s2"
    by (rule km_step.scheduler)
      (simp add: kernel_scheduler_handler_def on_km_def s1_def s2_def w send_to_scheduler_def km_example_def)
  let ?t = "k\<lparr>compaction_sem := Suc 0, compaction_waiters := []\<rparr>"
  have t: "km_inv ?t" "occupied ?t = occupied km_example" "list_processes ?t = list_processes km_example"
    "total_memory_size ?t = total_memory_size km_example"
    using km_inv_example by (simp_all add: w) (simp_all add: send_to_scheduler_def occupied_def)
  from segment_create_resume [OF t(1) sorts_by_segment_base sorts_by_base, of 3 1 5]
  obtain u where "segment_create_resume sort_by sort_by 1 5 3 ?t = Ret (SEGMENT_OK, u)"
    by (auto simp: t)
  then have "segment_create_thread_resume sort_by sort_by (1, 5, 3) (km s2) =
      Ret (send_segment_result 1 5 SEGMENT_OK u)"
    by (simp add: segment_create_thread_resume_def s2_def w)
  then have 3: "?step s2 (Thread_resume (1, 5, 3)) (s2\<lparr>km := send_segment_result 1 5 SEGMENT_OK u\<rparr>)"
    by (intro km_step.resume) (simp_all add: s2_def w)
  from 1 2 3 have r: "?run km_server_example [Thread_start (1, 5, 3), Scheduler_message COMPACTION_READY [],
      Thread_resume (1, 5, 3)] (s2\<lparr>km := send_segment_result 1 5 SEGMENT_OK u\<rparr>)"
    by (intro km_run.more [OF 1] km_run.more [OF 2] km_run.more [OF 3] km_run.idle)
  then show ?thesis by blast
qed

lemma km_ok_example: "km_ok km_server_example"
  using km_inv_example swap_ok_example(1)
  by (simp add: km_ok_def km_server_example_def) (simp add: km_example_def)


section \<open>Connecting a Memory Stick\<close>

lemma seg_bytes_append:
  assumes "memory_content m' = memory_content m @ extra"
    and "unat (seg_base seg) + unat (seg_size seg) \<le> length (memory_content m)"
  shows "seg_bytes m' seg = seg_bytes m seg"
  using assms by (simp add: seg_bytes_def slice_def)

text \<open>A Memory Stick that connects extends the memory at its end: the total grows by its size
  and is announced to Kernel Scheduler, the new bytes are the stick's, and everything the processes
  had keeps its place and its content.\<close>
theorem memory_stick_connected_extends:
  fixes ip port :: string
  assumes "km_inv (km srv)" and "fst (km_memory (km srv)) client_fd = Some st" and "stick_wf st"
    and "client_fd \<notin> ms_fd ` set (snd (km_memory (km srv)))"
    and "unat (total_memory_size (km srv)) + unat (stick_size st) < 2 ^ 30"
    and "kernel_scheduler srv = Some ks"
  defines "srv' \<equiv> memory_stick_protocol client_fd (stick_size st) ip port srv"
  shows "km_inv (km srv') \<and> user_view (km srv') = user_view (km srv) \<and>
    memory_content (km_memory (km srv')) = memory_content (km_memory (km srv)) @ stick_memory st \<and>
    unat (total_memory_size (km srv')) = unat (total_memory_size (km srv)) + unat (stick_size st) \<and>
    to_scheduler (km srv') = to_scheduler (km srv) @
      [package_add (u32_bytes (total_memory_size (km srv'))) (package_with MEMORY_UPDATE)]"
proof -
  obtain net infos where mem: "km_memory (km srv) = (net, infos)" by fastforce
  let ?s = "km srv" and ?s' = "km srv'"
  define info where "info = (create_memory_stick_info client_fd (next_memory_stick_id srv))\<lparr>ms_size := stick_size st\<rparr>"
  have s': "?s' = ?s\<lparr>total_memory_size := total_memory_size ?s + stick_size st,
      to_scheduler := to_scheduler ?s @ [package_add (u32_bytes (total_memory_size ?s + stick_size st))
        (package_with MEMORY_UPDATE)],
      km_memory := (net, infos @ [info])\<rparr>"
    by (simp add: srv'_def memory_stick_protocol_def memory_stick_announce_def memory_stick_register_def
        Let_def on_km_def send_on_def send_memory_update_def send_to_scheduler_def update_cpu_list_def
        assms(6) mem info_def)
  have tot: "unat (total_memory_size ?s + stick_size st) = unat (total_memory_size ?s) + unat (stick_size st)"
    using assms(5) by (intro u32_add_unat) simp
  have content: "memory_content (net, infos @ [info]) = memory_content (net, infos) @ stick_memory st"
    using assms(2) by (simp add: memory_content_def stick_bytes_def info_def create_memory_stick_info_def mem)
  have len: "length (memory_content (net, infos)) = unat (total_memory_size ?s)"
    "length (stick_memory st) = unat (stick_size st)"
    using assms(1,3) by (simp_all add: km_inv_def mem stick_wf_def)
  have "memory_valid (net, infos)" using assms(1) by (simp add: km_inv_def mem)
  then have valid: "memory_valid (net, infos @ [info])"
    using assms(2-5) len content
    by (auto simp: memory_valid_def sticks_ok_def link_ok_def info_def create_memory_stick_info_def mem
        memory_content_def)
  have "placed (unat (total_memory_size ?s)) (occupied ?s)" using assms(1) by (simp add: km_inv_def)
  then have "placed (unat (total_memory_size ?s + stick_size st)) (occupied ?s)"
    by (auto simp: placed_def tot)
  then have inv: "km_inv ?s'"
    using valid content len tot by (simp add: s' km_inv_def occupied_def)
  have "seg_bytes (net, infos @ [info]) seg = seg_bytes (net, infos) seg"
    if "p \<in> set (list_processes ?s)" "seg \<in> set (segment_table p)" for p seg
    using km_inv_seg_ok(1) [OF assms(1) that] by (intro seg_bytes_append [OF content]) (simp add: seg_ok_def mem)
  then have "user_view ?s' = user_view ?s"
    by (simp add: s' user_view_def process_view_def mem)
  with inv show ?thesis by (simp add: s' content mem tot)
qed

theorem memory_stick_connected_extends_witness:
  "\<exists>srv :: km_server. km_inv (km srv) \<and> memory_content (km_memory (km srv)) = [1, 2, 3, 4, 5, 6, 7, 9, 9] \<and>
    total_memory_size (km srv) = 9"
proof -
  define net where "net = (fst two_sticks)(12 \<mapsto> \<lparr>stick_size = 2, stick_memory = [9, 9]\<rparr>)"
  define s where "s = km_example\<lparr>km_memory := (net, snd two_sticks)\<rparr>"
  define srv where "srv = km_server_example\<lparr>km := s\<rparr>"
  have "memory_valid (net, snd two_sticks)" and c: "memory_content (net, snd two_sticks) = [1, 2, 3, 4, 5, 6, 7]"
    by (simp_all add: net_def two_sticks_def memory_valid_def memory_content_def sticks_ok_def link_ok_def
        stick_wf_def stick_bytes_def)
  then have i: "km_inv (km srv)"
    using placed_example by (simp add: srv_def s_def km_inv_def occupied_def)
  have "unat (total_memory_size (km srv)) = 7" by (simp add: srv_def s_def km_example_def)
  then have t: "unat (total_memory_size (km srv)) + unat (2 :: u32) < 2 ^ 30" by simp
  have m: "fst (km_memory (km srv)) 12 = Some \<lparr>stick_size = 2, stick_memory = [9, 9]\<rparr>"
    "12 \<notin> ms_fd ` set (snd (km_memory (km srv)))" "kernel_scheduler srv = Some 4"
    by (simp_all add: srv_def s_def net_def two_sticks_def km_server_example_def)
  let ?srv = "memory_stick_protocol 12 2 ''10.0.0.9'' ''8004'' srv"
  have r: "km_inv (km ?srv) \<and> memory_content (km_memory (km ?srv)) = [1, 2, 3, 4, 5, 6, 7] @ [9, 9] \<and>
      unat (total_memory_size (km ?srv)) = 9"
    using memory_stick_connected_extends [OF i m(1) _ m(2) _ m(3), of "''10.0.0.9''" "''8004''"] t c
    by (simp add: stick_wf_def srv_def s_def)
  then have "unat (total_memory_size (km ?srv)) = unat (9 :: u32)" by simp
  then have "total_memory_size (km ?srv) = 9" by (simp only: word_unat_eq_iff)
  with r show ?thesis by (intro exI [of _ ?srv]) simp
qed

end
