(* ===== verification/CPU_State.thy ===== *)
theory CPU_State
  imports Memory_Access
begin

text \<open>
  The state of a CPU and what its instructions stand on (\<open>cpu/src/manage_instructions.c\<close>,
  \<open>cpu/src/main.c\<close>): the accesses to the Memory Sticks, the registers, and the MMU. What is
  sent to Kernel Memory and to Kernel Scheduler is one log, so that the order between the two
  connections can be stated.
\<close>

section \<open>Access to the Memory Sticks\<close>

definition cpu_stick_handler ::
  "op_code \<Rightarrow> byte list \<Rightarrow> t_memory_stick_info \<Rightarrow> t_memory_stick_info run" where
  "cpu_stick_handler op buffer mem_stick =
     (case op of
        MS_READ_RESPONSE \<Rightarrow>
          and_then (of_option (get_field buffer)) (\<lambda>(data, _).
            Ret (mem_stick\<lparr>last_read_buffer := Some data\<rparr>))
      | MS_WRITE_RESPONSE \<Rightarrow>
          and_then (of_option (bool_deserialize buffer)) (\<lambda>(result, _).
            if \<not> result then Ret (mem_stick\<lparr>last_op_result := None\<rparr>)
            else Ret (mem_stick\<lparr>last_op_result := Some MS_WRITE_RESPONSE\<rparr>))
      | _ \<Rightarrow> Blocks)"

definition cpu_exchange :: exchange where
  "cpu_exchange net ms request =
     (case net (ms_fd ms) of
        None \<Rightarrow> Blocks
      | Some stick \<Rightarrow>
          and_then (stick_cpu_handler (pkg_op request) (stream request) stick)
            (\<lambda>(stick', response).
              case response of
                None \<Rightarrow> Blocks
              | Some r \<Rightarrow> and_then (cpu_stick_handler (pkg_op r) (stream r) ms)
                  (\<lambda>ms'. Ret (net(ms_fd ms \<mapsto> stick'), ms'))))"

definition cpu_memory_read :: "memory \<Rightarrow> u32 \<Rightarrow> u32 \<Rightarrow> (byte list option \<times> memory) run" where
  "cpu_memory_read = memory_read_with cpu_exchange"

definition cpu_memory_write :: "memory \<Rightarrow> u32 \<Rightarrow> byte list \<Rightarrow> u32 \<Rightarrow> (bool \<times> memory) run" where
  "cpu_memory_write = memory_write_with cpu_exchange"

interpretation cpu_link: stick_link cpu_exchange
proof unfold_locales
  fix net ms st and off n :: u32
  assume a: "link_ok net ms" "net (ms_fd ms) = Some st"
    "unat off + unat n \<le> unat (ms_size ms)" "unat n < 2 ^ 30"
  then have w: "stick_wf st" "stick_size st = ms_size ms" by (auto simp: link_ok_def)
  then have "length (slice (unat off) (unat n) (stick_memory st)) = unat n"
    using a(3) by (simp add: stick_wf_def)
  then have "get_field (field (slice (unat off) (unat n) (stick_memory st))) =
      Some (slice (unat off) (unat n) (stick_memory st), [])"
    using a(4) by (intro get_field_field(2)) simp
  then show "\<exists>ms'. cpu_exchange net ms (ms_read_request off n) = Ret (net, ms') \<and>
        last_read_buffer ms' = Some (slice (unat off) (unat n) (stick_memory st))"
    using a w handle_read_ok [of st off n]
    by (simp add: cpu_exchange_def stick_cpu_handler_def cpu_stick_handler_def
        map_upd_triv del: requests(3))
next
  fix net ms st and off n :: u32 and d :: "byte list"
  assume a: "link_ok net ms" "net (ms_fd ms) = Some st"
    "unat off + unat n \<le> unat (ms_size ms)" "length d = unat n"
  then have w: "stick_wf st" "stick_size st = ms_size ms" by (auto simp: link_ok_def)
  show "\<exists>ms'. cpu_exchange net ms (ms_write_request off n d) =
          Ret (net(ms_fd ms \<mapsto> st\<lparr>stick_memory := overwrite (unat off) d (stick_memory st)\<rparr>), ms') \<and>
        last_op_result ms' = Some MS_WRITE_RESPONSE"
    using a w handle_write_ok [of st off n d]
    by (simp add: cpu_exchange_def stick_cpu_handler_def cpu_stick_handler_def
        ms_write_response_def del: requests(4))
qed

lemmas cpu_read = cpu_link.store.rd [folded cpu_memory_read_def]
lemmas cpu_write = cpu_link.store.wr [folded cpu_memory_write_def]

section \<open>State\<close>

datatype peer = To_memory | To_scheduler

record cpu_state =
  interrupt_pending :: bool
  interrupt_reason :: t_interrupt_reason
  should_exit :: bool
  should_stop :: bool
  stop_reason :: t_interrupt_reason
  cpu_memory :: memory
  cpu_segment_max_size :: u32
  sent :: "(peer \<times> t_package) list"

definition send_to :: "peer \<Rightarrow> t_package \<Rightarrow> cpu_state \<Rightarrow> cpu_state" where
  "send_to p pkg s = s\<lparr>sent := sent s @ [(p, pkg)]\<rparr>"

definition send_process_interrupted :: "u32 \<Rightarrow> t_interrupt_reason \<Rightarrow> cpu_state \<Rightarrow> cpu_state" where
  "send_process_interrupted pid reason =
     send_to To_scheduler (package_add (u32_bytes (reason_int reason))
       (package_add (u32_bytes pid) (package_with PROCESS_INTERRUPTED)))"

text \<open>A stick the CPU learns of is appended to its list, in the order of the announcements.\<close>

definition connect_with_memory_stick :: "fd \<Rightarrow> t_memory_stick_credentials \<Rightarrow> cpu_state \<Rightarrow> cpu_state" where
  "connect_with_memory_stick memory_stick_fd cred s =
     s\<lparr>cpu_memory := (fst (cpu_memory s), snd (cpu_memory s) @
       [\<lparr>ms_fd = memory_stick_fd, ms_id = cred_id cred, ms_size = cred_size cred,
         last_op_result = None, last_read_buffer = None\<rparr>])\<rparr>"

section \<open>The C library functions the instructions use\<close>

definition to_lower :: "char \<Rightarrow> char" where
  "to_lower c =
     (let n = (of_char c :: nat) in if 65 \<le> n \<and> n \<le> 90 then char_of (n + 32) else c)"

definition strcasecmp_eq :: "string \<Rightarrow> string \<Rightarrow> bool" where
  "strcasecmp_eq a b \<longleftrightarrow> map to_lower a = map to_lower b"

definition is_space :: "char \<Rightarrow> bool" where
  "is_space c \<longleftrightarrow> c = CHR '' '' \<or> (9 \<le> (of_char c :: nat) \<and> (of_char c :: nat) \<le> 13)"

definition digit_of :: "char \<Rightarrow> int option" where
  "digit_of c =
     (let n = (of_char c :: nat) in if 48 \<le> n \<and> n \<le> 57 then Some (int n - 48) else None)"

fun read_digits :: "int \<Rightarrow> string \<Rightarrow> int" where
  "read_digits acc [] = acc"
| "read_digits acc (c # cs) =
     (case digit_of c of None \<Rightarrow> acc | Some d \<Rightarrow> read_digits (10 * acc + d) cs)"

definition atoi_int :: "string \<Rightarrow> int" where
  "atoi_int s =
     (case dropWhile is_space s of
        [] \<Rightarrow> 0
      | c # cs \<Rightarrow>
          if c = CHR ''-'' then - read_digits 0 cs
          else if c = CHR ''+'' then read_digits 0 cs else read_digits 0 (c # cs))"

text \<open>\<open>atoi\<close>, read as the \<open>uint32_t\<close> it is assigned to; \<open>sint\<close> of it is the \<open>int\<close>. The
  standard leaves a value that is no \<open>int\<close> undefined; like the library the code is built with, the
  low 32 bits are taken.\<close>

definition atoi :: "string \<Rightarrow> u32" where
  "atoi s = of_int (atoi_int s)"

text \<open>An operand that is not there is the NULL behind the last string of the array.\<close>

definition operand :: "nat \<Rightarrow> string list \<Rightarrow> string run" where
  "operand i decoded = (if i < length decoded then Ret (decoded ! i) else Undef)"

section \<open>Registers\<close>

datatype t_register = AX | BX | CX | DX | EAX | EBX | ECX | EDX | SI | DI | PC

text \<open>\<open>get_register_descriptor\<close>: the field, and its size in bytes; \<open>None\<close> is the NULL
  address.\<close>

definition get_register_descriptor :: "string \<Rightarrow> t_register option" where
  "get_register_descriptor register_name =
     (if strcasecmp_eq register_name ''ax'' then Some AX
      else if strcasecmp_eq register_name ''bx'' then Some BX
      else if strcasecmp_eq register_name ''cx'' then Some CX
      else if strcasecmp_eq register_name ''dx'' then Some DX
      else if strcasecmp_eq register_name ''eax'' then Some EAX
      else if strcasecmp_eq register_name ''ebx'' then Some EBX
      else if strcasecmp_eq register_name ''ecx'' then Some ECX
      else if strcasecmp_eq register_name ''edx'' then Some EDX
      else if strcasecmp_eq register_name ''si'' then Some SI
      else if strcasecmp_eq register_name ''di'' then Some DI
      else if strcasecmp_eq register_name ''pc'' then Some PC
      else None)"

fun field_size :: "t_register \<Rightarrow> u32" where
  "field_size AX = 1"
| "field_size BX = 1"
| "field_size CX = 1"
| "field_size DX = 1"
| "field_size EAX = 4"
| "field_size EBX = 4"
| "field_size ECX = 4"
| "field_size EDX = 4"
| "field_size SI = 4"
| "field_size DI = 4"
| "field_size PC = 4"

fun get_register :: "t_register \<Rightarrow> t_cpu_context \<Rightarrow> u32" where
  "get_register AX c = ucast (ax c)"
| "get_register BX c = ucast (bx c)"
| "get_register CX c = ucast (cx c)"
| "get_register DX c = ucast (dx c)"
| "get_register EAX c = eax c"
| "get_register EBX c = ebx c"
| "get_register ECX c = ecx c"
| "get_register EDX c = edx c"
| "get_register SI c = si c"
| "get_register DI c = di c"
| "get_register PC c = pc c"

fun set_register :: "t_register \<Rightarrow> u32 \<Rightarrow> t_cpu_context \<Rightarrow> t_cpu_context" where
  "set_register AX v c = c\<lparr>ax := ucast v\<rparr>"
| "set_register BX v c = c\<lparr>bx := ucast v\<rparr>"
| "set_register CX v c = c\<lparr>cx := ucast v\<rparr>"
| "set_register DX v c = c\<lparr>dx := ucast v\<rparr>"
| "set_register EAX v c = c\<lparr>eax := v\<rparr>"
| "set_register EBX v c = c\<lparr>ebx := v\<rparr>"
| "set_register ECX v c = c\<lparr>ecx := v\<rparr>"
| "set_register EDX v c = c\<lparr>edx := v\<rparr>"
| "set_register SI v c = c\<lparr>si := v\<rparr>"
| "set_register DI v c = c\<lparr>di := v\<rparr>"
| "set_register PC v c = c\<lparr>pc := v\<rparr>"

definition read_register_value :: "t_cpu_context \<Rightarrow> string \<Rightarrow> u32" where
  "read_register_value c register_name =
     (case get_register_descriptor register_name of None \<Rightarrow> 0 | Some r \<Rightarrow> get_register r c)"

definition write_register_value :: "t_cpu_context \<Rightarrow> string \<Rightarrow> u32 \<Rightarrow> bool \<times> t_cpu_context" where
  "write_register_value c register_name value =
     (case get_register_descriptor register_name of
        None \<Rightarrow> (False, c)
      | Some r \<Rightarrow> (True, set_register r value c))"

definition check_if_register :: "string \<Rightarrow> bool" where
  "check_if_register name \<longleftrightarrow>
     strcasecmp_eq name ''ax'' \<or> strcasecmp_eq name ''bx'' \<or> strcasecmp_eq name ''cx'' \<or>
     strcasecmp_eq name ''dx'' \<or> strcasecmp_eq name ''eax'' \<or> strcasecmp_eq name ''ebx'' \<or>
     strcasecmp_eq name ''ecx'' \<or> strcasecmp_eq name ''edx'' \<or> strcasecmp_eq name ''si'' \<or>
     strcasecmp_eq name ''di'' \<or> strcasecmp_eq name ''pc''"

section \<open>The MMU\<close>

definition segmentation_fault :: "u32 \<Rightarrow> cpu_state \<Rightarrow> cpu_state" where
  "segmentation_fault pid s =
     (send_to To_scheduler (package_add (u32_bytes pid) (package_with SEGMENTATION_FAULT)) s)
       \<lparr>should_exit := True\<rparr>"

definition mmu_translate :: "u32 \<Rightarrow> u32 \<Rightarrow> t_segment list \<Rightarrow> u32 \<Rightarrow> cpu_state \<Rightarrow> (u32 \<times> cpu_state) run"
where
  "mmu_translate logical_address sz segment_table pid s =
     (if cpu_segment_max_size s = 0 then Undef
      else
        let num_segment = logical_address div cpu_segment_max_size s;
            seg_offset = logical_address mod cpu_segment_max_size s
        in case List.find (\<lambda>seg. segment_id seg = num_segment) segment_table of
             None \<Rightarrow> Ret (0, segmentation_fault pid s)
           | Some segment \<Rightarrow>
               if seg_offset + sz > seg_size segment then Ret (0, segmentation_fault pid s)
               else Ret (seg_base segment + seg_offset, s))"

lemma check_if_register_iff: "check_if_register name \<longleftrightarrow> get_register_descriptor name \<noteq> None"
  by (simp add: check_if_register_def get_register_descriptor_def)

lemma descriptor_pc: "get_register_descriptor name = Some PC \<longleftrightarrow> strcasecmp_eq name ''pc''"
  by (auto simp: get_register_descriptor_def strcasecmp_eq_def to_lower_def split: if_splits)

lemma get_set_register:
  "get_register r (set_register r v c) = (if field_size r = 1 then ucast (ucast v :: u8) else v)"
  by (cases r) simp_all

lemma get_set_other: "r \<noteq> r' \<Longrightarrow> get_register r (set_register r' v c) = get_register r c"
  by (cases r; cases r') simp_all

lemma mmu_translate_cases:
  assumes "cpu_segment_max_size s \<noteq> 0"
  obtains (fault) "mmu_translate a sz tbl pid s = Ret (0, segmentation_fault pid s)"
  | (hit) seg where "seg \<in> set tbl" "segment_id seg = a div cpu_segment_max_size s"
      "\<not> a mod cpu_segment_max_size s + sz > seg_size seg"
      "mmu_translate a sz tbl pid s = Ret (seg_base seg + a mod cpu_segment_max_size s, s)"
proof (cases "List.find (\<lambda>seg. segment_id seg = a div cpu_segment_max_size s) tbl")
  case None
  with assms show ?thesis by (intro fault) (simp add: mmu_translate_def)
next
  case (Some seg)
  then have "seg \<in> set tbl" "segment_id seg = a div cpu_segment_max_size s"
    using find_Some_iff_set by fastforce+
  with Some assms show ?thesis
    by (cases "a mod cpu_segment_max_size s + sz > seg_size seg")
      (auto intro: fault hit simp: mmu_translate_def Let_def)
qed

lemma mmu_translate_bounds:
  assumes "cpu_segment_max_size s \<noteq> 0"
    and "unat (cpu_segment_max_size s) + unat sz \<le> 2 ^ 32"
    and "\<forall>seg \<in> set tbl. unat (seg_base seg) + unat (seg_size seg) < 2 ^ 32"
  shows "mmu_translate a sz tbl pid s = Ret (0, segmentation_fault pid s) \<or>
    (\<exists>seg \<in> set tbl. \<exists>p. mmu_translate a sz tbl pid s = Ret (p, s) \<and>
       segment_id seg = a div cpu_segment_max_size s \<and>
       unat p = unat (seg_base seg) + unat (a mod cpu_segment_max_size s) \<and>
       unat p + unat sz \<le> unat (seg_base seg) + unat (seg_size seg))"
  using assms(1)
proof (cases rule: mmu_translate_cases [of s a sz tbl pid])
  case fault
  then show ?thesis by simp
next
  case (hit seg)
  let ?off = "a mod cpu_segment_max_size s"
  have "unat ?off < unat (cpu_segment_max_size s)"
    using assms(1) by (simp add: unat_mod word_neq_0_conv word_less_nat_alt)
  then have "unat ?off + unat sz < 4294967296" using assms(2) by simp
  then have "unat (?off + sz) = unat ?off + unat sz" by (rule u32_add_unat)
  then have fit: "unat ?off + unat sz \<le> unat (seg_size seg)"
    using hit(3) by (simp add: u32_less_iff not_less)
  moreover have "unat (seg_base seg + ?off) = unat (seg_base seg) + unat ?off"
    using fit assms(3) hit(1) by (intro u32_add_unat) fastforce
  ultimately show ?thesis using hit by auto
qed

text \<open>C35: the MMU only ever gives out addresses inside of the process's own segments: an access
  that is translated without a segmentation fault lies, with all its bytes, in one segment of the
  table, at the offset the logical address says; in every other case Kernel Scheduler is told of
  the fault and the process is marked to exit. The size of the access must be one that cannot wrap
  the 32-bit addition of the bounds check.\<close>
theorem mmu_translate_in_segment:
  assumes "cpu_segment_max_size s \<noteq> 0"
    and "unat (cpu_segment_max_size s) + unat sz \<le> 2 ^ 32"
    and "\<forall>seg \<in> set tbl. unat (seg_base seg) + unat (seg_size seg) < 2 ^ 32"
  shows "mmu_translate a sz tbl pid s = Ret (0, segmentation_fault pid s) \<or>
    (\<exists>seg \<in> set tbl. \<exists>p. mmu_translate a sz tbl pid s = Ret (p, s) \<and>
       segment_id seg = a div cpu_segment_max_size s \<and>
       unat p = unat (seg_base seg) + unat (a mod cpu_segment_max_size s) \<and>
       unat p + unat sz \<le> unat (seg_base seg) + unat (seg_size seg))"
  by (rule mmu_translate_bounds [OF assms])

definition cpu_example :: cpu_state where
  "cpu_example =
     \<lparr>interrupt_pending = False, interrupt_reason = QUANTUM_EXPIRED, should_exit = False,
      should_stop = False, stop_reason = QUANTUM_EXPIRED,
      cpu_memory = ([10 \<mapsto> \<lparr>stick_size = 8, stick_memory = [1, 2, 3, 4, 5, 6, 7, 8]\<rparr>],
        [\<lparr>ms_fd = 10, ms_id = 0, ms_size = 8, last_op_result = None, last_read_buffer = None\<rparr>]),
      cpu_segment_max_size = 64, sent = []\<rparr>"

theorem mmu_translate_in_segment_witness:
  "\<exists>p. mmu_translate 65 2 [\<lparr>segment_id = 1, seg_base = 4, seg_size = 3\<rparr>] 7 cpu_example = Ret (p, cpu_example) \<and>
    unat p = 5"
proof -
  have nf: "mmu_translate 65 2 [\<lparr>segment_id = 1, seg_base = 4, seg_size = 3\<rparr>] 7 cpu_example \<noteq>
      Ret (0, segmentation_fault 7 cpu_example)"
    by (simp add: mmu_translate_def cpu_example_def segmentation_fault_def send_to_def)
  have m: "cpu_segment_max_size cpu_example = 64" by (simp add: cpu_example_def)
  from mmu_translate_in_segment [of cpu_example 2 "[\<lparr>segment_id = 1, seg_base = 4, seg_size = 3\<rparr>]" 65 7] nf m
  show ?thesis by auto
qed

text \<open>C40: that condition is needed: with a size close to \<open>2 ^ 32\<close>, which \<open>COPY_MEM\<close> takes
  from a register, the check \<open>seg_offset + size > segment->size\<close> wraps around and an access far
  outside of the segment is let through.\<close>
theorem mmu_translate_check_wraps:
  assumes "unat (cpu_segment_max_size s) > 1" and "segment_id seg = 0" and "seg_size seg \<noteq> 0"
  shows "mmu_translate 1 0xFFFFFFFF [seg] pid s = Ret (seg_base seg + 1, s)"
proof -
  have nz: "cpu_segment_max_size s \<noteq> 0" and lt: "(1 :: u32) < cpu_segment_max_size s"
    using assms(1) by (auto simp: u32_less_iff)
  have "(1 :: u32) div cpu_segment_max_size s = 0" "(1 :: u32) mod cpu_segment_max_size s = 1"
    using assms(1) by (simp_all add: word_unat_eq_iff unat_div unat_mod)
  moreover have "(1 :: u32) + 0xFFFFFFFF = 0" by (rule word_unat_eq_iff [THEN iffD2]) simp
  ultimately show ?thesis using nz assms(2,3) by (simp only: mmu_translate_def Let_def) simp
qed

theorem mmu_translate_check_wraps_witness:
  "mmu_translate 1 0xFFFFFFFF [\<lparr>segment_id = 0, seg_base = 4, seg_size = 3\<rparr>] 7 cpu_example = Ret (5, cpu_example)"
  using mmu_translate_check_wraps [of cpu_example "\<lparr>segment_id = 0, seg_base = 4, seg_size = 3\<rparr>" 7]
  by (simp add: cpu_example_def)

end
