(* ===== verification/CPU_Instructions.thy ===== *)
theory CPU_Instructions
  imports CPU_State
begin

text \<open>
  The instructions of a CPU (\<open>execute_instruction\<close> and the functions it calls,
  \<open>cpu/src/manage_instructions.c\<close>). Each gets the decoded instruction (the strings
  \<open>string_split\<close> made of it), the context, the state of the CPU and whether a jump has
  happened. An operand that the program left out is a NULL that is dereferenced: \<open>Undef\<close>.
\<close>

datatype t_instruction_type =
    NOOP | SET | MOV_IN | MOV_OUT | INS_SUM | SUB | JNZ | COPY_MEM
  | INS_MUTEX_CREATE | INS_MUTEX_LOCK | INS_MUTEX_UNLOCK | INS_MEM_ALLOC | INS_MEM_FREE
  | INS_SLEEP | INS_STDOUT | INS_STDIN | INS_INIT_PROC | INS_EXIT | UNKNOWN

definition instruction_to_type :: "string \<Rightarrow> t_instruction_type" where
  "instruction_to_type mnemonic =
     (if mnemonic = ''NOOP'' then NOOP
      else if mnemonic = ''SET'' then SET
      else if mnemonic = ''MOV_IN'' then MOV_IN
      else if mnemonic = ''MOV_OUT'' then MOV_OUT
      else if mnemonic = ''SUM'' then INS_SUM
      else if mnemonic = ''SUB'' then SUB
      else if mnemonic = ''JNZ'' then JNZ
      else if mnemonic = ''COPY_MEM'' then COPY_MEM
      else if mnemonic = ''MUTEX_CREATE'' then INS_MUTEX_CREATE
      else if mnemonic = ''MUTEX_LOCK'' then INS_MUTEX_LOCK
      else if mnemonic = ''MUTEX_UNLOCK'' then INS_MUTEX_UNLOCK
      else if mnemonic = ''MEM_ALLOC'' then INS_MEM_ALLOC
      else if mnemonic = ''MEM_FREE'' then INS_MEM_FREE
      else if mnemonic = ''SLEEP'' then INS_SLEEP
      else if mnemonic = ''STDOUT'' then INS_STDOUT
      else if mnemonic = ''STDIN'' then INS_STDIN
      else if mnemonic = ''INIT_PROC'' then INS_INIT_PROC
      else if mnemonic = ''EXIT'' then INS_EXIT
      else UNKNOWN)"

text \<open>The context, whether the instruction jumped, and the CPU.\<close>

type_synonym exec = "t_cpu_context \<times> bool \<times> cpu_state"

section \<open>Registers and jumps\<close>

definition instruction_set :: "string list \<Rightarrow> exec \<Rightarrow> exec run" where
  "instruction_set decoded = (\<lambda>(c, jumped, s).
     and_then (operand 1 decoded) (\<lambda>reg.
       if \<not> check_if_register reg then Ret (c, jumped, s)
       else and_then (operand 2 decoded) (\<lambda>val.
         Ret (snd (write_register_value c reg (atoi val)), jumped \<or> strcasecmp_eq reg ''pc'', s))))"

definition instruction_sum :: "string list \<Rightarrow> exec \<Rightarrow> exec run" where
  "instruction_sum decoded = (\<lambda>(c, jumped, s).
     and_then (operand 1 decoded) (\<lambda>dst.
       if \<not> check_if_register dst then Ret (c, jumped, s)
       else and_then (operand 2 decoded) (\<lambda>src.
         if \<not> check_if_register src then Ret (c, jumped, s)
         else Ret (snd (write_register_value c dst
                     (read_register_value c dst + read_register_value c src)),
                   jumped \<or> strcasecmp_eq dst ''pc'', s))))"

definition instruction_sub :: "string list \<Rightarrow> exec \<Rightarrow> exec run" where
  "instruction_sub decoded = (\<lambda>(c, jumped, s).
     and_then (operand 1 decoded) (\<lambda>dst.
       if \<not> check_if_register dst then Ret (c, jumped, s)
       else and_then (operand 2 decoded) (\<lambda>src.
         if \<not> check_if_register src then Ret (c, jumped, s)
         else Ret (snd (write_register_value c dst
                     (read_register_value c dst - read_register_value c src)),
                   jumped \<or> strcasecmp_eq dst ''pc'', s))))"

definition instruction_jnz :: "string list \<Rightarrow> exec \<Rightarrow> exec run" where
  "instruction_jnz decoded = (\<lambda>(c, jumped, s).
     and_then (operand 1 decoded) (\<lambda>reg.
       if \<not> check_if_register reg then Ret (c, jumped, s)
       else and_then (operand 2 decoded) (\<lambda>target.
         if sint (atoi target) \<le> 0 then Ret (c, jumped, s)
         else if read_register_value c reg \<noteq> 0
         then Ret (c\<lparr>pc := atoi target\<rparr>, True, s) else Ret (c, jumped, s))))"

section \<open>Memory\<close>

text \<open>The bytes of a register in memory, and the register they are read into.\<close>

definition register_bytes :: "t_register \<Rightarrow> u32 \<Rightarrow> byte list" where
  "register_bytes r value = take (unat (field_size r)) (u32_bytes value)"

definition value_of_bytes :: "byte list \<Rightarrow> u32" where
  "value_of_bytes bs = (case bs of [a] \<Rightarrow> ucast a | [a, b, c, d] \<Rightarrow> bytes_u32 a b c d | _ \<Rightarrow> 0)"

definition instruction_mov_in :: "string list \<Rightarrow> u32 \<Rightarrow> t_segment list \<Rightarrow> exec \<Rightarrow> exec run" where
  "instruction_mov_in decoded pid segment_table = (\<lambda>(c, jumped, s).
     and_then (operand 1 decoded) (\<lambda>reg.
       case get_register_descriptor reg of
         None \<Rightarrow> Ret (c, jumped, s)
       | Some r \<Rightarrow>
           and_then (mmu_translate (si c) (field_size r) segment_table pid s) (\<lambda>(physical_address, s1).
             if should_exit s1 then Ret (c, jumped, s1)
             else and_then (cpu_memory_read (cpu_memory s1) physical_address (field_size r)) (\<lambda>(data, m).
               case data of
                 None \<Rightarrow> Ret (c, jumped, s1\<lparr>cpu_memory := m\<rparr>)
               | Some d \<Rightarrow> Ret (set_register r (value_of_bytes d) c, jumped \<or> strcasecmp_eq reg ''pc'',
                             s1\<lparr>cpu_memory := m\<rparr>)))))"

definition instruction_mov_out :: "string list \<Rightarrow> u32 \<Rightarrow> t_segment list \<Rightarrow> exec \<Rightarrow> exec run" where
  "instruction_mov_out decoded pid segment_table = (\<lambda>(c, jumped, s).
     and_then (operand 1 decoded) (\<lambda>reg.
       case get_register_descriptor reg of
         None \<Rightarrow> Ret (c, jumped, s)
       | Some r \<Rightarrow>
           and_then (mmu_translate (di c) (field_size r) segment_table pid s) (\<lambda>(physical_address, s1).
             if should_exit s1 then Ret (c, jumped, s1)
             else and_then (cpu_memory_write (cpu_memory s1) physical_address
                     (register_bytes r (get_register r c)) (field_size r)) (\<lambda>(ok, m).
               Ret (c, jumped, s1\<lparr>cpu_memory := m\<rparr>)))))"

definition instruction_copy_mem :: "string list \<Rightarrow> u32 \<Rightarrow> t_segment list \<Rightarrow> exec \<Rightarrow> exec run" where
  "instruction_copy_mem decoded pid segment_table = (\<lambda>(c, jumped, s).
     and_then (operand 1 decoded) (\<lambda>reg.
       if \<not> check_if_register reg then Ret (c, jumped, s)
       else let sz = read_register_value c reg in
         and_then (mmu_translate (si c) sz segment_table pid s) (\<lambda>(physical_src, s1).
           if should_exit s1 then Ret (c, jumped, s1)
           else and_then (mmu_translate (di c) sz segment_table pid s1) (\<lambda>(physical_dst, s2).
             if should_exit s2 then Ret (c, jumped, s2)
             else and_then (cpu_memory_read (cpu_memory s2) physical_src sz) (\<lambda>(data, m).
               case data of
                 None \<Rightarrow> Ret (c, jumped, s2\<lparr>cpu_memory := m\<rparr>)
               | Some d \<Rightarrow>
                   and_then (cpu_memory_write m physical_dst d sz) (\<lambda>(ok, m').
                     Ret (c, jumped, s2\<lparr>cpu_memory := m'\<rparr>)))))))"

section \<open>System calls\<close>

text \<open>
  The part all blocking system calls share: the program counter is advanced, the process is marked
  to stop, and its context is saved in Kernel Memory. The request goes to Kernel Scheduler after
  that.
\<close>

definition stop_for :: "t_interrupt_reason \<Rightarrow> u32 \<Rightarrow> t_cpu_context \<Rightarrow> cpu_state \<Rightarrow> exec" where
  "stop_for reason pid c s =
     (let c' = c\<lparr>pc := pc c + 1\<rparr>
      in (c', True, send_to To_memory (context_send c' pid)
            (s\<lparr>stop_reason := reason, should_stop := True\<rparr>)))"

definition system_call :: "t_interrupt_reason \<Rightarrow> t_package \<Rightarrow> u32 \<Rightarrow> t_cpu_context \<Rightarrow> cpu_state \<Rightarrow> exec run"
where
  "system_call reason pkg pid c s =
     (case stop_for reason pid c s of (c', jumped, s') \<Rightarrow> Ret (c', jumped, send_to To_scheduler pkg s'))"

definition mutex_package :: "op_code \<Rightarrow> u32 \<Rightarrow> string \<Rightarrow> t_package" where
  "mutex_package op pid name =
     package_add (string_bytes name) (package_add (u32_bytes pid) (package_with op))"

definition instruction_mutex_create :: "string list \<Rightarrow> u32 \<Rightarrow> exec \<Rightarrow> exec run" where
  "instruction_mutex_create decoded pid = (\<lambda>(c, jumped, s).
     and_then (operand 1 decoded) (\<lambda>name.
       system_call MUTEX_REQUEST (mutex_package MUTEX_CREATE pid name) pid c s))"

definition instruction_mutex_lock :: "string list \<Rightarrow> u32 \<Rightarrow> exec \<Rightarrow> exec run" where
  "instruction_mutex_lock decoded pid = (\<lambda>(c, jumped, s).
     and_then (operand 1 decoded) (\<lambda>name.
       system_call MUTEX_REQUEST (mutex_package MUTEX_LOCK pid name) pid c s))"

definition instruction_mutex_unlock :: "string list \<Rightarrow> u32 \<Rightarrow> exec \<Rightarrow> exec run" where
  "instruction_mutex_unlock decoded pid = (\<lambda>(c, jumped, s).
     and_then (operand 1 decoded) (\<lambda>name.
       system_call MUTEX_REQUEST (mutex_package MUTEX_UNLOCK pid name) pid c s))"

definition u32_pair_package :: "op_code \<Rightarrow> u32 \<Rightarrow> u32 \<Rightarrow> t_package" where
  "u32_pair_package op a b = package_add (u32_bytes b) (package_add (u32_bytes a) (package_with op))"

definition u32_triple_package :: "op_code \<Rightarrow> u32 \<Rightarrow> u32 \<Rightarrow> u32 \<Rightarrow> t_package" where
  "u32_triple_package op a b c =
     package_add (u32_bytes c) (package_add (u32_bytes b) (package_add (u32_bytes a) (package_with op)))"

definition instruction_mem_alloc :: "string list \<Rightarrow> u32 \<Rightarrow> exec \<Rightarrow> exec run" where
  "instruction_mem_alloc decoded pid = (\<lambda>(c, jumped, s).
     and_then (operand 1 decoded) (\<lambda>sid. and_then (operand 2 decoded) (\<lambda>sz.
       system_call MEMORY_REQUEST (u32_triple_package MEM_ALLOC pid (atoi sid) (atoi sz)) pid c s)))"

definition instruction_mem_free :: "string list \<Rightarrow> u32 \<Rightarrow> exec \<Rightarrow> exec run" where
  "instruction_mem_free decoded pid = (\<lambda>(c, jumped, s).
     and_then (operand 1 decoded) (\<lambda>sid.
       system_call MEMORY_REQUEST (u32_pair_package MEM_FREE pid (atoi sid)) pid c s))"

definition instruction_sleep :: "string list \<Rightarrow> u32 \<Rightarrow> exec \<Rightarrow> exec run" where
  "instruction_sleep decoded pid = (\<lambda>(c, jumped, s).
     and_then (operand 1 decoded) (\<lambda>time.
       system_call IO_REQUEST (u32_pair_package SLEEP pid (atoi time)) pid c s))"

text \<open>\<open>STDOUT\<close> and \<open>STDIN\<close>: the address is translated first, a fault ends the instruction.\<close>

definition instruction_std :: "op_code \<Rightarrow> string list \<Rightarrow> u32 \<Rightarrow> t_segment list \<Rightarrow> exec \<Rightarrow> exec run" where
  "instruction_std op decoded pid segment_table = (\<lambda>(c, jumped, s).
     and_then (operand 1 decoded) (\<lambda>addr_reg.
       if \<not> check_if_register addr_reg then Ret (c, jumped, s)
       else and_then (operand 2 decoded) (\<lambda>size_reg.
         if \<not> check_if_register size_reg then Ret (c, jumped, s)
         else let sz = read_register_value c size_reg in
           and_then (mmu_translate (read_register_value c addr_reg) sz segment_table pid s)
             (\<lambda>(physical_address, s1).
               if should_exit s1 then Ret (c, jumped, s1)
               else system_call IO_REQUEST (u32_triple_package op pid physical_address sz) pid c s1))))"

definition instruction_stdout :: "string list \<Rightarrow> u32 \<Rightarrow> t_segment list \<Rightarrow> exec \<Rightarrow> exec run" where
  "instruction_stdout = instruction_std STDOUT"

definition instruction_stdin :: "string list \<Rightarrow> u32 \<Rightarrow> t_segment list \<Rightarrow> exec \<Rightarrow> exec run" where
  "instruction_stdin = instruction_std STDIN"

text \<open>\<open>INIT_PROC\<close> and \<open>EXIT\<close> do not stop the process for a reason: the first goes on, the
  second marks it to exit.\<close>

definition instruction_init_proc :: "string list \<Rightarrow> u32 \<Rightarrow> exec \<Rightarrow> exec run" where
  "instruction_init_proc decoded pid = (\<lambda>(c, jumped, s).
     and_then (operand 2 decoded) (\<lambda>priority. and_then (operand 1 decoded) (\<lambda>path.
       Ret (c, jumped, send_to To_scheduler
         (package_add (string_bytes path) (u32_pair_package PROCESS_CREATE pid (atoi priority))) s))))"

definition instruction_exit :: "u32 \<Rightarrow> exec \<Rightarrow> exec run" where
  "instruction_exit pid = (\<lambda>(c, jumped, s).
     Ret (c, jumped, (send_to To_scheduler (package_add (u32_bytes pid) (package_with PROCESS_END)) s)
       \<lparr>should_exit := True\<rparr>))"

definition execute_instruction :: "string list \<Rightarrow> u32 \<Rightarrow> t_segment list \<Rightarrow> exec \<Rightarrow> exec run" where
  "execute_instruction decoded pid segment_table e =
     and_then (operand 0 decoded) (\<lambda>mnemonic.
       case instruction_to_type mnemonic of
         NOOP \<Rightarrow> Ret e
       | SET \<Rightarrow> instruction_set decoded e
       | MOV_IN \<Rightarrow> instruction_mov_in decoded pid segment_table e
       | MOV_OUT \<Rightarrow> instruction_mov_out decoded pid segment_table e
       | INS_SUM \<Rightarrow> instruction_sum decoded e
       | SUB \<Rightarrow> instruction_sub decoded e
       | JNZ \<Rightarrow> instruction_jnz decoded e
       | COPY_MEM \<Rightarrow> instruction_copy_mem decoded pid segment_table e
       | INS_MUTEX_CREATE \<Rightarrow> instruction_mutex_create decoded pid e
       | INS_MUTEX_LOCK \<Rightarrow> instruction_mutex_lock decoded pid e
       | INS_MUTEX_UNLOCK \<Rightarrow> instruction_mutex_unlock decoded pid e
       | INS_MEM_ALLOC \<Rightarrow> instruction_mem_alloc decoded pid e
       | INS_MEM_FREE \<Rightarrow> instruction_mem_free decoded pid e
       | INS_SLEEP \<Rightarrow> instruction_sleep decoded pid e
       | INS_STDOUT \<Rightarrow> instruction_stdout decoded pid segment_table e
       | INS_STDIN \<Rightarrow> instruction_stdin decoded pid segment_table e
       | INS_INIT_PROC \<Rightarrow> instruction_init_proc decoded pid e
       | INS_EXIT \<Rightarrow> instruction_exit pid e
       | UNKNOWN \<Rightarrow> Ret e)"

section \<open>Saving the context\<close>

lemma system_call_sent:
  assumes "system_call reason pkg pid c s = Ret (c', jumped, s')"
  shows "c' = c\<lparr>pc := pc c + 1\<rparr>" "jumped"
    "sent s' = sent s @ [(To_memory, context_send c' pid), (To_scheduler, pkg)]"
    "should_stop s'" "stop_reason s' = reason" "should_exit s' = should_exit s"
    "cpu_memory s' = cpu_memory s"
  using assms by (auto simp: system_call_def stop_for_def send_to_def Let_def)

lemma mmu_translate_frame:
  assumes "mmu_translate a sz tbl pid s = Ret (p, s')"
  shows "cpu_memory s' = cpu_memory s" "should_stop s' = should_stop s"
    "cpu_segment_max_size s' = cpu_segment_max_size s"
    "\<not> should_exit s' \<Longrightarrow> s' = s"
  using assms
  by (auto simp: mmu_translate_def segmentation_fault_def send_to_def Let_def split: if_splits option.splits)

lemmas instruction_defs = instruction_set_def instruction_sum_def instruction_sub_def
  instruction_jnz_def instruction_mov_in_def instruction_mov_out_def instruction_copy_mem_def
  instruction_mutex_create_def instruction_mutex_lock_def instruction_mutex_unlock_def
  instruction_mem_alloc_def instruction_mem_free_def instruction_sleep_def instruction_stdout_def
  instruction_stdin_def instruction_std_def instruction_init_proc_def instruction_exit_def

text \<open>
  A property of what an instruction leaves behind follows from the cases: an outcome with the
  flags and the memory as they were, a system call, a fault of the MMU, a write of the memory.
\<close>

lemma yields_operand: "(\<And>x. yields P (f x)) \<Longrightarrow> yields P (and_then (operand i decoded) f)"
  by (rule yields_and_then)

lemma yields_if: "(b \<Longrightarrow> yields P x) \<Longrightarrow> (\<not> b \<Longrightarrow> yields P y) \<Longrightarrow> yields P (if b then x else y)"
  by simp

lemma yields_mmu:
  assumes "\<And>s1. cpu_memory s1 = cpu_memory s \<Longrightarrow> should_stop s1 = should_stop s \<Longrightarrow> should_exit s1 \<Longrightarrow> P (f s1)"
    and "\<And>p. mmu_translate a sz tbl pid s = Ret (p, s) \<Longrightarrow> \<not> should_exit s \<Longrightarrow> yields P (k p s)"
  shows "yields P (and_then (mmu_translate a sz tbl pid s)
    (\<lambda>(p, s1). if should_exit s1 then Ret (f s1) else k p s1))"
proof (rule yields_and_then, clarify)
  fix p s1 assume m: "mmu_translate a sz tbl pid s = Ret (p, s1)"
  show "yields P (if should_exit s1 then Ret (f s1) else k p s1)"
  proof (cases "should_exit s1")
    case True
    with assms(1) mmu_translate_frame(1,2) [OF m] show ?thesis by simp
  next
    case False
    with mmu_translate_frame(4) [OF m] have "s1 = s" by blast
    with False m show ?thesis by (simp add: assms(2))
  qed
qed

lemmas yields_intros = yields_operand yields_if yields_mmu

definition stops_after_saving :: "exec \<Rightarrow> u32 \<Rightarrow> exec \<Rightarrow> bool" where
  "stops_after_saving e pid e' \<longleftrightarrow>
     (case (e, e') of ((c, _, s), (c', jumped', s')) \<Rightarrow>
        should_stop s' \<longrightarrow>
          c' = c\<lparr>pc := pc c + 1\<rparr> \<and> jumped' \<and>
          (\<exists>request. sent s' = sent s @ [(To_memory, context_send c' pid), (To_scheduler, request)]))"

lemma system_call_stops: "yields (stops_after_saving (c, j, s) pid) (system_call reason pkg pid c s)"
  unfolding yields_def using system_call_sent by (fastforce simp: stops_after_saving_def)

lemma quiet_exec: "\<not> should_stop s' \<Longrightarrow> stops_after_saving e pid (c', j', s')"
  by (cases e) (simp add: stops_after_saving_def)

lemma calls_stop:
  "yields (stops_after_saving (c, j, s) pid) (instruction_mutex_create decoded pid (c, j, s))"
  "yields (stops_after_saving (c, j, s) pid) (instruction_mutex_lock decoded pid (c, j, s))"
  "yields (stops_after_saving (c, j, s) pid) (instruction_mutex_unlock decoded pid (c, j, s))"
  "yields (stops_after_saving (c, j, s) pid) (instruction_mem_alloc decoded pid (c, j, s))"
  "yields (stops_after_saving (c, j, s) pid) (instruction_mem_free decoded pid (c, j, s))"
  "yields (stops_after_saving (c, j, s) pid) (instruction_sleep decoded pid (c, j, s))"
  unfolding instruction_defs prod.case by (intro yields_operand system_call_stops)+

lemma std_stops:
  assumes "\<not> should_stop s"
  shows "yields (stops_after_saving (c, j, s) pid) (instruction_std op decoded pid tbl (c, j, s))"
  unfolding instruction_std_def prod.case Let_def
  by (intro yields_intros system_call_stops) (simp_all add: quiet_exec assms)

lemma moves_quiet:
  assumes "\<not> should_stop s"
  shows "yields (\<lambda>(c', j', s'). \<not> should_stop s') (instruction_mov_in decoded pid tbl (c, j, s))"
    "yields (\<lambda>(c', j', s'). \<not> should_stop s') (instruction_mov_out decoded pid tbl (c, j, s))"
    "yields (\<lambda>(c', j', s'). \<not> should_stop s') (instruction_copy_mem decoded pid tbl (c, j, s))"
  unfolding instruction_defs prod.case Let_def using assms
  by (auto intro!: yields_and_then dest!: mmu_translate_frame(2) split: option.split)

lemma rest_quiet:
  assumes "\<not> should_stop s"
  shows "yields (\<lambda>(c', j', s'). \<not> should_stop s') (instruction_set decoded (c, j, s))"
    "yields (\<lambda>(c', j', s'). \<not> should_stop s') (instruction_sum decoded (c, j, s))"
    "yields (\<lambda>(c', j', s'). \<not> should_stop s') (instruction_sub decoded (c, j, s))"
    "yields (\<lambda>(c', j', s'). \<not> should_stop s') (instruction_jnz decoded (c, j, s))"
    "yields (\<lambda>(c', j', s'). \<not> should_stop s') (instruction_init_proc decoded pid (c, j, s))"
    "yields (\<lambda>(c', j', s'). \<not> should_stop s') (instruction_exit pid (c, j, s))"
  unfolding instruction_defs prod.case using assms
  by (auto intro!: yields_operand yields_if simp: send_to_def)

lemma quiet_yields:
  "yields (\<lambda>(c', j', s'). \<not> should_stop s') r \<Longrightarrow> yields (stops_after_saving e pid) r"
  by (erule yields_mono) (auto intro: quiet_exec)

lemma execute_stops_after_saving:
  assumes "\<not> should_stop s"
  shows "yields (stops_after_saving (c, j, s) pid) (execute_instruction decoded pid tbl (c, j, s))"
  unfolding execute_instruction_def instruction_stdout_def instruction_stdin_def
  using assms
  by (intro yields_operand)
    (simp split: t_instruction_type.split
      add: calls_stop std_stops quiet_yields moves_quiet rest_quiet quiet_exec)

text \<open>C19: a process that leaves the CPU for a system call leaves nothing behind: whenever an
  instruction makes the cycle stop, the program counter has been moved past it, and the context
  with that program counter was sent to Kernel Memory before the request went to Kernel Scheduler,
  so no other CPU can be given the process with an older context. Nothing else is sent.\<close>
theorem blocking_call_saves_context:
  assumes "execute_instruction decoded pid tbl (c, j, s) = Ret (c', j', s')"
    and "\<not> should_stop s" and "should_stop s'"
  shows "c' = c\<lparr>pc := pc c + 1\<rparr> \<and> j' \<and>
    (\<exists>request. sent s' = sent s @ [(To_memory, context_send c' pid), (To_scheduler, request)])"
  using yieldsD [OF execute_stops_after_saving [OF assms(2)] assms(1)] assms(3)
  by (auto simp: stops_after_saving_def)

definition context_example :: t_cpu_context where
  "context_example = \<lparr>pc = 9, ax = 1, bx = 2, cx = 3, dx = 4, eax = 5, ebx = 6, ecx = 7,
     edx = 8, si = 1, di = 66\<rparr>"

theorem blocking_call_saves_context_witness:
  "\<exists>c' s' request. execute_instruction [''SLEEP'', ''50''] 7 [] (context_example, False, cpu_example) = Ret (c', True, s') \<and>
     pc c' = 10 \<and> sent s' = [(To_memory, context_send c' 7), (To_scheduler, request)]"
proof -
  have "\<exists>e. execute_instruction [''SLEEP'', ''50''] 7 [] (context_example, False, cpu_example) = Ret e \<and>
      should_stop (snd (snd e)) \<and> fst (snd e)"
    by (simp add: execute_instruction_def operand_def instruction_to_type_def instruction_sleep_def
        system_call_def stop_for_def send_to_def Let_def)
  then obtain c' s' where "execute_instruction [''SLEEP'', ''50''] 7 [] (context_example, False, cpu_example) = Ret (c', True, s')"
    "should_stop s'" by auto
  with blocking_call_saves_context [OF this(1)] show ?thesis
    by (auto simp: cpu_example_def context_example_def)
qed

section \<open>Isolation\<close>

definition inside :: "t_segment list \<Rightarrow> nat \<Rightarrow> bool" where
  "inside tbl i \<longleftrightarrow>
     (\<exists>seg \<in> set tbl. unat (seg_base seg) \<le> i \<and> i < unat (seg_base seg) + unat (seg_size seg))"

definition confined :: "t_segment list \<Rightarrow> memory \<Rightarrow> memory \<Rightarrow> bool" where
  "confined tbl m m' \<longleftrightarrow> memory_valid m' \<and> length (memory_content m') = length (memory_content m) \<and>
     (\<forall>i < length (memory_content m). \<not> inside tbl i \<longrightarrow> memory_content m' ! i = memory_content m ! i)"

lemma confined_refl [simp]: "memory_valid m \<Longrightarrow> confined tbl m m"
  by (simp add: confined_def)

text \<open>What an access needs: the segments lie in the memory, the size cannot wrap the check.\<close>

definition access_ok :: "t_segment list \<Rightarrow> cpu_state \<Rightarrow> u32 \<Rightarrow> bool" where
  "access_ok tbl s sz \<longleftrightarrow> memory_valid (cpu_memory s) \<and> cpu_segment_max_size s \<noteq> 0 \<and>
     unat (cpu_segment_max_size s) + unat sz \<le> 2 ^ 32 \<and>
     (\<forall>seg \<in> set tbl. unat (seg_base seg) + unat (seg_size seg) \<le> length (memory_content (cpu_memory s)))"

lemma content_bound: "memory_valid m \<Longrightarrow> length (memory_content m) < 1073741824"
  by (simp add: memory_valid_def memory_content_def sticks_ok_def)

lemma translated:
  assumes "access_ok tbl s sz" and "mmu_translate a sz tbl pid s = Ret (p, s)" and "\<not> should_exit s"
  obtains seg where "seg \<in> set tbl" "segment_id seg = a div cpu_segment_max_size s"
    "unat p = unat (seg_base seg) + unat (a mod cpu_segment_max_size s)"
    "unat p + unat sz \<le> unat (seg_base seg) + unat (seg_size seg)"
    "unat p + unat sz \<le> length (memory_content (cpu_memory s))"
proof -
  have *: "\<forall>seg \<in> set tbl. unat (seg_base seg) + unat (seg_size seg) < 2 ^ 32"
    using assms(1) content_bound [of "cpu_memory s"] by (fastforce simp: access_ok_def)
  have "segmentation_fault pid s \<noteq> s"
    using assms(3) by (auto simp: segmentation_fault_def dest: arg_cong [of _ _ should_exit])
  then obtain seg where "seg \<in> set tbl" "segment_id seg = a div cpu_segment_max_size s"
    "unat p = unat (seg_base seg) + unat (a mod cpu_segment_max_size s)"
    "unat p + unat sz \<le> unat (seg_base seg) + unat (seg_size seg)"
    using mmu_translate_bounds [OF _ _ *, of s sz a pid] assms(1,2) by (auto simp: access_ok_def)
  moreover then have "unat p + unat sz \<le> length (memory_content (cpu_memory s))"
    using assms(1) by (fastforce simp: access_ok_def)
  ultimately show ?thesis by (rule that)
qed

lemma translated_read:
  assumes "access_ok tbl s sz" and "mmu_translate a sz tbl pid s = Ret (p, s)" and "\<not> should_exit s"
  shows "cpu_memory_read (cpu_memory s) p sz =
    Ret (Some (slice (unat p) (unat sz) (memory_content (cpu_memory s))), cpu_memory s)"
  using translated [OF assms] assms(1) by (metis access_ok_def cpu_read)

lemma translated_write:
  assumes "access_ok tbl s sz" and "mmu_translate a sz tbl pid s = Ret (p, s)" and "\<not> should_exit s"
    and "length d = unat sz"
  obtains m' where "cpu_memory_write (cpu_memory s) p d sz = Ret (True, m')" "memory_valid m'"
    "memory_content m' = overwrite (unat p) d (memory_content (cpu_memory s))"
    "confined tbl (cpu_memory s) m'"
proof -
  from translated [OF assms(1-3)] obtain seg where seg: "seg \<in> set tbl"
    "unat p = unat (seg_base seg) + unat (a mod cpu_segment_max_size s)"
    "unat p + unat sz \<le> unat (seg_base seg) + unat (seg_size seg)"
    "unat p + unat sz \<le> length (memory_content (cpu_memory s))" by metis
  with cpu_write [of "cpu_memory s" p sz d] assms(1,4) obtain m' where
    m': "cpu_memory_write (cpu_memory s) p d sz = Ret (True, m')" "memory_valid m'"
    "memory_content m' = overwrite (unat p) d (memory_content (cpu_memory s))"
    by (auto simp: access_ok_def)
  moreover have "inside tbl i" if "unat p \<le> i" "i < unat p + length d" for i
    using that seg assms(4) unfolding inside_def by (intro bexI [OF _ seg(1)]) linarith
  then have "confined tbl (cpu_memory s) m'"
    using m' seg(4) assms(4) by (auto simp: confined_def nth_overwrite)
  ultimately show ?thesis by (rule that)
qed

lemma access_ok_le: "access_ok tbl s sz \<Longrightarrow> unat sz' \<le> unat sz \<Longrightarrow> access_ok tbl s sz'"
  by (auto simp: access_ok_def)

lemma field_size_le: "unat (field_size r) \<le> 4"
  by (cases r) simp_all

lemma access_ok_field: "access_ok tbl s 4 \<Longrightarrow> access_ok tbl s (field_size r)"
  using field_size_le [of r] by (auto intro: access_ok_le)

lemma length_register_bytes [simp]: "length (register_bytes r v) = unat (field_size r)"
  using field_size_le [of r] by (simp add: register_bytes_def)

definition keeps_others :: "t_segment list \<Rightarrow> cpu_state \<Rightarrow> exec \<Rightarrow> bool" where
  "keeps_others tbl s = (\<lambda>(c', j', s'). confined tbl (cpu_memory s) (cpu_memory s'))"

lemma keeps_same: "memory_valid (cpu_memory s) \<Longrightarrow> cpu_memory s' = cpu_memory s \<Longrightarrow> keeps_others tbl s (c', j', s')"
  by (simp add: keeps_others_def)

lemma moves_confined:
  assumes "access_ok tbl s 4"
  shows "yields (keeps_others tbl s) (instruction_mov_in decoded pid tbl (c, j, s))"
    and "yields (keeps_others tbl s) (instruction_mov_out decoded pid tbl (c, j, s))"
proof -
  have v: "memory_valid (cpu_memory s)" using assms by (simp add: access_ok_def)
  note a = access_ok_field [OF assms]
  show "yields (keeps_others tbl s) (instruction_mov_in decoded pid tbl (c, j, s))"
    unfolding instruction_mov_in_def prod.case
    by (intro yields_operand)
      (auto intro!: yields_mmu keeps_same v simp: translated_read [OF a] split: option.split)
  have w: "yields (keeps_others tbl s) (and_then (cpu_memory_write (cpu_memory s) p
        (register_bytes r v) (field_size r)) (\<lambda>(ok, m). Ret (c, j, s\<lparr>cpu_memory := m\<rparr>)))"
    if "mmu_translate x (field_size r) tbl pid s = Ret (p, s)" "\<not> should_exit s" for p r v x
    by (rule translated_write [OF a that length_register_bytes, of v]) (simp add: keeps_others_def)
  show "yields (keeps_others tbl s) (instruction_mov_out decoded pid tbl (c, j, s))"
    unfolding instruction_mov_out_def prod.case
    by (intro yields_operand) (auto intro!: yields_mmu keeps_same v w split: option.split)
qed

lemma copy_confined:
  assumes "access_ok tbl s 4"
    and "\<And>reg. operand 1 decoded = Ret reg \<Longrightarrow> access_ok tbl s (read_register_value c reg)"
  shows "yields (keeps_others tbl s) (instruction_copy_mem decoded pid tbl (c, j, s))"
proof -
  have v: "memory_valid (cpu_memory s)" using assms(1) by (simp add: access_ok_def)
  have w: "yields (keeps_others tbl s) (and_then (cpu_memory_read (cpu_memory s) p n) (\<lambda>(data, m).
      case data of None \<Rightarrow> Ret (c, j, s\<lparr>cpu_memory := m\<rparr>)
      | Some d \<Rightarrow> and_then (cpu_memory_write m q d n) (\<lambda>(ok, m'). Ret (c, j, s\<lparr>cpu_memory := m'\<rparr>))))"
    if a: "access_ok tbl s n" and t: "mmu_translate x n tbl pid s = Ret (p, s)"
      "mmu_translate y n tbl pid s = Ret (q, s)" "\<not> should_exit s" for n p q x y
  proof -
    have "length (slice (unat p) (unat n) (memory_content (cpu_memory s))) = unat n"
      using translated [OF a t(1,3)] by (metis length_slice)
    then obtain m' where "cpu_memory_write (cpu_memory s) q
        (slice (unat p) (unat n) (memory_content (cpu_memory s))) n = Ret (True, m')"
      "confined tbl (cpu_memory s) m'"
      using translated_write [OF a t(2,3)] by metis
    then show ?thesis by (simp add: translated_read [OF a t(1,3)] keeps_others_def)
  qed
  show ?thesis
    unfolding instruction_copy_mem_def prod.case Let_def
    by (intro yields_and_then yields_if yields_mmu w assms(2)) (auto intro: keeps_same v)
qed

lemma std_keeps:
  assumes "memory_valid (cpu_memory s)"
  shows "yields (keeps_others tbl s) (instruction_std op decoded pid tbl (c, j, s))"
  unfolding instruction_std_def prod.case Let_def
  by (intro yields_intros) (auto simp: yields_def intro!: keeps_same assms dest: system_call_sent(7))

lemma rest_keeps:
  assumes "memory_valid (cpu_memory s)"
  shows "yields (keeps_others tbl s) (instruction_set decoded (c, j, s))"
    "yields (keeps_others tbl s) (instruction_sum decoded (c, j, s))"
    "yields (keeps_others tbl s) (instruction_sub decoded (c, j, s))"
    "yields (keeps_others tbl s) (instruction_jnz decoded (c, j, s))"
    "yields (keeps_others tbl s) (instruction_init_proc decoded pid (c, j, s))"
    "yields (keeps_others tbl s) (instruction_exit pid (c, j, s))"
    "yields (keeps_others tbl s) (instruction_mutex_create decoded pid (c, j, s))"
    "yields (keeps_others tbl s) (instruction_mutex_lock decoded pid (c, j, s))"
    "yields (keeps_others tbl s) (instruction_mutex_unlock decoded pid (c, j, s))"
    "yields (keeps_others tbl s) (instruction_mem_alloc decoded pid (c, j, s))"
    "yields (keeps_others tbl s) (instruction_mem_free decoded pid (c, j, s))"
    "yields (keeps_others tbl s) (instruction_sleep decoded pid (c, j, s))"
  unfolding instruction_defs prod.case
  by (auto intro!: yields_operand yields_if keeps_same assms simp: send_to_def system_call_def
      stop_for_def Let_def)

lemma execute_keeps_others:
  assumes "access_ok tbl s 4"
    and "instruction_to_type (decoded ! 0) = COPY_MEM \<Longrightarrow> access_ok tbl s (read_register_value c (decoded ! 1))"
  shows "yields (keeps_others tbl s) (execute_instruction decoded pid tbl (c, j, s))"
proof -
  have v: "memory_valid (cpu_memory s)" using assms(1) by (simp add: access_ok_def)
  show ?thesis
    unfolding execute_instruction_def instruction_stdout_def instruction_stdin_def
  proof (rule yields_and_then)
    fix mnemonic assume "operand 0 decoded = Ret mnemonic"
    then have m: "decoded ! 0 = mnemonic" by (simp add: operand_def split: if_splits)
    have copy: "yields (keeps_others tbl s) (instruction_copy_mem decoded pid tbl (c, j, s))"
      if "instruction_to_type mnemonic = COPY_MEM"
      using that assms m by (intro copy_confined) (auto simp: operand_def split: if_splits)
    show "yields (keeps_others tbl s)
      (case instruction_to_type mnemonic of
         NOOP \<Rightarrow> Ret (c, j, s)
       | SET \<Rightarrow> instruction_set decoded (c, j, s)
       | MOV_IN \<Rightarrow> instruction_mov_in decoded pid tbl (c, j, s)
       | MOV_OUT \<Rightarrow> instruction_mov_out decoded pid tbl (c, j, s)
       | INS_SUM \<Rightarrow> instruction_sum decoded (c, j, s)
       | SUB \<Rightarrow> instruction_sub decoded (c, j, s)
       | JNZ \<Rightarrow> instruction_jnz decoded (c, j, s)
       | COPY_MEM \<Rightarrow> instruction_copy_mem decoded pid tbl (c, j, s)
       | INS_MUTEX_CREATE \<Rightarrow> instruction_mutex_create decoded pid (c, j, s)
       | INS_MUTEX_LOCK \<Rightarrow> instruction_mutex_lock decoded pid (c, j, s)
       | INS_MUTEX_UNLOCK \<Rightarrow> instruction_mutex_unlock decoded pid (c, j, s)
       | INS_MEM_ALLOC \<Rightarrow> instruction_mem_alloc decoded pid (c, j, s)
       | INS_MEM_FREE \<Rightarrow> instruction_mem_free decoded pid (c, j, s)
       | INS_SLEEP \<Rightarrow> instruction_sleep decoded pid (c, j, s)
       | INS_STDOUT \<Rightarrow> instruction_std STDOUT decoded pid tbl (c, j, s)
       | INS_STDIN \<Rightarrow> instruction_std STDIN decoded pid tbl (c, j, s)
       | INS_INIT_PROC \<Rightarrow> instruction_init_proc decoded pid (c, j, s)
       | INS_EXIT \<Rightarrow> instruction_exit pid (c, j, s)
       | UNKNOWN \<Rightarrow> Ret (c, j, s))"
      by (simp split: t_instruction_type.split
          add: v copy moves_confined [OF assms(1)] std_keeps rest_keeps keeps_same)
  qed
qed

text \<open>C20: a process can only change its own memory: whatever instruction is executed, and also
  when it faults, every byte of the connected Memory Sticks outside of the segments of the process
  keeps its value. The size operand of \<open>COPY_MEM\<close> must be one that does not wrap the bounds
  check (the operands of the moves never do).\<close>
theorem execute_instruction_isolated:
  assumes "execute_instruction decoded pid tbl (c, j, s) = Ret (c', j', s')"
    and "access_ok tbl s 4"
    and "instruction_to_type (decoded ! 0) = COPY_MEM \<Longrightarrow> access_ok tbl s (read_register_value c (decoded ! 1))"
    and "i < length (memory_content (cpu_memory s))" and "\<not> inside tbl i"
  shows "memory_content (cpu_memory s') ! i = memory_content (cpu_memory s) ! i"
  using yieldsD [OF execute_keeps_others [OF assms(2,3)] assms(1)] assms(4,5)
  by (simp add: keeps_others_def confined_def)

text \<open>An example: one segment with the bytes 4 to 7, mapped at the logical address 64.\<close>

abbreviation table_example :: "t_segment list" where
  "table_example \<equiv> [\<lparr>segment_id = 1, seg_base = 4, seg_size = 4\<rparr>]"

lemma example_access: "unat sz \<le> 4 \<Longrightarrow> access_ok table_example cpu_example sz"
  by (auto simp: access_ok_def memory_valid_def sticks_ok_def memory_content_def link_ok_def
      stick_wf_def stick_bytes_def cpu_example_def)

lemma example_translate:
  "unat sz \<le> 2 \<Longrightarrow> mmu_translate 66 sz table_example 7 cpu_example = Ret (6, cpu_example)"
proof -
  assume "unat sz \<le> 2"
  then have "unat (2 + sz) \<le> 4" by (subst u32_add_unat) auto
  then show ?thesis by (simp add: mmu_translate_def cpu_example_def u32_less_iff Let_def)
qed

lemma ucast_u8_u32 [simp]: "ucast (ucast (b :: u8) :: u32) = b"
  by (rule bit_word_eqI) (auto simp: bit_simps)

lemma register_bytes_value: "value_of_bytes (register_bytes r (get_register r c)) = get_register r c"
proof -
  have one: "value_of_bytes (take 1 (u32_bytes (ucast (b :: u8)))) = ucast b" for b
  proof -
    have "(of_nat (unat (ucast b :: u32)) :: u8) = ucast (ucast b :: u32)" by simp
    then show ?thesis by (simp add: value_of_bytes_def u32_bytes_def del: of_nat_unat)
  qed
  have four: "value_of_bytes (take 4 (u32_bytes v)) = v" for v
    by (cases v rule: u32_bytes_cases) (simp add: value_of_bytes_def)
  show ?thesis using one four by (cases r) (simp_all add: register_bytes_def)
qed

lemma field_size_value:
  "field_size r = field_size r' \<Longrightarrow> get_register r' (set_register r' (get_register r c) c') = get_register r c"
  by (cases r; cases r') simp_all

text \<open>What \<open>MOV_OUT\<close> stores, \<open>MOV_IN\<close> loads: when the logical address translates, storing
  a register of one or four bytes at the address in \<open>DI\<close> and loading a register of that size
  from the same address, in whatever context the process then has, gives the value back, for every
  division of the physical memory into sticks.\<close>
theorem mov_out_mov_in:
  assumes "get_register_descriptor src = Some r" and "get_register_descriptor dst = Some r'"
    and "field_size r = field_size r'" and "access_ok tbl s 4" and "\<not> should_exit s"
    and "mmu_translate (di c) (field_size r) tbl pid s = Ret (p, s)" and "si c' = di c"
  shows "\<exists>s'. execute_instruction [''MOV_OUT'', src] pid tbl (c, False, s) = Ret (c, False, s') \<and>
    (\<exists>c'' jumped. execute_instruction [''MOV_IN'', dst] pid tbl (c', False, s') = Ret (c'', jumped, s') \<and>
       get_register r' c'' = get_register r c)"
proof -
  note a = access_ok_field [OF assms(4), of r]
  from translated_write [OF a assms(6,5) length_register_bytes, of "get_register r c"] obtain m' where
    w: "cpu_memory_write (cpu_memory s) p (register_bytes r (get_register r c)) (field_size r) = Ret (True, m')"
      "memory_valid m'"
      "memory_content m' = overwrite (unat p) (register_bytes r (get_register r c)) (memory_content (cpu_memory s))"
    by metis
  have len: "unat p + unat (field_size r) \<le> length (memory_content (cpu_memory s))"
    by (rule translated [OF a assms(6,5)])
  define s' where "s' = s\<lparr>cpu_memory := m'\<rparr>"
  have "cpu_memory_read m' p (field_size r) = Ret (Some (register_bytes r (get_register r c)), m')"
    using w len by (simp add: cpu_read slice_overwrite_same)
  moreover have "mmu_translate (si c') (field_size r) tbl pid s' = Ret (p, s')"
    using assms(6,7,5) by (auto simp: mmu_translate_def s'_def Let_def segmentation_fault_def
        split: if_splits option.splits dest: arg_cong [of _ _ should_exit])
  moreover have "execute_instruction [''MOV_OUT'', src] pid tbl (c, False, s) = Ret (c, False, s')"
    using assms(1,5,6) w(1)
    by (simp add: execute_instruction_def operand_def instruction_to_type_def instruction_mov_out_def s'_def)
  ultimately show ?thesis
    using assms(2,3,5)
    by (simp add: execute_instruction_def operand_def instruction_to_type_def instruction_mov_in_def
        register_bytes_value field_size_value [OF assms(3)] s'_def)
qed

theorem mov_out_mov_in_witness:
  "\<exists>s'. execute_instruction [''MOV_OUT'', ''AX''] 7 table_example (context_example, False, cpu_example) =
      Ret (context_example, False, s') \<and>
    (\<exists>c'' jumped. execute_instruction [''MOV_IN'', ''DX''] 7 table_example (context_example\<lparr>si := 66\<rparr>, False, s') =
       Ret (c'', jumped, s') \<and> get_register DX c'' = 1)"
proof -
  have "\<not> should_exit cpu_example" "di context_example = 66" "get_register AX context_example = 1"
    by (simp_all add: cpu_example_def context_example_def)
  moreover have "get_register_descriptor ''AX'' = Some AX" "get_register_descriptor ''DX'' = Some DX"
    by code_simp+
  ultimately show ?thesis
    using mov_out_mov_in [where src = "''AX''" and dst = "''DX''" and r = AX and r' = DX
      and tbl = table_example and s = cpu_example and c = context_example
      and c' = "context_example\<lparr>si := 66\<rparr>" and pid = 7 and p = 6]
    by (simp add: example_access example_translate)
qed

theorem execute_instruction_isolated_witness:
  "\<exists>c' j' s'. execute_instruction [''MOV_OUT'', ''AX''] 7 table_example (context_example, False, cpu_example) = Ret (c', j', s') \<and>
     memory_content (cpu_memory s') ! 3 = 4"
proof -
  have e: "\<not> should_exit cpu_example" "di context_example = 66"
    by (simp_all add: cpu_example_def context_example_def)
  have d: "get_register_descriptor ''AX'' = Some AX"
    by code_simp
  have t: "mmu_translate 66 1 table_example 7 cpu_example = Ret (6, cpu_example)"
    by (rule example_translate) simp
  obtain m' where "cpu_memory_write (cpu_memory cpu_example) 6
      (register_bytes AX (get_register AX context_example)) 1 = Ret (True, m')"
    by (rule translated_write [OF example_access [of 1] t e(1), of "register_bytes AX (get_register AX context_example)"])
      simp_all
  then have x: "\<exists>s'. execute_instruction [''MOV_OUT'', ''AX''] 7 table_example
      (context_example, False, cpu_example) = Ret (context_example, False, s')"
    using e d t by (simp add: execute_instruction_def operand_def instruction_to_type_def instruction_mov_out_def)
  have m: "memory_content (cpu_memory cpu_example) = [1, 2, 3, 4, 5, 6, 7, 8]"
    by (simp add: cpu_example_def memory_content_def stick_bytes_def)
  from x execute_instruction_isolated [OF _ example_access [of 4], of "[''MOV_OUT'', ''AX'']" 7 context_example False _ _ _ 3]
  show ?thesis by (fastforce simp: m inside_def instruction_to_type_def)
qed

text \<open>\<open>JNZ\<close> jumps exactly when the register is not zero and the target is a positive
  \<open>int\<close>: a jump to the first instruction of the program, number 0, is never taken.\<close>
theorem jnz_never_to_zero:
  assumes "get_register_descriptor reg = Some r"
  shows "execute_instruction [''JNZ'', reg, target] pid tbl (c, False, s) =
    (if get_register r c \<noteq> 0 \<and> 0 < sint (atoi target) then Ret (c\<lparr>pc := atoi target\<rparr>, True, s)
     else Ret (c, False, s))"
  using assms by (simp add: execute_instruction_def operand_def instruction_to_type_def
      instruction_jnz_def check_if_register_iff read_register_value_def)

theorem jnz_never_to_zero_witness:
  "execute_instruction [''JNZ'', ''EAX'', ''0''] 7 [] (context_example, False, cpu_example) =
     Ret (context_example, False, cpu_example)"
proof -
  have "atoi ''0'' = 0" by (simp add: atoi_def atoi_int_def is_space_def digit_of_def)
  moreover have "get_register_descriptor ''EAX'' = Some EAX"
    by code_simp
  ultimately show ?thesis using jnz_never_to_zero [of "''EAX''" EAX "''0''" 7 "[]" context_example cpu_example]
    by simp
qed

end
