(* ===== verification/CPU_Cycle.thy ===== *)
theory CPU_Cycle
  imports CPU_Instructions
begin

text \<open>
  The threads of a CPU: the executor (\<open>process_execution_handler\<close> and the loop
  \<open>instructions_cicle\<close>) and the handler of Kernel Scheduler's messages, which starts it and
  asks it to evict the process (\<open>cpu/src/main.c\<close>, \<open>cpu/src/manage_instructions.c\<close>). A step
  is what one thread does under one mutex, or one send; a thread that waits on a semaphore has no
  step while the semaphore is 0. The reader of Kernel Memory's messages delivers instructions,
  contexts and credentials; it is the events that carry them.
\<close>

section \<open>State\<close>

text \<open>Where the executor is; the flag is \<open>interrupt\<close> as read at the top of the loop.\<close>

datatype executor =
    E_none | E_top | E_exit bool | E_exited | E_stop bool | E_stopped | E_fetch | E_response
  | E_poll | E_evict | E_clear | E_finished | E_ending | E_undefined

datatype handler = H_listen | H_wait_finished u32 | H_check u32 | H_wait_handled u32 | H_seek u32
  | H_wait_context u32 | H_evict_check | H_wait_ready

record cpu_cycle =
  cpu :: cpu_state
  exe :: executor
  hdl :: handler
  is_executing :: bool
  current_pid :: u32
  exec_pid :: u32
  exec_context :: t_cpu_context
  exec_table :: "t_segment list"
  has_jumped :: bool
  sem_eviction_ready :: nat
  sem_eviction_handled :: nat
  sem_execution_finished :: nat

datatype cpu_event =
    Executor
  | Instruction "string list option"
  | Handler
  | Recv_execute u32
  | Recv_evict t_interrupt_reason
  | Recv_context t_cpu_context "t_segment list"
  | Recv_credentials fd t_memory_stick_credentials

abbreviation on_cpu :: "(cpu_state \<Rightarrow> cpu_state) \<Rightarrow> cpu_cycle \<Rightarrow> cpu_cycle" where
  "on_cpu f s \<equiv> s\<lparr>cpu := f (cpu s)\<rparr>"

section \<open>The executor\<close>

definition fetch_package :: "u32 \<Rightarrow> u32 \<Rightarrow> t_package" where
  "fetch_package pid program_counter =
     package_add (u32_bytes program_counter) (package_add (u32_bytes pid) (package_with INSTRUCTION_FETCH))"

text \<open>When the process ends or stops, a pending eviction that was seen at the top of the loop is
  answered on the way.\<close>

definition post_if_interrupted :: "bool \<Rightarrow> cpu_cycle \<Rightarrow> cpu_cycle" where
  "post_if_interrupted interrupt s =
     (if interrupt then s\<lparr>cpu := (cpu s)\<lparr>interrupt_pending := False\<rparr>,
        sem_eviction_ready := sem_eviction_ready s + 1\<rparr> else s)"

text \<open>\<open>process_execution_handler\<close> after the loop: the CPU is free first, and only then the next
  process may be started.\<close>

definition execution_over :: "executor \<Rightarrow> cpu_cycle \<Rightarrow> cpu_cycle" where
  [simp]: "execution_over e s =
     (if e = E_finished then s\<lparr>is_executing := False, exe := E_ending\<rparr>
      else s\<lparr>sem_execution_finished := sem_execution_finished s + 1, exe := E_none\<rparr>)"

fun executor_step :: "cpu_cycle \<Rightarrow> executor \<Rightarrow> cpu_cycle option" where
  "executor_step s E_top = Some (s\<lparr>exe := E_exit (interrupt_pending (cpu s))\<rparr>)"
| "executor_step s (E_exit interrupt) =
     (if should_exit (cpu s)
      then Some ((post_if_interrupted interrupt (on_cpu (\<lambda>c. c\<lparr>should_exit := False\<rparr>) s))\<lparr>exe := E_exited\<rparr>)
      else Some (s\<lparr>exe := E_stop interrupt\<rparr>))"
| "executor_step s E_exited =
     Some ((on_cpu (send_process_interrupted (exec_pid s) PROCESS_EXIT) s)\<lparr>exe := E_finished\<rparr>)"
| "executor_step s (E_stop interrupt) =
     (if should_stop (cpu s)
      then Some ((post_if_interrupted interrupt (on_cpu (\<lambda>c. c\<lparr>should_stop := False\<rparr>) s))\<lparr>exe := E_stopped\<rparr>)
      else Some (s\<lparr>exe := E_fetch\<rparr>))"
| "executor_step s E_stopped =
     Some ((on_cpu (send_process_interrupted (exec_pid s) (stop_reason (cpu s))) s)\<lparr>exe := E_finished\<rparr>)"
| "executor_step s E_fetch =
     Some ((on_cpu (send_to To_memory (fetch_package (exec_pid s) (pc (exec_context s)))) s)\<lparr>exe := E_response\<rparr>)"
| "executor_step s E_poll =
     Some (s\<lparr>exe := (if should_exit (cpu s) \<or> should_stop (cpu s) then E_top
                     else if interrupt_pending (cpu s) then E_evict else E_top)\<rparr>)"
| "executor_step s E_evict =
     Some ((on_cpu (\<lambda>c. send_process_interrupted (exec_pid s) (interrupt_reason c)
              (send_to To_memory (context_send (exec_context s) (exec_pid s)) c)) s)
       \<lparr>sem_eviction_ready := sem_eviction_ready s + 1, exe := E_clear\<rparr>)"
| "executor_step s E_clear =
     Some ((on_cpu (\<lambda>c. c\<lparr>interrupt_pending := False\<rparr>) s)\<lparr>exe := E_finished\<rparr>)"
| "executor_step s E_finished = Some (execution_over E_finished s)"
| "executor_step s E_ending = Some (execution_over E_ending s)"
| "executor_step s _ = None"

text \<open>
  The answer to a fetch: it is decoded, executed, and the program counter advanced unless the
  instruction jumped. A NULL ends the thread, with nothing sent. An instruction that does not
  return (undefined behaviour, or a Memory Stick that never answers) leaves the executor there.
\<close>

definition instruction_step :: "cpu_cycle \<Rightarrow> string list option \<Rightarrow> cpu_cycle" where
  "instruction_step s decoded =
     (case decoded of
        None \<Rightarrow> s\<lparr>exec_context := (exec_context s)\<lparr>pc := pc (exec_context s) + 1\<rparr>, exe := E_finished\<rparr>
      | Some strings \<Rightarrow>
          (case execute_instruction strings (exec_pid s) (exec_table s) (exec_context s, has_jumped s, cpu s) of
             Ret (c, jumped, cpu') \<Rightarrow>
               s\<lparr>cpu := cpu', exec_context := (if jumped then c else c\<lparr>pc := pc c + 1\<rparr>),
                 has_jumped := False, exe := E_poll\<rparr>
           | _ \<Rightarrow> s\<lparr>exe := E_undefined\<rparr>))"

section \<open>The handler of Kernel Scheduler\<close>

definition confirm :: "cpu_cycle \<Rightarrow> cpu_cycle" where
  "confirm s = (on_cpu (send_to To_scheduler (send_confirmation (current_pid s))) s)
     \<lparr>sem_eviction_handled := sem_eviction_handled s + 1, hdl := H_listen\<rparr>"

fun handler_step :: "cpu_cycle \<Rightarrow> handler \<Rightarrow> cpu_cycle option" where
  "handler_step s (H_wait_finished pid) =
     (if 0 < sem_execution_finished s
      then Some (s\<lparr>sem_execution_finished := sem_execution_finished s - 1, is_executing := True,
                   hdl := H_check pid\<rparr>)
      else None)"
| "handler_step s (H_check pid) =
     Some (s\<lparr>hdl := (if interrupt_pending (cpu s) then H_wait_handled pid else H_seek pid)\<rparr>)"
| "handler_step s (H_wait_handled pid) =
     (if 0 < sem_eviction_handled s
      then Some (s\<lparr>sem_eviction_handled := sem_eviction_handled s - 1, hdl := H_seek pid\<rparr>) else None)"
| "handler_step s (H_seek pid) =
     Some ((on_cpu (send_to To_memory (package_add (u32_bytes pid) (package_with CONTEXT_SEEK))) s)
       \<lparr>hdl := H_wait_context pid\<rparr>)"
| "handler_step s H_evict_check =
     (if is_executing s then Some (s\<lparr>hdl := H_wait_ready\<rparr>)
      else Some (confirm (on_cpu (\<lambda>c. c\<lparr>interrupt_pending := False\<rparr>) s)))"
| "handler_step s H_wait_ready =
     (if 0 < sem_eviction_ready s
      then Some (confirm (s\<lparr>sem_eviction_ready := sem_eviction_ready s - 1\<rparr>)) else None)"
| "handler_step s _ = None"

section \<open>The CPU\<close>

definition cpu_step :: "cpu_event \<Rightarrow> cpu_cycle \<Rightarrow> cpu_cycle option" where
  "cpu_step ev s =
     (case ev of
        Executor \<Rightarrow> executor_step s (exe s)
      | Instruction decoded \<Rightarrow> if exe s = E_response then Some (instruction_step s decoded) else None
      | Handler \<Rightarrow> handler_step s (hdl s)
      | Recv_execute pid \<Rightarrow>
          if hdl s = H_listen then Some (s\<lparr>current_pid := pid, hdl := H_wait_finished pid\<rparr>) else None
      | Recv_evict reason \<Rightarrow>
          if hdl s = H_listen
          then Some ((on_cpu (\<lambda>c. c\<lparr>interrupt_pending := True, interrupt_reason := reason\<rparr>) s)
                 \<lparr>hdl := H_evict_check\<rparr>)
          else None
      | Recv_context c tbl \<Rightarrow>
          (case hdl s of
             H_wait_context pid \<Rightarrow>
               Some (s\<lparr>exec_pid := pid, exec_context := c, exec_table := tbl, has_jumped := False,
                       exe := E_top, hdl := H_listen\<rparr>)
           | _ \<Rightarrow> None)
      | Recv_credentials f cred \<Rightarrow> Some (on_cpu (connect_with_memory_stick f cred) s))"

fun cpu_steps :: "cpu_event list \<Rightarrow> cpu_cycle \<Rightarrow> cpu_cycle option" where
  "cpu_steps [] s = Some s"
| "cpu_steps (ev # evs) s = (case cpu_step ev s of None \<Rightarrow> None | Some s' \<Rightarrow> cpu_steps evs s')"

text \<open>A CPU after \<open>main\<close> has connected: no thread runs, and \<open>sem_execution_finished\<close> is 1.\<close>

definition cpu_started :: "cpu_cycle \<Rightarrow> bool" where
  "cpu_started s \<longleftrightarrow>
     exe s = E_none \<and> hdl s = H_listen \<and> \<not> is_executing s \<and> \<not> interrupt_pending (cpu s) \<and>
     \<not> should_exit (cpu s) \<and> \<not> should_stop (cpu s) \<and>
     sem_eviction_ready s = 0 \<and> sem_eviction_handled s = 0 \<and> sem_execution_finished s = 1"

inductive cpu_reach :: "cpu_cycle \<Rightarrow> cpu_cycle \<Rightarrow> bool" for s where
  start: "cpu_reach s s"
| step: "cpu_reach s s' \<Longrightarrow> cpu_step ev s' = Some s'' \<Longrightarrow> cpu_reach s s''"

lemma cpu_steps_append:
  "cpu_steps (xs @ ys) s = (case cpu_steps xs s of None \<Rightarrow> None | Some s' \<Rightarrow> cpu_steps ys s')"
  by (induction xs arbitrary: s) (auto split: option.split)

section \<open>One executor\<close>

definition starting :: "handler \<Rightarrow> bool" where
  "starting h \<longleftrightarrow>
     (case h of H_check _ \<Rightarrow> True | H_wait_handled _ \<Rightarrow> True | H_seek _ \<Rightarrow> True | H_wait_context _ \<Rightarrow> True
      | _ \<Rightarrow> False)"

lemma starting_simps [simp]:
  "starting (H_check p)" "starting (H_wait_handled p)" "starting (H_seek p)" "starting (H_wait_context p)"
  "\<not> starting H_listen" "\<not> starting (H_wait_finished p)" "\<not> starting H_evict_check" "\<not> starting H_wait_ready"
  by (simp_all add: starting_def)

text \<open>\<open>sem_execution_finished\<close> is a token: in the semaphore, with the handler that starts a
  process, or with the executor.\<close>

definition cpu_inv :: "cpu_cycle \<Rightarrow> bool" where
  "cpu_inv s \<longleftrightarrow>
     sem_execution_finished s + of_bool (exe s \<noteq> E_none) + of_bool (starting (hdl s)) = 1 \<and>
     (is_executing s \<longleftrightarrow> (exe s \<noteq> E_none \<and> exe s \<noteq> E_ending) \<or> starting (hdl s))"

lemma instruction_step_frame [simp]:
  "hdl (instruction_step s d) = hdl s" "is_executing (instruction_step s d) = is_executing s"
  "sem_execution_finished (instruction_step s d) = sem_execution_finished s"
  "exe (instruction_step s d) \<noteq> E_none" "exe (instruction_step s d) \<noteq> E_ending"
  by (auto simp: instruction_step_def split: option.split run.split)

lemma post_if_frame [simp]:
  "hdl (post_if_interrupted i s) = hdl s" "is_executing (post_if_interrupted i s) = is_executing s"
  "sem_execution_finished (post_if_interrupted i s) = sem_execution_finished s"
  by (auto simp: post_if_interrupted_def)

lemma executor_step_inv: "executor_step s (exe s) = Some s' \<Longrightarrow> cpu_inv s \<Longrightarrow> cpu_inv s'"
  by (cases "exe s") (auto simp: cpu_inv_def split: if_splits)

lemma handler_step_inv: "handler_step s (hdl s) = Some s' \<Longrightarrow> cpu_inv s \<Longrightarrow> cpu_inv s'"
  by (cases "hdl s") (auto simp: cpu_inv_def confirm_def split: if_splits)

lemma cpu_step_inv: "cpu_step ev s = Some s' \<Longrightarrow> cpu_inv s \<Longrightarrow> cpu_inv s'"
  by (cases ev)
    (auto simp: cpu_step_def cpu_inv_def split: if_splits handler.splits
      dest: executor_step_inv [unfolded cpu_inv_def] handler_step_inv [unfolded cpu_inv_def])

lemma cpu_reach_inv: "cpu_reach s0 s \<Longrightarrow> cpu_started s0 \<Longrightarrow> cpu_inv s"
  by (induction rule: cpu_reach.induct) (auto simp: cpu_inv_def cpu_started_def dest: cpu_step_inv)

text \<open>C30: a CPU executes one process at a time: whatever messages arrive and however the threads
  interleave, no process is being started while another one is still in its instruction cycle, and
  \<open>is_executing\<close> says exactly whether a process is being started or executed.\<close>
theorem one_process_at_a_time:
  assumes "cpu_started s0" and "cpu_reach s0 s"
  shows "\<not> (starting (hdl s) \<and> exe s \<noteq> E_none) \<and>
    (is_executing s \<longleftrightarrow> (exe s \<noteq> E_none \<and> exe s \<noteq> E_ending) \<or> starting (hdl s))"
  using cpu_reach_inv [OF assms(2,1)] by (auto simp: cpu_inv_def)

definition cycle_example :: cpu_cycle where
  "cycle_example =
     \<lparr>cpu = cpu_example, exe = E_none, hdl = H_listen, is_executing = False, current_pid = 0,
      exec_pid = 0, exec_context = context_example, exec_table = [], has_jumped = False,
      sem_eviction_ready = 0, sem_eviction_handled = 0, sem_execution_finished = 1\<rparr>"

lemma cycle_example_started: "cpu_started cycle_example"
  by (simp add: cycle_example_def cpu_started_def cpu_example_def)

lemma cpu_steps_reach: "cpu_steps evs s = Some s' \<Longrightarrow> cpu_reach s0 s \<Longrightarrow> cpu_reach s0 s'"
  by (induction evs arbitrary: s) (auto split: option.splits intro: cpu_reach.step)

text \<open>Process 7 is being executed: it was given to the CPU and its context arrived.\<close>

abbreviation start_7 :: "cpu_event list" where
  "start_7 \<equiv> [Recv_execute 7, Handler, Handler, Handler, Recv_context context_example []]"

definition cycle_running :: cpu_cycle where
  "cycle_running = cycle_example
     \<lparr>cpu := send_to To_memory (package_add (u32_bytes 7) (package_with CONTEXT_SEEK)) cpu_example,
      exe := E_top, is_executing := True, current_pid := 7, exec_pid := 7, sem_execution_finished := 0\<rparr>"

lemma cycle_running: "cpu_steps start_7 cycle_example = Some cycle_running"
  by (simp add: cycle_example_def cycle_running_def cpu_step_def cpu_example_def send_to_def)

theorem one_process_at_a_time_witness: "is_executing cycle_running \<and> \<not> starting (hdl cycle_running)"
proof -
  have "exe cycle_running = E_top" by (simp add: cycle_running_def)
  with one_process_at_a_time [OF cycle_example_started cpu_steps_reach [OF cycle_running start]]
  show ?thesis by simp
qed

section \<open>Eviction\<close>

text \<open>The states of an eviction, after \<open>i\<close> steps of the executor and \<open>h\<close> of the handler.\<close>

definition eviction_log :: "cpu_cycle \<Rightarrow> (peer \<times> t_package) list" where
  "eviction_log s = sent (cpu s) @
     [(To_memory, context_send (exec_context s) (exec_pid s)),
      (To_scheduler, package_add (u32_bytes (reason_int (interrupt_reason (cpu s))))
        (package_add (u32_bytes (exec_pid s)) (package_with PROCESS_INTERRUPTED)))]"

definition evicting :: "cpu_cycle \<Rightarrow> nat \<Rightarrow> nat \<Rightarrow> cpu_cycle" where
  "evicting s i h = s\<lparr>
     cpu := (cpu s)\<lparr>interrupt_pending := i < 3,
       sent := (if i < 2 then sent (cpu s) else eviction_log s @
         replicate h (To_scheduler, send_confirmation (current_pid s)))\<rparr>,
     exe := [E_poll, E_evict, E_clear, E_finished, E_ending, E_none] ! i,
     hdl := (if h = 0 then H_wait_ready else H_listen),
     is_executing := i < 4,
     sem_eviction_ready := (if i < 2 then 0 else 1 - h),
     sem_eviction_handled := sem_eviction_handled s + h,
     sem_execution_finished := (if i = 5 then 1 else 0)\<rparr>"

lemma less_6_cases: "(i :: nat) \<le> 5 \<longleftrightarrow> i = 0 \<or> i = 1 \<or> i = 2 \<or> i = 3 \<or> i = 4 \<or> i = 5"
  by auto

lemma evicting_steps:
  assumes "\<not> should_exit (cpu s)" "\<not> should_stop (cpu s)" "i \<le> 5" "h \<le> 1" "h = 0 \<or> 2 \<le> i"
  shows "cpu_step Executor (evicting s i h) = (if i = 5 then None else Some (evicting s (i + 1) h))"
    and "cpu_step Handler (evicting s i h) =
      (if h = 0 \<and> 2 \<le> i then Some (evicting s i 1) else None)"
proof -
  note defs = evicting_def cpu_step_def eviction_log_def send_process_interrupted_def send_to_def
    confirm_def assms(1,2)
  have h: "h = 0 \<or> h = 1" using assms(4) by auto
  have e: "cpu_step Executor (evicting s 0 0) = Some (evicting s 1 0)"
    "cpu_step Executor (evicting s 1 0) = Some (evicting s (Suc 1) 0)"
    "cpu_step Executor (evicting s 2 h) = Some (evicting s 3 h)"
    "cpu_step Executor (evicting s 3 h) = Some (evicting s 4 h)"
    "cpu_step Executor (evicting s 4 h) = Some (evicting s 5 h)"
    "cpu_step Executor (evicting s 5 h) = None" for h
    by (simp_all add: defs)
  have i: "i = 0 \<and> h = 0 \<or> i = 1 \<and> h = 0 \<or> i = 2 \<or> i = 3 \<or> i = 4 \<or> i = 5"
    using assms(3,5) by linarith
  show "cpu_step Executor (evicting s i h) = (if i = 5 then None else Some (evicting s (i + 1) h))"
    using i by (elim disjE conjE) (simp_all add: e [simplified])
  show "cpu_step Handler (evicting s i h) = (if h = 0 \<and> 2 \<le> i then Some (evicting s i 1) else None)"
    using i h by (elim disjE conjE) (simp_all add: defs)
qed

lemma evicting_run:
  assumes "\<not> should_exit (cpu s)" "\<not> should_stop (cpu s)"
  shows "cpu_steps evs (evicting s i h) = Some s' \<Longrightarrow> set evs \<subseteq> {Executor, Handler} \<Longrightarrow>
    i \<le> 5 \<Longrightarrow> h \<le> 1 \<Longrightarrow> h = 0 \<or> 2 \<le> i \<Longrightarrow>
    \<exists>i' h'. s' = evicting s i' h' \<and> i' + h' = i + h + length evs \<and> i' \<le> 5 \<and> h' \<le> 1 \<and> (h' = 0 \<or> 2 \<le> i')"
proof (induction evs arbitrary: i h)
  case (Cons ev evs)
  note st = evicting_steps [OF assms Cons.prems(3-5)]
  consider "ev = Executor" | "ev = Handler" using Cons.prems(2) by auto
  then show ?case
  proof cases
    case 1
    with Cons.prems st(1) have "i \<noteq> 5" "cpu_steps evs (evicting s (i + 1) h) = Some s'"
      by (auto split: if_splits)
    with Cons.IH [of "i + 1" h] Cons.prems show ?thesis by auto
  next
    case 2
    with Cons.prems st(2) have "h = 0" "2 \<le> i" "cpu_steps evs (evicting s i 1) = Some s'"
      by (auto split: if_splits)
    with Cons.IH [of i 1] Cons.prems show ?thesis by auto
  qed
qed auto

lemma evicting_start:
  assumes "exe s = E_poll" "interrupt_pending (cpu s)" "hdl s = H_wait_ready" "is_executing s"
    "sem_eviction_ready s = 0" "sem_execution_finished s = 0"
  shows "s = evicting s 0 0"
  using assms by (simp add: evicting_def)

lemma eviction_rests:
  assumes "exe s = E_poll" "interrupt_pending (cpu s)" "hdl s = H_wait_ready" "is_executing s"
    and "sem_eviction_ready s = 0" "sem_execution_finished s = 0"
    and "\<not> should_exit (cpu s)" "\<not> should_stop (cpu s)"
    and "cpu_steps evs s = Some s'" and "set evs \<subseteq> {Executor, Handler}"
    and "cpu_step Executor s' = None" and "cpu_step Handler s' = None"
  shows "length evs = 6 \<and> sent (cpu s') = eviction_log s @ [(To_scheduler, send_confirmation (current_pid s))] \<and>
    exe s' = E_none \<and> hdl s' = H_listen \<and> \<not> is_executing s' \<and> \<not> interrupt_pending (cpu s') \<and>
    sem_eviction_ready s' = 0 \<and> sem_execution_finished s' = 1"
proof -
  note s0 = evicting_start [OF assms(1-6)]
  then obtain i h where r: "s' = evicting s i h" "i + h = length evs" "i \<le> 5" "h \<le> 1" "h = 0 \<or> 2 \<le> i"
    using evicting_run [OF assms(7,8), of evs 0 0 s'] assms(9,10) by auto
  note st = evicting_steps [OF assms(7,8) r(3-5)]
  have "i = 5" using st(1) r(1) assms(11) by (auto split: if_splits)
  moreover have "h = 1" using st(2) r assms(12) \<open>i = 5\<close> by (auto split: if_splits)
  ultimately show ?thesis using r by (simp add: evicting_def eviction_log_def)
qed


definition cycle_evicting :: cpu_cycle where
  "cycle_evicting = cycle_running
     \<lparr>cpu := (cpu cycle_running)\<lparr>interrupt_pending := True, interrupt_reason := PRIORITY_PREEMPTION\<rparr>,
      exe := E_poll, hdl := H_wait_ready\<rparr>"


section \<open>Races\<close>

text \<open>The process stops for a system call and has not seen the eviction, the handler waits.\<close>

definition missed :: "cpu_cycle \<Rightarrow> bool" where
  "missed s \<longleftrightarrow> hdl s = H_wait_ready \<and> sem_eviction_ready s = 0 \<and>
     (exe s = E_exit False \<and> should_exit (cpu s) \<or> exe s = E_exited \<or>
      exe s = E_exit False \<and> should_stop (cpu s) \<or>
      exe s = E_stop False \<and> should_stop (cpu s) \<or> exe s = E_stopped \<or>
      exe s = E_finished \<or> exe s = E_ending \<or> exe s = E_none)"

lemma missed_step: "missed s \<Longrightarrow> cpu_step ev s = Some s' \<Longrightarrow> missed s'"
  by (cases ev; cases "exe s")
    (auto simp: missed_def cpu_step_def post_if_interrupted_def send_process_interrupted_def send_to_def
      connect_with_memory_stick_def split: if_splits)

lemma missed_steps: "cpu_steps evs s = Some s' \<Longrightarrow> missed s \<Longrightarrow> missed s'"
  by (induction evs arbitrary: s) (auto split: option.splits dest: missed_step)

text \<open>C37: an eviction can be lost: when the process is about to leave the CPU for a system call or
  its end, and the loop has already read that no interrupt is pending, an eviction that arrives now
  finds the process still executing and waits for \<open>sem_eviction_ready\<close>, which nobody posts any
  more. Whatever happens then, the handler of Kernel Scheduler never receives another message.\<close>
theorem late_eviction_blocks_the_cpu:
  assumes "exe s = E_exit False" and "should_exit (cpu s) \<or> should_stop (cpu s)"
    and "hdl s = H_listen" "is_executing s" "sem_eviction_ready s = 0"
    and "cpu_steps (Recv_evict reason # Handler # evs) s = Some s'"
  shows "hdl s' = H_wait_ready"
proof -
  from assms(6) obtain s1 where "cpu_steps [Recv_evict reason, Handler] s = Some s1" "cpu_steps evs s1 = Some s'"
    using cpu_steps_append [of "[Recv_evict reason, Handler]" evs s] by (auto split: option.splits)
  moreover from this(1) assms(1-5) have "missed s1"
    by (auto simp: cpu_step_def missed_def)
  ultimately have "missed s'" by (blast intro: missed_steps)
  then show ?thesis by (simp add: missed_def)
qed

text \<open>The run that leads there: the process executes \<open>SLEEP\<close>.\<close>

definition cycle_sleeping :: cpu_cycle where
  "cycle_sleeping = (on_cpu (\<lambda>c. send_to To_scheduler (u32_pair_package SLEEP 7 50)
      (send_to To_memory (context_send (context_example\<lparr>pc := 10\<rparr>) 7)
        ((send_to To_memory (fetch_package 7 9) c)\<lparr>stop_reason := IO_REQUEST, should_stop := True\<rparr>)))
      cycle_running)\<lparr>exec_context := context_example\<lparr>pc := 10\<rparr>, exe := E_exit False\<rparr>"

lemma cycle_sleeping:
  "cpu_steps [Executor, Executor, Executor, Executor, Instruction (Some [''SLEEP'', ''50'']), Executor, Executor]
    cycle_running = Some cycle_sleeping"
proof -
  have "atoi ''50'' = 50" by (simp add: atoi_def atoi_int_def is_space_def digit_of_def)
  then show ?thesis
    by (simp add: cycle_running_def cycle_sleeping_def cpu_step_def cpu_example_def send_to_def
        cycle_example_def instruction_step_def execute_instruction_def operand_def instruction_to_type_def
        instruction_sleep_def system_call_def stop_for_def Let_def context_example_def)
qed

theorem late_eviction_blocks_the_cpu_witness:
  "cpu_reach cycle_example cycle_sleeping \<and>
   (\<exists>s'. cpu_steps [Recv_evict QUANTUM_EXPIRED, Handler, Executor, Executor, Executor, Executor, Executor]
      cycle_sleeping = Some s' \<and> exe s' = E_none \<and> hdl s' = H_wait_ready)"
proof -
  have r: "cpu_reach cycle_example cycle_sleeping"
    using cpu_steps_reach [OF cycle_sleeping] cpu_steps_reach [OF cycle_running start] by blast
  have s: "exe cycle_sleeping = E_exit False" "should_exit (cpu cycle_sleeping) \<or> should_stop (cpu cycle_sleeping)"
    "hdl cycle_sleeping = H_listen" "is_executing cycle_sleeping" "sem_eviction_ready cycle_sleeping = 0"
    by (simp_all add: cycle_sleeping_def cycle_running_def cycle_example_def send_to_def)
  have "\<exists>s'. cpu_steps [Recv_evict QUANTUM_EXPIRED, Handler, Executor, Executor, Executor, Executor, Executor]
      cycle_sleeping = Some s' \<and> exe s' = E_none"
    by (simp add: cpu_step_def cycle_sleeping_def cycle_running_def cycle_example_def cpu_example_def
        post_if_interrupted_def send_to_def)
  then obtain s' where s': "cpu_steps [Recv_evict QUANTUM_EXPIRED, Handler, Executor, Executor, Executor, Executor, Executor]
      cycle_sleeping = Some s'" "exe s' = E_none" by blast
  from late_eviction_blocks_the_cpu [OF s s'(1)] r s' show ?thesis by blast
qed

text \<open>The process sleeps again, but the eviction comes while the last instruction is executed.\<close>

definition cycle_slept :: cpu_cycle where
  "cycle_slept = cycle_sleeping\<lparr>exe := E_top\<rparr>"

lemma cycle_slept_reach: "cpu_reach cycle_example cycle_slept"
proof -
  have "cpu_steps [Executor, Executor, Executor, Executor, Instruction (Some [''SLEEP'', ''50'']), Executor]
      cycle_running = Some cycle_slept"
  proof -
    have "atoi ''50'' = 50" by (simp add: atoi_def atoi_int_def is_space_def digit_of_def)
    then show ?thesis
      by (simp add: cycle_slept_def cycle_running_def cycle_sleeping_def cpu_step_def cpu_example_def send_to_def
          cycle_example_def instruction_step_def execute_instruction_def operand_def instruction_to_type_def
          instruction_sleep_def system_call_def stop_for_def Let_def context_example_def)
  qed
  then show ?thesis using cpu_steps_reach [OF cycle_running start] cpu_steps_reach by blast
qed

text \<open>An eviction can be confirmed while the process goes on: when the executor answers the
  eviction of a process that stops by itself, and the handler only then looks at
  \<open>is_executing\<close>, the semaphore stays at 1. The eviction of the next process takes that
  token: it is confirmed to Kernel Scheduler at the top of the process's loop, with its context
  not saved.\<close>
theorem eviction_confirmed_too_early:
  "\<exists>s. cpu_reach cycle_example s \<and> exec_pid s = 8 \<and> exe s = E_top \<and> is_executing s \<and>
     last (sent (cpu s)) = (To_scheduler, send_confirmation 8) \<and>
     (To_memory, context_send (exec_context s) 8) \<notin> set (sent (cpu s))"
proof -
  have "\<exists>s. cpu_steps ([Recv_evict QUANTUM_EXPIRED, Executor, Executor, Executor, Executor, Executor, Handler, Executor] @
        [Recv_execute 8, Handler, Handler, Handler, Recv_context context_example [],
         Recv_evict QUANTUM_EXPIRED, Handler, Handler]) cycle_slept = Some s \<and>
      exec_pid s = 8 \<and> exe s = E_top \<and> is_executing s \<and>
      last (sent (cpu s)) = (To_scheduler, send_confirmation 8) \<and>
      (To_memory, context_send (exec_context s) 8) \<notin> set (sent (cpu s))"
    by (simp add: cpu_step_def cycle_slept_def cycle_sleeping_def cycle_running_def cycle_example_def
        cpu_example_def post_if_interrupted_def send_to_def confirm_def send_process_interrupted_def
        context_send_def context_add_def context_example_def fetch_package_def package_add_def package_with_def package_create_def
        field_def u32_bytes_def)
  then show ?thesis using cycle_slept_reach cpu_steps_reach by blast
qed

end
