(* ===== verification/IO_Module.thy ===== *)
theory IO_Module
  imports Process_Utils
begin

text \<open>
  The I/O module (\<open>io/src/main.c\<close>): one device of a type, which serves the requests of Kernel
  Scheduler one after the other. The line the user types (\<open>readline\<close>, NULL at the end of the
  input) is an argument; what the device does is a value.
\<close>

datatype io_effect = Typed string | Printed string | Slept u32

definition io_type_from_string :: "string \<Rightarrow> t_io_type option" where
  "io_type_from_string str =
     (if str = ''STDIN'' then Some IO_TYPE_STDIN
      else if str = ''STDOUT'' then Some IO_TYPE_STDOUT
      else if str = ''SLEEP'' then Some IO_TYPE_SLEEP else None)"

text \<open>\<open>missing_characters\<close> is the \<open>int\<close> of a difference of 64-bit sizes. Appending the empty
  string as often as characters are missing does nothing. For \<open>2 ^ 32 - 1\<close> the size of the
  block wraps to 0.\<close>

definition io_stdin :: "u32 \<Rightarrow> string option \<Rightarrow> string run" where
  "io_stdin sz line =
     and_then (of_option line) (\<lambda>text.
       let missing_characters = sint (sz - of_nat (length text)) in
       if sz + 1 = 0 then Undef
       else if missing_characters < 0 then Ret (take (unat sz) text) else Ret text)"

definition io_sleep_ms :: "u32 \<Rightarrow> io_effect" where
  "io_sleep_ms ms = Slept (ms * 1000)"

definition io_handle_operation ::
  "t_io_type \<Rightarrow> string option \<Rightarrow> byte list \<Rightarrow> (io_effect \<times> t_package) option run" where
  "io_handle_operation io_type line buffer =
     (case io_type of
        IO_TYPE_STDIN \<Rightarrow>
          and_then (io_numeric_process_receive buffer) (\<lambda>r.
            case r of
              None \<Rightarrow> Ret None
            | Some io_process \<Rightarrow>
                and_then (io_stdin (ion_value io_process) line) (\<lambda>output.
                  Ret (Some (Typed output,
                    io_string_process_send (t_io_string_process_create (ion_pid io_process) output IO_TYPE_STDIN) STDIN))))
      | IO_TYPE_STDOUT \<Rightarrow>
          and_then (io_string_process_receive buffer) (\<lambda>r.
            case r of
              None \<Rightarrow> Ret None
            | Some io_process \<Rightarrow> Ret (Some (Printed (ios_value io_process), send_confirmation (ios_pid io_process))))
      | IO_TYPE_SLEEP \<Rightarrow>
          and_then (io_numeric_process_receive buffer) (\<lambda>r.
            case r of
              None \<Rightarrow> Ret None
            | Some io_process \<Rightarrow>
                Ret (Some (io_sleep_ms (ion_value io_process), send_confirmation (ion_pid io_process)))))"

text \<open>What the user typed, cut to the size that was asked for.\<close>

lemma io_stdin_take:
  assumes "unat sz < 2 ^ 31" and "length text < 2 ^ 31"
  shows "io_stdin sz (Some text) = Ret (take (unat sz) text)"
proof -
  have s: "sz + 1 \<noteq> 0"
    using assms(1) by (auto simp: word_unat_eq_iff u32_add_mod split: if_splits)
  have "unat sz < 2147483648" "length text < 2147483648" using assms by simp_all
  then have b: "int (unat sz) < 2147483648" "int (length text) < 2147483648" by linarith+
  have "sint (sz - of_nat (length text)) = int (unat sz) - int (length text)"
  proof -
    have "sz - of_nat (length text) = of_int (int (unat sz) - int (length text))"
      by simp
    moreover have "sint (of_int k :: u32) = k" if "- 2147483648 \<le> k" "k < 2147483648" for k
      using that by (simp add: signed_of_int signed_take_bit_int_eq_self)
    moreover have "- 2147483648 \<le> int (unat sz) - int (length text)"
      and "int (unat sz) - int (length text) < 2147483648" using b by linarith+
    ultimately show ?thesis by metis
  qed
  then have "sint (sz - of_nat (length text)) < 0 \<longleftrightarrow> unat sz < length text" by linarith
  then show ?thesis using s by (simp add: io_stdin_def Let_def)
qed

lemma sendable_take: "sendable text \<Longrightarrow> sendable (take n text)"
  by (auto simp: sendable_def c_str_def dest: in_set_takeD)

text \<open>A request for input is answered with what the user typed, cut to the size that was asked
  for.\<close>

definition typed_answer :: "u32 \<Rightarrow> string \<Rightarrow> t_package" where
  "typed_answer pid text = io_string_process_send (t_io_string_process_create pid text IO_TYPE_STDIN) STDIN"

lemma io_stdin_answer:
  assumes "unat sz < 2 ^ 31" and "sendable text"
  shows "io_handle_operation IO_TYPE_STDIN (Some text)
      (stream (io_numeric_process_send (t_io_numeric_process_create pid sz IO_TYPE_STDIN) STDIN)) =
        Ret (Some (Typed (take (unat sz) text), typed_answer pid (take (unat sz) text)))"
proof -
  have "length text < 2 ^ 31" using assms(2) by (simp add: sendable_def)
  with assms show ?thesis
    by (simp add: io_handle_operation_def io_numeric_process_roundtrip io_stdin_take typed_answer_def
        t_io_numeric_process_create_def)
qed

lemma typed_answer_received:
  "pkg_op (typed_answer pid text) = STDIN"
  "sendable text \<Longrightarrow> io_string_process_receive (stream (typed_answer pid text)) =
     Ret (Some (t_io_string_process_create pid text IO_TYPE_STDIN))"
  by (simp add: typed_answer_def io_string_process_send_def)
    (simp add: typed_answer_def io_string_process_roundtrip t_io_string_process_create_def)

text \<open>The time of a \<open>SLEEP\<close> is multiplied by 1000 in 32 bits: from 4294968 milliseconds on,
  a little more than 71 minutes, the device sleeps for the rest of the division only, and confirms
  at once.\<close>
theorem io_sleep_wraps:
  "io_handle_operation IO_TYPE_SLEEP line
     (stream (io_numeric_process_send (t_io_numeric_process_create pid 4294968 IO_TYPE_SLEEP) SLEEP)) =
   Ret (Some (Slept 704, send_confirmation pid))"
  by (simp add: io_handle_operation_def io_numeric_process_roundtrip t_io_numeric_process_create_def
      io_sleep_ms_def)

end
