(* ===== verification/Module_Start.thy ===== *)
theory Module_Start
  imports CPU_Cycle IO_Module Swap
begin

text \<open>
  The \<open>main\<close> functions of the modules that connect to another one: Memory Stick, SWAP, I/O and
  CPU, with the functions of \<open>utils\<close> that open connections. The configuration file (the commons
  library), the operating system and its \<open>connect\<close> are parameters. A start is a function of the
  bytes that the other side sends; it ends with the failure status, or with the state of the
  module that runs, the bytes it has sent and those it has not read yet.
\<close>

section \<open>Environment\<close>

record t_config =
  config_get_string_value :: "string \<Rightarrow> string option"
  config_get_int_value :: "string \<Rightarrow> int"
  config_get_array_value :: "string \<Rightarrow> string list"

record t_os =
  os_getaddrinfo :: "string option \<Rightarrow> string option \<Rightarrow> int"
  os_socket :: fd
  os_connect :: "fd \<Rightarrow> int"
  os_setsockopt :: "fd \<Rightarrow> int"
  os_bind :: "fd \<Rightarrow> int"
  os_listen :: "fd \<Rightarrow> int"
  os_getsockname :: "fd \<Rightarrow> ((byte \<times> byte \<times> byte \<times> byte) \<times> 16 word) option"

type_synonym connector = "string option \<Rightarrow> string option \<Rightarrow> fd"

datatype 'a start = Exit_failure | Running 'a

text \<open>\<open>and_runs\<close> goes on with a module that has not failed.\<close>

definition and_runs :: "'a start run \<Rightarrow> ('a \<Rightarrow> 'b start run) \<Rightarrow> 'b start run" where
  "and_runs r f = and_then r (\<lambda>x. case x of Exit_failure \<Rightarrow> Ret Exit_failure | Running a \<Rightarrow> f a)"

lemma and_runs_simps [simp]:
  "and_runs (Ret (Running a)) f = f a" "and_runs (Ret Exit_failure) f = Ret Exit_failure"
  "and_runs Undef f = Undef" "and_runs Blocks f = Blocks"
  by (simp_all add: and_runs_def)

definition connection_create :: "t_os \<Rightarrow> connector" where
  "connection_create os ip port =
     (if os_getaddrinfo os ip port \<noteq> 0 then - 1
      else let client_socket = os_socket os in
           if os_connect os client_socket \<noteq> 0 then - 1 else client_socket)"

definition server_start :: "t_os \<Rightarrow> string option \<Rightarrow> fd" where
  "server_start os port =
     (if os_getaddrinfo os None port \<noteq> 0 then - 1
      else let server_socket = os_socket os in
           if os_setsockopt os server_socket \<noteq> 0 then - 1
           else if os_bind os server_socket \<noteq> 0 then - 1
           else if os_listen os server_socket \<noteq> 0 then - 1 else server_socket)"

text \<open>\<open>snprintf\<close> into 6 bytes keeps 5 characters; \<open>inet_ntop\<close> writes the four bytes with dots.\<close>

definition get_port_from_fd :: "t_os \<Rightarrow> fd \<Rightarrow> string option" where
  "get_port_from_fd os f = map_option (\<lambda>(_, port). take 5 (decimal (unat port))) (os_getsockname os f)"

definition inet_ntop :: "byte \<times> byte \<times> byte \<times> byte \<Rightarrow> string" where
  "inet_ntop addr = (case addr of (a, b, c, d) \<Rightarrow>
     decimal (unat a) @ ''.'' @ decimal (unat b) @ ''.'' @ decimal (unat c) @ ''.'' @ decimal (unat d))"

definition get_ip_from_fd :: "t_os \<Rightarrow> fd \<Rightarrow> string option" where
  "get_ip_from_fd os f = map_option (\<lambda>(addr, _). inet_ntop addr) (os_getsockname os f)"

lemma decimal_chars: "c \<in> set (decimal n) \<Longrightarrow> 48 \<le> (of_char c :: nat) \<and> (of_char c :: nat) \<le> 57"
  by (induction n rule: decimal.induct) (subst (asm) (2) decimal.simps, auto split: if_splits)

lemma c_str_decimal [simp]: "c_str (decimal n)"
  by (auto simp: c_str_def byte_of_char_def dest!: decimal_chars simp: word_unat_eq_iff unat_of_nat)

lemma c_str_append [simp]: "c_str (a @ b) \<longleftrightarrow> c_str a \<and> c_str b"
  by (auto simp: c_str_def)

lemma c_str_dot [simp]: "c_str (CHR ''.'' # s) \<longleftrightarrow> c_str s"
  by (simp add: c_str_def byte_of_char_def)

lemma port_bound: "unat (port :: 16 word) < 65536"
  using unsigned_less [of port] by simp

text \<open>The five digits always fit, and what is announced can be sent as a string.\<close>

lemma port_fits [simp]: "take 5 (decimal (unat (port :: 16 word))) = decimal (unat port)"
  using length_decimal [of "unat port" 5] port_bound [of port] by simp

lemma sendable_port: "get_port_from_fd os f = Some port \<Longrightarrow> sendable port"
proof -
  assume "get_port_from_fd os f = Some port"
  then obtain n :: "16 word" where n: "port = decimal (unat n)" by (auto simp: get_port_from_fd_def)
  then show ?thesis using length_decimal [of "unat n" 5] port_bound [of n] by (simp add: sendable_def)
qed

lemma sendable_ip: "get_ip_from_fd os f = Some ip \<Longrightarrow> sendable ip"
proof -
  have l: "length (decimal (unat x)) \<le> 3" for x :: byte
    using length_decimal [of "unat x" 3] byte_bound [of x] by simp
  assume "get_ip_from_fd os f = Some ip"
  then obtain a b c d where n: "ip = inet_ntop (a, b, c, d)" by (auto simp: get_ip_from_fd_def)
  then show ?thesis using l [of a] l [of b] l [of c] l [of d] by (simp add: sendable_def inet_ntop_def)
qed

section \<open>What one side sends, the other side reads\<close>

lemma operation_received:
  "operation_receive (package_serialize p @ rest) =
    (Some (op_code_int (pkg_op p)), u32_bytes (of_nat (length (stream p))) @ stream p @ rest)"
  by (simp add: package_serialize_def)

lemma uint32_received [wire]: "uint32_receive (package_serialize (uint32_send v) @ rest) = Ret (v, rest)"
  using decode_with_serialize [of "field (u32_bytes v)" uint32_deserialize v "[]" rest]
  by (simp add: uint32_receive_def operation_received) (simp add: uint32_send_def package_create_def field_def)

lemma handshake_received [wire]:
  "handshake_receiver (package_serialize (t_module_id_send m) @ rest) = Ret (Some (module_id_int m), rest)"
  using decode_with_serialize [of "field (u32_bytes (module_id_int m))" t_module_id_deserialize "module_id_int m" "[]" rest]
  by (simp add: handshake_receiver_def operation_received t_module_id_decode_def)
    (simp add: t_module_id_send_def t_module_id_deserialize.simps field_def)

lemma io_type_received [wire]:
  "t_io_type_receive (package_serialize (t_io_type_send ty) @ rest) = Ret (io_type_int ty, rest)"
  using decode_with_serialize [of "field (u32_bytes (io_type_int ty))" t_io_type_deserialize "io_type_int ty" "[]" rest]
  by (simp add: t_io_type_receive_def operation_received)
    (simp add: t_io_type_send_def t_io_type_deserialize.simps field_def)

lemma message_received [wire]:
  "sendable text \<Longrightarrow>
   message_receive (message_send text [] @ rest) = Ret (Some (string_bytes text), rest)"
  using buffer_receive_serialize [of "string_bytes text" rest]
  by (simp add: message_receive_def message_send_def operation_received sendable_def string_bytes_def)

section \<open>Memory Stick\<close>

text \<open>\<open>kernel_memory_handler\<close> of a stick: its type, then it waits for its id, then its size.\<close>

definition stick_connect ::
  "connector \<Rightarrow> t_config \<Rightarrow> u32 \<Rightarrow> byte list \<Rightarrow> (fd \<times> u32 \<times> byte list \<times> byte list) start run" where
  "stick_connect connect cfg sz input =
     (let kernel_memory_fd = connect (config_get_string_value cfg ''KERNEL_MEMORY_IP'')
            (config_get_string_value cfg ''KERNEL_MEMORY_PORT'')
      in if kernel_memory_fd = - 1 then Ret Exit_failure
         else and_then (uint32_receive input) (\<lambda>(mem_stick_id, rest).
           Ret (Running (kernel_memory_fd, mem_stick_id,
             package_send (uint32_send sz) (package_send (t_module_id_send MODULE_MEMORY_STICK) []), rest))))"

text \<open>\<open>strlen\<close> of an address that could not be found is undefined. The status of the server is
  looked at by the caller, after the address has been sent.\<close>

definition server_setup :: "t_os \<Rightarrow> fd \<Rightarrow> byte list \<Rightarrow> (fd \<times> byte list) run" where
  "server_setup os kernel_memory_fd socket =
     (let server_fd = server_start os (Some ''0'') in
      and_then (of_option (get_ip_from_fd os kernel_memory_fd)) (\<lambda>ip.
        and_then (of_option (get_port_from_fd os server_fd)) (\<lambda>port.
          Ret (server_fd, message_send port (message_send ip socket)))))"

text \<open>The state: the block, its id, the listening socket; then what was sent, and the rest of the
  input.\<close>

definition stick_main ::
  "t_os \<Rightarrow> connector \<Rightarrow> (string \<Rightarrow> t_config option) \<Rightarrow> (u32 \<Rightarrow> bool) \<Rightarrow> string list \<Rightarrow> byte list \<Rightarrow>
   ((memory_stick \<times> u32 \<times> fd) \<times> byte list \<times> byte list) start run" where
  "stick_main os connect config_create malloc_works argv input =
     (if length argv < 3 then Ret Exit_failure
      else case config_create (argv ! 1) of
        None \<Rightarrow> Ret Exit_failure
      | Some cfg \<Rightarrow>
          (let sz = atoi (argv ! 2) in
           case memory_stick_create sz of
             None \<Rightarrow> Ret Exit_failure
           | Some stick \<Rightarrow>
               if \<not> malloc_works sz then Ret Exit_failure
               else and_runs (stick_connect connect cfg sz input) (\<lambda>(kernel_memory_fd, mem_stick_id, sent, rest).
                 and_then (server_setup os kernel_memory_fd sent) (\<lambda>(server_fd, sent).
                   if server_fd = - 1 then Ret Exit_failure
                   else Ret (Running ((stick, mem_stick_id, server_fd), sent, rest))))))"

text \<open>\<open>cpu_handler\<close> before its loop: a client that is no CPU is left alone.\<close>

definition stick_cpu_accept :: "fd \<Rightarrow> byte list \<Rightarrow> (t_client_info option \<times> byte list) run" where
  "stick_cpu_accept cpu_fd input =
     and_then (handshake_receiver input) (\<lambda>(module_id, rest).
       if module_id \<noteq> Some (module_id_int MODULE_CPU) then Ret (None, rest)
       else and_then (uint32_receive rest) (\<lambda>(i, rest). Ret (Some (create_client_info cpu_fd i), rest)))"

section \<open>SWAP\<close>

text \<open>A file that exists is taken as it is; otherwise it is created, if that can be done.\<close>

definition swap_open :: "(string \<rightharpoonup> byte list) \<Rightarrow> bool \<Rightarrow> string \<Rightarrow> u32 \<Rightarrow> u32 \<Rightarrow> swap_device option" where
  "swap_open files can_create path swap_file_size bs =
     (case files path of
        Some content \<Rightarrow> Some \<lparr>swap_file = content, block_size = bs\<rparr>
      | None \<Rightarrow> if can_create then Some (swap_create swap_file_size bs) else None)"

definition send_swap_info :: "u32 \<Rightarrow> u32 \<Rightarrow> byte list \<Rightarrow> byte list" where
  "send_swap_info bs swap_file_size socket =
     package_send (uint32_send swap_file_size) (package_send (uint32_send bs) socket)"

definition swap_main ::
  "(string \<rightharpoonup> byte list) \<Rightarrow> bool \<Rightarrow> connector \<Rightarrow> (string \<Rightarrow> t_config option) \<Rightarrow> string list \<Rightarrow>
   (swap_device \<times> byte list) start run" where
  "swap_main files can_create connect config_create argv =
     (if length argv < 2 then Ret Exit_failure
      else case config_create (argv ! 1) of
        None \<Rightarrow> Ret Exit_failure
      | Some cfg \<Rightarrow>
          (let swap_file_size = (of_int (config_get_int_value cfg ''SWAP_FILE_SIZE'') :: u32);
               bs = (of_int (config_get_int_value cfg ''BLOCK_SIZE'') :: u32)
           in and_then (of_option (config_get_string_value cfg ''SWAP_FILE_PATH'')) (\<lambda>path.
                case swap_open files can_create path swap_file_size bs of
                  None \<Rightarrow> Ret Exit_failure
                | Some dev \<Rightarrow>
                    if connect (config_get_string_value cfg ''KERNEL_MEMORY_IP'')
                         (config_get_string_value cfg ''KERNEL_MEMORY_PORT'') = - 1 then Ret Exit_failure
                    else Ret (Running (dev, send_swap_info bs swap_file_size
                           (package_send (t_module_id_send MODULE_SWAP) []))))))"

section \<open>I/O\<close>

definition io_main ::
  "connector \<Rightarrow> (string \<Rightarrow> t_config option) \<Rightarrow> string list \<Rightarrow> byte list \<Rightarrow>
   ((t_io_type \<times> u32) \<times> byte list \<times> byte list) start run" where
  "io_main connect config_create argv input =
     (if length argv < 3 then Ret Exit_failure
      else case config_create (argv ! 1) of
        None \<Rightarrow> Ret Exit_failure
      | Some cfg \<Rightarrow>
          (case io_type_from_string (argv ! 2) of
             None \<Rightarrow> Ret Exit_failure
           | Some io_type \<Rightarrow>
               if connect (config_get_string_value cfg ''KERNEL_SCHEDULER_IP'')
                    (config_get_string_value cfg ''KERNEL_SCHEDULER_PORT'') = - 1 then Ret Exit_failure
               else and_then (uint32_receive input) (\<lambda>(io_id, rest).
                 Ret (Running ((io_type, io_id),
                   package_send (t_io_type_send io_type) (package_send (t_module_id_send MODULE_IO) []), rest)))))"

section \<open>CPU\<close>

text \<open>What a CPU says first to Kernel Scheduler, to Kernel Memory and to each stick.\<close>

definition cpu_hello :: "u32 \<Rightarrow> byte list" where
  "cpu_hello cpu_id = package_send (uint32_send cpu_id) (package_send (t_module_id_send MODULE_CPU) [])"

definition connect_kernel_scheduler :: "connector \<Rightarrow> t_config \<Rightarrow> u32 \<Rightarrow> byte list start" where
  "connect_kernel_scheduler connect cfg cpu_id =
     (if connect (config_get_string_value cfg ''KERNEL_SCHEDULER_IP'')
           (config_get_string_value cfg ''KERNEL_SCHEDULER_PORT'') = - 1 then Exit_failure
      else Running (cpu_hello cpu_id))"

fun iterate_connection_create_with_memory_sticks ::
  "connector \<Rightarrow> t_memory_stick_credentials list \<Rightarrow> cpu_state \<Rightarrow> cpu_state start" where
  "iterate_connection_create_with_memory_sticks connect [] s = Running s"
| "iterate_connection_create_with_memory_sticks connect (cred # creds) s =
     (let memory_stick_fd = connect (Some (cred_ip cred)) (Some (cred_port cred)) in
      if memory_stick_fd = - 1 then Exit_failure
      else iterate_connection_create_with_memory_sticks connect creds
             (connect_with_memory_stick memory_stick_fd cred s))"

text \<open>The size of the NULL that \<open>receive_credentials_list\<close> returns for another message is undefined.\<close>

definition connect_kernel_memory ::
  "connector \<Rightarrow> t_config \<Rightarrow> u32 \<Rightarrow> byte list \<Rightarrow> cpu_state \<Rightarrow> (cpu_state \<times> byte list \<times> byte list) start run" where
  "connect_kernel_memory connect cfg cpu_id input s =
     (if connect (config_get_string_value cfg ''KERNEL_MEMORY_IP'')
           (config_get_string_value cfg ''KERNEL_MEMORY_PORT'') = - 1 then Ret Exit_failure
      else and_then (receive_credentials_list input) (\<lambda>(credentials_list, rest).
        and_then (of_option credentials_list) (\<lambda>creds.
          and_runs (Ret (iterate_connection_create_with_memory_sticks connect creds s)) (\<lambda>s.
            and_then (uint32_receive rest) (\<lambda>(limit, rest).
              Ret (Running (s\<lparr>cpu_segment_max_size := limit\<rparr>, cpu_hello cpu_id, rest)))))))"

text \<open>The state the globals start with: no stick, no thread, a free executor.\<close>

definition cpu_initial :: cpu_cycle where
  "cpu_initial =
     \<lparr>cpu = \<lparr>interrupt_pending = False, interrupt_reason = QUANTUM_EXPIRED, should_exit = False,
        should_stop = False, stop_reason = QUANTUM_EXPIRED, cpu_memory = (Map.empty, []),
        cpu_segment_max_size = 0, sent = []\<rparr>,
      exe = E_none, hdl = H_listen, is_executing = False, current_pid = 0, exec_pid = 0,
      exec_context = \<lparr>pc = 0, ax = 0, bx = 0, cx = 0, dx = 0, eax = 0, ebx = 0, ecx = 0, edx = 0,
        si = 0, di = 0\<rparr>,
      exec_table = [], has_jumped = False, sem_eviction_ready = 0, sem_eviction_handled = 0,
      sem_execution_finished = 1\<rparr>"

definition cpu_main ::
  "connector \<Rightarrow> (string \<Rightarrow> t_config option) \<Rightarrow> string list \<Rightarrow> sticks \<Rightarrow> byte list \<Rightarrow>
   (cpu_cycle \<times> byte list \<times> byte list \<times> byte list) start run" where
  "cpu_main connect config_create argv net input =
     (if length argv < 3 then Ret Exit_failure
      else case config_create (argv ! 1) of
        None \<Rightarrow> Ret Exit_failure
      | Some cfg \<Rightarrow>
          (let cpu_id = atoi (argv ! 2); s = cpu_initial in
           and_runs (Ret (connect_kernel_scheduler connect cfg cpu_id)) (\<lambda>to_ks.
             and_runs (connect_kernel_memory connect cfg cpu_id input ((cpu s)\<lparr>cpu_memory := (net, [])\<rparr>))
               (\<lambda>(c, to_km, rest). Ret (Running (s\<lparr>cpu := c\<rparr>, to_ks, to_km, rest))))))"

section \<open>What the starts establish\<close>

lemma and_runs_Running:
  "and_runs r f = Ret (Running y) \<longleftrightarrow> (\<exists>a. r = Ret (Running a) \<and> f a = Ret (Running y))"
  by (cases r) (auto simp: and_runs_def split: start.splits)

lemma hello_accepted: "stick_cpu_accept cpu_fd (cpu_hello cpu_id @ rest) = Ret (Some (create_client_info cpu_fd cpu_id), rest)"
  by (simp add: stick_cpu_accept_def cpu_hello_def package_send_def handshake_received uint32_received)

text \<open>Connecting to a list of sticks appends them in the order of the list.\<close>

definition stick_infos :: "connector \<Rightarrow> t_memory_stick_credentials list \<Rightarrow> t_memory_stick_info list" where
  "stick_infos connect creds = map (\<lambda>c. \<lparr>ms_fd = connect (Some (cred_ip c)) (Some (cred_port c)),
     ms_id = cred_id c, ms_size = cred_size c, last_op_result = None, last_read_buffer = None\<rparr>) creds"

lemma iterate_connects:
  assumes "\<forall>c \<in> set creds. connect (Some (cred_ip c)) (Some (cred_port c)) \<noteq> - 1"
  shows "iterate_connection_create_with_memory_sticks connect creds s =
    Running (s\<lparr>cpu_memory := (fst (cpu_memory s), snd (cpu_memory s) @ stick_infos connect creds)\<rparr>)"
  using assms by (induction creds arbitrary: s) (simp_all add: stick_infos_def connect_with_memory_stick_def Let_def)

lemma iterate_frame:
  "iterate_connection_create_with_memory_sticks connect creds s = Running t \<Longrightarrow>
   interrupt_pending t = interrupt_pending s \<and> should_exit t = should_exit s \<and> should_stop t = should_stop s"
  by (induction creds arbitrary: s) (auto simp: Let_def connect_with_memory_stick_def split: if_splits)

text \<open>A CPU that has connected is in the state its threads start from.\<close>

lemma cpu_main_started:
  assumes "cpu_main connect config_create argv net input = Ret (Running (s, to_ks, to_km, rest))"
  shows "cpu_started s"
proof -
  have "cpu_started (cpu_initial\<lparr>cpu := c\<rparr>)"
    if "interrupt_pending c = interrupt_pending (cpu cpu_initial)" "should_exit c = should_exit (cpu cpu_initial)"
      "should_stop c = should_stop (cpu cpu_initial)" for c
    using that by (simp add: cpu_started_def cpu_initial_def)
  then show ?thesis
    using assms by (auto simp: cpu_main_def and_runs_Running and_then_eq_Ret Let_def connect_kernel_memory_def
        dest!: iterate_frame split: if_splits option.splits)
qed

text \<open>A Memory Stick that cannot listen does not end with the failure status: it asks for the port
  of the socket that is not there, gets NULL, and sends that, before \<open>main\<close> looks at the socket.\<close>
theorem stick_without_server_undefined:
  assumes "server_start os (Some ''0'') = - 1" and "os_getsockname os (- 1) = None"
  shows "server_setup os kernel_memory_fd socket = Undef"
proof -
  have "get_port_from_fd os (- 1) = None" using assms(2) by (simp add: get_port_from_fd_def)
  then show ?thesis
    using assms(1) by (cases "get_ip_from_fd os kernel_memory_fd") (simp_all add: server_setup_def)
qed

theorem stick_without_server_undefined_witness:
  "server_setup \<lparr>os_getaddrinfo = \<lambda>_ _. 0, os_socket = 4, os_connect = \<lambda>_. 0, os_setsockopt = \<lambda>_. 0,
     os_bind = \<lambda>_. 98, os_listen = \<lambda>_. 0,
     os_getsockname = \<lambda>f. if f = 3 then Some ((127, 0, 0, 1), 8002) else None\<rparr> 3 [] = Undef"
  by (rule stick_without_server_undefined) (simp_all add: server_start_def)

text \<open>A SWAP whose size is configured as 0 does not start empty: the offset of the last byte is
  computed in 32 bits and the file that is created has 4 GiB, while Kernel Memory is told 0.\<close>
theorem swap_of_size_zero:
  assumes "config_create (argv ! 1) = Some cfg" and "2 \<le> length argv"
    and "config_get_int_value cfg ''SWAP_FILE_SIZE'' = 0" and "config_get_string_value cfg ''SWAP_FILE_PATH'' = Some path"
    and "files path = None"
    and "connect (config_get_string_value cfg ''KERNEL_MEMORY_IP'') (config_get_string_value cfg ''KERNEL_MEMORY_PORT'') \<noteq> - 1"
  shows "\<exists>dev bytes. swap_main files True connect config_create argv =
       Ret (Running (dev, bytes @ package_serialize (uint32_send 0))) \<and> length (swap_file dev) = 2 ^ 32"
proof -
  have "unat (0 - 1 :: u32) = 4294967295"
    by (simp add: unsigned_minus_1_eq_mask mask_eq_exp_minus_1)
  then have "Suc (unat (0 - 1 :: u32)) = 2 ^ 32" by (simp del: unat_minus_one)
  then have "length (swap_file (swap_create 0 bs)) = 2 ^ 32" for bs
    unfolding swap_create_def by (simp only: swap_device.simps length_replicate)
  then show ?thesis using assms by (simp add: swap_main_def swap_open_def send_swap_info_def package_send_def Let_def)
qed

theorem swap_of_size_zero_witness:
  "\<exists>dev bytes. swap_main Map.empty True (\<lambda>_ _. 3) (\<lambda>_. Some \<lparr>config_get_string_value = \<lambda>_. Some ''swap.bin'',
       config_get_int_value = \<lambda>_. 0, config_get_array_value = \<lambda>_. []\<rparr>) [''swap'', ''swap.config''] =
       Ret (Running (dev, bytes @ package_serialize (uint32_send 0))) \<and> length (swap_file dev) = 2 ^ 32"
  using swap_of_size_zero [where argv = "[''swap'', ''swap.config'']" and path = "''swap.bin''" and files = Map.empty
      and connect = "\<lambda>_ _. 3" and config_create = "\<lambda>_. Some \<lparr>config_get_string_value = \<lambda>_. Some ''swap.bin'',
       config_get_int_value = \<lambda>_. 0, config_get_array_value = \<lambda>_. []\<rparr>"]
  by simp

end
