(* ===== verification/KM_Start.thy ===== *)
theory KM_Start
  imports KM_System Module_Start
begin

text \<open>
  Kernel Memory from its \<open>main\<close> on: the first state, and \<open>handle_module\<close>, which a thread of its
  own runs for every connection. \<open>km_boot\<close> are the states in which modules have connected, one
  after the other; the interleaving of their threads is in \<open>KM_Connections\<close>.
\<close>

section \<open>The main function\<close>

text \<open>\<open>segment_max_size <= 0\<close> compares a \<open>uint32_t\<close>: only 0 is refused.\<close>

definition km_initial :: "string \<Rightarrow> u32 \<Rightarrow> km_server" where
  "km_initial strategy limit =
     \<lparr>km = \<lparr>list_processes = [], list_suspended_processes = [], km_memory = (Map.empty, []),
        total_memory_size = 0, allocation_strategy = strategy, swap_block_size = 0,
        swap_total_size = 0, swap_dev = \<lparr>swap_file = [], block_size = 0\<rparr>, compaction_sem = 0,
        compaction_waiters = [], to_scheduler = []\<rparr>,
      segment_threads = [], list_memory_stick_credentials = [], list_cpu = [],
      next_memory_stick_id = 0, kernel_scheduler = None, segment_max_size = limit, outgoing = []\<rparr>"

definition km_main ::
  "t_os \<Rightarrow> (string \<Rightarrow> t_config option) \<Rightarrow> string list \<Rightarrow> (km_server \<times> fd) start" where
  "km_main os config_create argv =
     (if length argv < 2 then Exit_failure
      else case config_create (argv ! 1) of
        None \<Rightarrow> Exit_failure
      | Some cfg \<Rightarrow>
          (case config_get_string_value cfg ''ALLOCATION_STRATEGY'' of
             None \<Rightarrow> Exit_failure
           | Some strategy \<Rightarrow>
               let limit = (of_int (config_get_int_value cfg ''SEGMENT_MAX_SIZE'') :: u32);
                   server_fd = server_start os (config_get_string_value cfg ''KERNEL_MEMORY_PORT'')
               in if limit = 0 then Exit_failure
                  else if server_fd = - 1 then Exit_failure
                  else Running (km_initial strategy limit, server_fd)))"

section \<open>A module connects\<close>

text \<open>The two numbers that SWAP sends, \<open>swap_handler\<close> before its loop.\<close>

definition swap_connected :: "byte list \<Rightarrow> km_state \<Rightarrow> (km_state \<times> byte list) run" where
  "swap_connected input s =
     and_then (uint32_receive input) (\<lambda>(bs, rest).
       and_then (uint32_receive rest) (\<lambda>(total, rest).
         Ret (s\<lparr>swap_block_size := bs, swap_total_size := total\<rparr>, rest)))"

text \<open>A stick: it is told its id and announces its size, then where it listens. The address is
  used as a string when it is sent to the CPUs; a NULL, which \<open>message_receive\<close> gives for another
  message, is taken as undefined here already.\<close>

definition memory_stick_connected :: "fd \<Rightarrow> byte list \<Rightarrow> km_server \<Rightarrow> (km_server \<times> byte list) run" where
  "memory_stick_connected client_fd input srv =
     and_then (uint32_receive input) (\<lambda>(sz, rest).
       case memory_stick_announce client_fd sz srv of
         (new_id, srv) \<Rightarrow>
           and_then (message_receive rest) (\<lambda>(ip, rest).
             and_then (message_receive rest) (\<lambda>(port, rest).
               and_then (of_option (Option.bind ip c_string)) (\<lambda>ip.
                 and_then (of_option (Option.bind port c_string)) (\<lambda>port.
                   Ret (memory_stick_register client_fd new_id sz ip port srv, rest))))))"

definition handle_module :: "fd \<Rightarrow> byte list \<Rightarrow> km_server \<Rightarrow> (km_server \<times> byte list) run" where
  "handle_module client_fd input srv =
     and_then (handshake_receiver input) (\<lambda>(module_id, rest).
       if module_id = Some (module_id_int MODULE_KERNEL_SCHEDULER)
       then Ret (kernel_scheduler_connected client_fd srv, rest)
       else if module_id = Some (module_id_int MODULE_CPU)
       then and_then (uint32_receive rest) (\<lambda>(cpu_id, rest). Ret (cpu_connected client_fd cpu_id srv, rest))
       else if module_id = Some (module_id_int MODULE_SWAP)
       then and_then (swap_connected rest (km srv)) (\<lambda>(s, rest). Ret (srv\<lparr>km := s\<rparr>, rest))
       else if module_id = Some (module_id_int MODULE_MEMORY_STICK)
       then memory_stick_connected client_fd rest srv
       else Ret (srv, rest))"

text \<open>The messages of a start, read by \<open>handle_module\<close>.\<close>

lemma module_ids [simp]: "module_id_int a = module_id_int b \<longleftrightarrow> a = b"
  by (cases a; cases b) simp_all

lemma sends_append:
  "package_send p socket = socket @ package_serialize p" "message_send text socket = socket @ message_send text []"
  by (simp_all add: package_send_def message_send_def)

lemma c_string_bytes: "sendable str \<Longrightarrow> c_string (string_bytes str) = Some str"
  using string_deserialize_field(2) [of str]
  by (simp add: string_deserialize.simps sendable_def split: option.splits)

section \<open>Boot\<close>

text \<open>A new connection leads to the stick, or to the SWAP, that opened it.\<close>

definition plug :: "fd \<Rightarrow> memory_stick \<Rightarrow> km_state \<Rightarrow> km_state" where
  "plug client_fd stick s = s\<lparr>km_memory := ((fst (km_memory s))(client_fd \<mapsto> stick), snd (km_memory s))\<rparr>"

text \<open>The states of Kernel Memory in which modules connect in any order and number. The file of a
  SWAP is new, its block size is sensible, and the memory of all sticks stays below a gigabyte.\<close>

inductive km_boot :: "km_server \<Rightarrow> bool" where
  main: "km_main os config_create argv = Running (srv, server_fd) \<Longrightarrow> km_boot srv"
| scheduler: "km_boot srv \<Longrightarrow>
    handle_module client_fd (package_send (t_module_id_send MODULE_KERNEL_SCHEDULER) []) srv = Ret (srv', rest) \<Longrightarrow>
    km_boot srv'"
| cpu: "km_boot srv \<Longrightarrow> handle_module client_fd (cpu_hello cpu_id) srv = Ret (srv', rest) \<Longrightarrow> km_boot srv'"
| swap: "km_boot srv \<Longrightarrow>
    swap_main Map.empty True connect config_create argv = Ret (Running (dev, bytes)) \<Longrightarrow>
    block_size dev \<noteq> 0 \<Longrightarrow> unat (block_size dev) < 2 ^ 30 \<Longrightarrow>
    handle_module client_fd bytes (on_km (\<lambda>s. s\<lparr>swap_dev := dev\<rparr>) srv) = Ret (srv', rest) \<Longrightarrow>
    km_boot srv'"
| stick: "km_boot srv \<Longrightarrow>
    stick_main os connect config_create malloc_works argv input = Ret (Running ((stick, i, server_fd), bytes, rest)) \<Longrightarrow>
    fst (km_memory (km srv)) client_fd = None \<Longrightarrow>
    unat (total_memory_size (km srv)) + unat (stick_size stick) < 2 ^ 30 \<Longrightarrow>
    handle_module client_fd bytes (on_km (plug client_fd stick) srv) = Ret (srv', rest') \<Longrightarrow>
    km_boot srv'"

text \<open>What a stick says, and what Kernel Memory does with it.\<close>

lemma stick_joins:
  assumes "stick_main os connect config_create malloc_works argv input = Ret (Running ((stick, i, server_fd), bytes, rest))"
  obtains ip port where "sendable ip" "sendable port" "stick_wf stick"
    "stick_memory stick = replicate (unat (stick_size stick)) 0" "stick_size stick \<noteq> 0"
    "\<And>client_fd srv. handle_module client_fd bytes srv =
       Ret (memory_stick_protocol client_fd (stick_size stick) ip port srv, [])"
proof -
  obtain cfg f ip port where c: "memory_stick_create (atoi (argv ! 2)) = Some stick"
    "get_ip_from_fd os f = Some ip" "get_port_from_fd os server_fd = Some port"
    "bytes = message_send port (message_send ip (package_send (uint32_send (atoi (argv ! 2)))
       (package_send (t_module_id_send MODULE_MEMORY_STICK) [])))"
    using assms by (auto simp: stick_main_def and_runs_Running and_then_eq_Ret Let_def stick_connect_def
        server_setup_def split: if_splits option.splits)
  then have st: "stick_size stick = atoi (argv ! 2)" "stick_wf stick" "stick_size stick \<noteq> 0"
    "stick_memory stick = replicate (unat (stick_size stick)) 0"
    by (auto simp: memory_stick_create_def stick_wf_def split: if_splits)
  note s = sendable_ip [OF c(2)] sendable_port [OF c(3)]
  have "bytes = package_serialize (t_module_id_send MODULE_MEMORY_STICK) @
      package_serialize (uint32_send (stick_size stick)) @ message_send ip [] @ message_send port []"
    unfolding c(4) st(1) by (simp add: sends_append [of _ "_ @ _"] sends_append [of _ "package_serialize _"] package_send_def)
  then have "handle_module client_fd bytes srv =
      Ret (memory_stick_protocol client_fd (stick_size stick) ip port srv, [])" for client_fd srv
    using s message_received [of port "[]"]
    by (simp add: handle_module_def handshake_received memory_stick_connected_def uint32_received
        message_received c_string_bytes memory_stick_protocol_def split: prod.splits)
  then show ?thesis using that [OF s st(2,4,3)] by blast
qed

lemma scheduler_joins:
  "handle_module client_fd (package_send (t_module_id_send MODULE_KERNEL_SCHEDULER) []) srv =
    Ret (kernel_scheduler_connected client_fd srv, [])"
  using handshake_received [of MODULE_KERNEL_SCHEDULER "[]"] by (simp add: handle_module_def package_send_def)

lemma cpu_joins: "handle_module client_fd (cpu_hello cpu_id) srv = Ret (cpu_connected client_fd cpu_id srv, [])"
  using uint32_received [of cpu_id "[]"]
  by (simp add: handle_module_def cpu_hello_def package_send_def handshake_received)

lemma swap_joins:
  assumes "swap_main files can_create connect config_create argv = Ret (Running (dev, bytes))"
  obtains ttl where "files = Map.empty \<Longrightarrow> dev = swap_create ttl (block_size dev)"
    "\<And>client_fd srv. handle_module client_fd bytes srv =
       Ret (on_km (\<lambda>s. s\<lparr>swap_block_size := block_size dev, swap_total_size := ttl\<rparr>) srv, [])"
proof -
  obtain path ttl bs where c: "swap_open files can_create path ttl bs = Some dev"
    "bytes = send_swap_info bs ttl (package_send (t_module_id_send MODULE_SWAP) [])"
    using assms by (auto simp: swap_main_def and_then_eq_Ret Let_def split: if_splits option.splits)
  then have bs: "block_size dev = bs" "files = Map.empty \<longrightarrow> dev = swap_create ttl bs"
    by (auto simp: swap_open_def swap_create_def split: option.splits if_splits)
  have "handle_module client_fd bytes srv =
      Ret (on_km (\<lambda>s. s\<lparr>swap_block_size := bs, swap_total_size := ttl\<rparr>) srv, [])" for client_fd srv
    using uint32_received [of ttl "[]"]
    by (simp add: c(2) handle_module_def send_swap_info_def package_send_def handshake_received
        swap_connected_def uint32_received on_km_def)
  then show ?thesis using that bs by blast
qed

text \<open>The file that SWAP creates has all the blocks Kernel Memory will use.\<close>

lemma new_swap_ok:
  assumes "dev = swap_create ttl bs" and "bs \<noteq> 0" and "unat bs < 2 ^ 30"
  shows "swap_ok (s\<lparr>swap_dev := dev, swap_block_size := bs, swap_total_size := ttl\<rparr>)"
proof -
  have "Suc i * unat bs \<le> Suc (unat (ttl - 1))" if i: "i < unat (ttl div bs)" for i
  proof -
    have "Suc i * unat bs \<le> unat ttl div unat bs * unat bs"
      using i by (intro mult_right_mono) (simp_all add: unat_div)
    also have "\<dots> \<le> unat ttl" by simp
    also have "\<dots> \<le> Suc (unat (ttl - 1))"
      by (cases "ttl = 0") (simp_all add: unat_minus_one unat_gt_0)
    finally show ?thesis .
  qed
  moreover have "unat (of_nat i :: u32) = i" if "i < unat (ttl div bs)" for i
  proof -
    have "i < 4294967296" using that u32_bound by (rule less_trans)
    then show ?thesis by (simp add: unat_of_nat)
  qed
  moreover have "0 < unat bs" using assms(2) by (simp add: unat_gt_0)
  ultimately show ?thesis
    using assms by (auto simp: swap_ok_def swap_valid_def swap_in_range_def swap_create_def)
qed

text \<open>What holds while modules connect: no process yet, and the sticks, their announcements and the
  total agree.\<close>

definition boot_ok :: "km_server \<Rightarrow> bool" where
  "boot_ok srv \<longleftrightarrow>
     km_inv (km srv) \<and> list_processes (km srv) = [] \<and> segment_threads srv = [] \<and>
     compaction_waiters (km srv) = [] \<and> (swap_block_size (km srv) = 0 \<or> swap_ok (km srv)) \<and>
     (\<forall>c \<in> set (list_memory_stick_credentials srv). credentials_ok c) \<and>
     map (\<lambda>mi. (ms_id mi, ms_size mi)) (snd (km_memory (km srv))) =
     map (\<lambda>c. (cred_id c, cred_size c)) (list_memory_stick_credentials srv)"

lemma boot_ok_frame [simp]:
  "boot_ok (send_on f pkg srv) = boot_ok srv" "boot_ok (srv\<lparr>kernel_scheduler := x\<rparr>) = boot_ok srv"
  "boot_ok (srv\<lparr>list_cpu := cs\<rparr>) = boot_ok srv" "boot_ok (srv\<lparr>next_memory_stick_id := n\<rparr>) = boot_ok srv"
  "boot_ok (srv\<lparr>outgoing := ps\<rparr>) = boot_ok srv"
  "boot_ok (on_km (send_memory_update n) srv) = boot_ok srv"
  by (simp_all add: boot_ok_def send_on_def on_km_def send_memory_update_def)
    (simp add: send_to_scheduler_def)

lemma stick_keeps_boot:
  assumes "boot_ok srv" and "fst (km_memory (km srv)) client_fd = None"
    and "unat (total_memory_size (km srv)) + unat sz < 2 ^ 30"
    and "stick_wf stick" and "stick_size stick = sz" and "sendable ip" and "sendable port"
  shows "boot_ok (memory_stick_protocol client_fd sz ip port (on_km (plug client_fd stick) srv))"
proof -
  let ?m = "km_memory (km srv)"
  let ?info = "\<lparr>ms_fd = client_fd, ms_id = next_memory_stick_id srv, ms_size = sz,
      last_op_result = None, last_read_buffer = None\<rparr>"
  let ?m' = "((fst ?m)(client_fd \<mapsto> stick), snd ?m @ [?info])"
  let ?s = "(km srv)\<lparr>km_memory := ?m', total_memory_size := total_memory_size (km srv) + sz\<rparr>"
  have v: "memory_valid ?m" "length (memory_content ?m) = unat (total_memory_size (km srv))"
    and e: "list_processes (km srv) = []" using assms(1) by (simp_all add: boot_ok_def km_inv_def)
  have new: "client_fd \<notin> ms_fd ` set (snd ?m)"
    using v(1) assms(2) by (auto simp: memory_valid_def sticks_ok_def link_ok_def)
  have same: "stick_bytes ((fst ?m)(client_fd \<mapsto> stick)) mi = stick_bytes (fst ?m) mi"
    "link_ok ((fst ?m)(client_fd \<mapsto> stick)) mi = link_ok (fst ?m) mi" if "mi \<in> set (snd ?m)" for mi
    using that new by (auto simp: stick_bytes_def link_ok_def)
  then have "flat ((fst ?m)(client_fd \<mapsto> stick)) (snd ?m) = flat (fst ?m) (snd ?m)"
    by (simp add: flat_def cong: map_cong)
  then have content: "memory_content ?m' = memory_content ?m @ stick_memory stick"
    by (simp add: memory_content_def stick_bytes_def)
  have len: "length (memory_content ?m') = unat (total_memory_size (km srv)) + unat sz"
    using assms(4,5) v(2) by (simp add: content stick_wf_def)
  then have "memory_valid ?m'"
    using v(1) new same assms(3-5)
    by (auto simp: memory_valid_def sticks_ok_def memory_content_def link_ok_def)
  moreover have "unat (total_memory_size (km srv) + sz) = unat (total_memory_size (km srv)) + unat sz"
    using assms(3) by (intro u32_add_unat) simp
  ultimately have "km_inv ?s" using len e by (simp add: km_inv_def occupied_def all_segments_def placed_def)
  then have ok: "boot_ok (srv\<lparr>km := ?s, list_memory_stick_credentials := list_memory_stick_credentials srv @
      [\<lparr>cred_ip = ip, cred_port = port, cred_id = next_memory_stick_id srv, cred_size = sz\<rparr>]\<rparr>)"
    using assms(1,6,7) by (simp add: boot_ok_def credentials_ok_def swap_ok_def)
  show ?thesis
    using ok by (simp add: memory_stick_protocol_def memory_stick_announce_def memory_stick_register_def Let_def
        update_cpu_list_def on_km_def plug_def send_on_def send_memory_update_def send_to_scheduler_def
        create_memory_stick_info_def boot_ok_def km_inv_def occupied_def all_segments_def placed_def swap_ok_def)
qed

lemma boot_keeps: "km_boot srv \<Longrightarrow> boot_ok srv"
proof (induction rule: km_boot.induct)
  case (main os config_create argv srv server_fd)
  then show ?case
    by (auto simp: km_main_def Let_def km_initial_def boot_ok_def km_inv_def occupied_def all_segments_def placed_def
        memory_valid_def memory_content_def sticks_ok_def split: if_splits option.splits)
next
  case (scheduler srv client_fd srv' rest)
  then show ?case by (auto simp: scheduler_joins kernel_scheduler_connected_def Let_def)
next
  case (cpu srv client_fd cpu_id srv' rest)
  then show ?case by (auto simp: cpu_joins cpu_connected_def)
next
  case (swap srv connect config_create argv dev bytes client_fd srv' rest)
  obtain ttl where t: "dev = swap_create ttl (block_size dev)"
    "srv' = on_km (\<lambda>s. s\<lparr>swap_dev := dev, swap_block_size := block_size dev, swap_total_size := ttl\<rparr>) srv"
    using swap.hyps by (auto elim!: swap_joins simp: on_km_def)
  then show ?case
    using swap.IH new_swap_ok [OF t(1) swap.hyps(3,4), of "km srv"]
    by (simp add: boot_ok_def on_km_def km_inv_def occupied_def all_segments_def placed_def)
next
  case (stick srv os connect config_create malloc_works argv input stick i server_fd bytes rest client_fd srv' rest')
  obtain ip port where j: "sendable ip" "sendable port" "stick_wf stick"
    "handle_module client_fd bytes (on_km (plug client_fd stick) srv) =
       Ret (memory_stick_protocol client_fd (stick_size stick) ip port (on_km (plug client_fd stick) srv), [])"
    by (rule stick_joins [OF stick.hyps(2)]) blast
  then have "srv' = memory_stick_protocol client_fd (stick_size stick) ip port (on_km (plug client_fd stick) srv)"
    using stick.hyps(5) by simp
  then show ?case using stick_keeps_boot [OF stick.IH stick.hyps(3,4) j(3) refl j(1,2)] by simp
qed



section \<open>A small system\<close>

definition example_os :: t_os where
  "example_os = \<lparr>os_getaddrinfo = \<lambda>_ _. 0, os_socket = 3, os_connect = \<lambda>_. 0, os_setsockopt = \<lambda>_. 0,
     os_bind = \<lambda>_. 0, os_listen = \<lambda>_. 0, os_getsockname = \<lambda>_. Some ((127, 0, 0, 1), 8002)\<rparr>"

definition example_config :: t_config where
  "example_config = \<lparr>config_get_string_value = \<lambda>key. Some ''BEST'', config_get_int_value = \<lambda>key. 64,
     config_get_array_value = \<lambda>key. []\<rparr>"

definition example_boot :: km_server where
  "example_boot = memory_stick_protocol 7 8 ''127.0.0.1'' ''8002''
     (on_km (plug 7 \<lparr>stick_size = 8, stick_memory = replicate 8 0\<rparr>)
       (on_km (\<lambda>s. s\<lparr>swap_dev := swap_create 64 64, swap_block_size := 64, swap_total_size := 64\<rparr>)
         (km_initial ''BEST'' 64)))"

lemma example_texts: "inet_ntop (127, 0, 0, 1) = ''127.0.0.1''" "decimal 8002 = ''8002''"
  by (simp_all add: inet_ntop_def decimal.simps char_of_def bit_numeral_rec bit_0)

lemma example_boot: "km_boot example_boot"
proof -
  have server: "server_start example_os p = 3" for p by (simp add: server_start_def example_os_def Let_def)
  have "km_main example_os (\<lambda>_. Some example_config) [''memory'', ''memory.config''] =
      Running (km_initial ''BEST'' 64, 3)"
    by (simp add: km_main_def server example_config_def)
  then have 1: "km_boot (km_initial ''BEST'' 64)" by (rule km_boot.main)
  have "swap_main Map.empty True (\<lambda>_ _. 3) (\<lambda>_. Some example_config) [''swap'', ''swap.config''] =
      Ret (Running (swap_create 64 64, send_swap_info 64 64 (package_send (t_module_id_send MODULE_SWAP) [])))"
    by (simp add: swap_main_def example_config_def swap_open_def)
  note swap = km_boot.swap [OF 1 this]
  have "handle_module 6 (send_swap_info 64 64 (package_send (t_module_id_send MODULE_SWAP) []))
      (on_km (\<lambda>s. s\<lparr>swap_dev := swap_create 64 64\<rparr>) (km_initial ''BEST'' 64)) =
      Ret (on_km (\<lambda>s. s\<lparr>swap_dev := swap_create 64 64, swap_block_size := 64, swap_total_size := 64\<rparr>)
        (km_initial ''BEST'' 64), [])"
    using uint32_received [of 64 "[]"]
    by (simp add: handle_module_def send_swap_info_def package_send_def handshake_received
        swap_connected_def uint32_received on_km_def)
  then have 2: "km_boot (on_km (\<lambda>s. s\<lparr>swap_dev := swap_create 64 64, swap_block_size := 64, swap_total_size := 64\<rparr>)
        (km_initial ''BEST'' 64))" (is "km_boot ?srv")
    by (rule swap [rotated 2]) (simp_all add: swap_create_def)
  let ?bytes = "message_send ''8002'' (message_send ''127.0.0.1''
      (package_send (uint32_send 8) (package_send (t_module_id_send MODULE_MEMORY_STICK) [])))"
  let ?stick = "\<lparr>stick_size = 8, stick_memory = replicate 8 0\<rparr>"
  have "atoi ''8'' = 8" by (simp add: atoi_def atoi_int_def is_space_def digit_of_def)
  then have "stick_main example_os (\<lambda>_ _. 4) (\<lambda>_. Some example_config) (\<lambda>_. True) [''stick'', ''stick.config'', ''8'']
      (package_serialize (uint32_send 0)) = Ret (Running ((?stick, 0, 3), ?bytes, []))"
    using uint32_received [of 0 "[]"]
    by (simp add: stick_main_def memory_stick_create_def stick_connect_def server_setup_def server
        get_ip_from_fd_def get_port_from_fd_def example_texts)
      (simp add: example_os_def example_texts)
  note stick = km_boot.stick [OF 2 this, of 7]
  have texts: "sendable ''127.0.0.1''" "sendable ''8002''" by (simp_all add: sendable_def c_str_def byte_of_char_def)
  have "handle_module 7 ?bytes (on_km (plug 7 ?stick) ?srv) = Ret (example_boot, [])"
    using texts message_received [of "''8002''" "[]"]
    by (simp add: sends_append [of _ "_ @ _"] sends_append [of _ "package_serialize _"] package_send_def
        handle_module_def handshake_received memory_stick_connected_def uint32_received
        message_received c_string_bytes example_boot_def memory_stick_protocol_def split: prod.splits)
  then show ?thesis
    by (rule stick [rotated 2]) (simp_all add: on_km_def km_initial_def)
qed

lemma example_boot_parts:
  "swap_block_size (km example_boot) = 64" "segment_max_size example_boot = 64"
  "list_memory_stick_credentials example_boot =
     [\<lparr>cred_ip = ''127.0.0.1'', cred_port = ''8002'', cred_id = 0, cred_size = 8\<rparr>]"
  "map (\<lambda>mi. (ms_id mi, ms_size mi)) (snd (km_memory (km example_boot))) = [(0, 8)]"
  by (simp_all add: example_boot_def memory_stick_protocol_def memory_stick_announce_def memory_stick_register_def
      Let_def on_km_def plug_def send_on_def create_memory_stick_info_def km_initial_def)



end
