(* ===== verification/KM_Connections.thy ===== *)
theory KM_Connections
  imports KM_Start
begin

text \<open>
  The connections of Kernel Memory as threads that interleave: \<open>handle_module\<close> runs in a thread
  of its own for every CPU and every Memory Stick, and each step below is what one of them does
  under one mutex, or one send. Run without interruption the steps are \<open>cpu_connected\<close> and
  \<open>memory_stick_protocol\<close>; interleaved they still leave no CPU without a stick, but the same stick
  may be announced twice, too early, or in another order than Kernel Memory has it.
\<close>

section \<open>The steps of a CPU's thread\<close>

definition cpu_listed :: "fd \<Rightarrow> u32 \<Rightarrow> km_server \<Rightarrow> km_server" where
  "cpu_listed client_fd cpu_id srv = srv\<lparr>list_cpu := add_client_to_list (list_cpu srv) client_fd cpu_id\<rparr>"

definition credentials_told :: "fd \<Rightarrow> km_server \<Rightarrow> km_server" where
  "credentials_told client_fd srv = send_on client_fd (send_credentials_list (list_memory_stick_credentials srv)) srv"

definition limit_told :: "fd \<Rightarrow> km_server \<Rightarrow> km_server" where
  "limit_told client_fd srv = send_on client_fd (uint32_send (segment_max_size srv)) srv"

lemma cpu_connected_steps:
  "cpu_connected client_fd cpu_id srv = limit_told client_fd (credentials_told client_fd (cpu_listed client_fd cpu_id srv))"
  by (simp add: cpu_connected_def limit_told_def credentials_told_def cpu_listed_def send_on_def)

section \<open>The steps of a stick's thread\<close>

definition stick_listed :: "fd \<Rightarrow> u32 \<Rightarrow> u32 \<Rightarrow> km_server \<Rightarrow> km_server" where
  "stick_listed client_fd new_id sz =
     on_km (\<lambda>s. s\<lparr>km_memory := (fst (km_memory s),
       snd (km_memory s) @ [(create_memory_stick_info client_fd new_id)\<lparr>ms_size := sz\<rparr>])\<rparr>)"

definition stick_published :: "t_memory_stick_credentials \<Rightarrow> km_server \<Rightarrow> km_server" where
  "stick_published client srv =
     srv\<lparr>list_memory_stick_credentials := list_memory_stick_credentials srv @ [client]\<rparr>"

lemma memory_stick_register_steps:
  "memory_stick_register client_fd new_id sz ip port srv =
     (let client = \<lparr>cred_ip = ip, cred_port = port, cred_id = new_id, cred_size = sz\<rparr>;
          srv' = stick_published client (stick_listed client_fd new_id sz srv)
      in if list_cpu srv' = [] then srv'
         else foldl (\<lambda>t cpu. send_on (ci_fd cpu) (send_credentials client) t) srv' (list_cpu srv'))"
proof -
  have "foldl (\<lambda>t cpu. send_on (ci_fd cpu) pkg t) srv cs =
      srv\<lparr>outgoing := outgoing srv @ map (\<lambda>cpu. (ci_fd cpu, pkg)) cs\<rparr>" for pkg srv and cs :: "t_client_info list"
    by (induction cs arbitrary: srv) (simp_all add: send_on_def)
  then show ?thesis
    by (simp add: memory_stick_register_def stick_published_def stick_listed_def Let_def update_cpu_list_def on_km_def)
qed

section \<open>All threads\<close>

datatype cpu_thread = C_none | C_listed | C_told | C_connected

datatype stick_thread =
    S_none | S_announced u32 u32 | S_listed u32 u32 | S_published t_memory_stick_credentials
  | S_counted t_memory_stick_credentials | S_sending t_memory_stick_credentials "t_client_info list"
  | S_connected t_memory_stick_credentials

record connecting =
  server :: km_server
  cpu_thread :: "fd \<Rightarrow> cpu_thread"
  stick_thread :: "fd \<Rightarrow> stick_thread"

definition cpu_goes :: "fd \<Rightarrow> cpu_thread \<Rightarrow> (km_server \<Rightarrow> km_server) \<Rightarrow> connecting \<Rightarrow> connecting" where
  "cpu_goes f pc' step s = s\<lparr>server := step (server s), cpu_thread := (cpu_thread s)(f := pc')\<rparr>"

definition stick_goes :: "fd \<Rightarrow> stick_thread \<Rightarrow> (km_server \<Rightarrow> km_server) \<Rightarrow> connecting \<Rightarrow> connecting" where
  "stick_goes g pc' step s = s\<lparr>server := step (server s), stick_thread := (stick_thread s)(g := pc')\<rparr>"

text \<open>The stick's thread counts the CPUs, and copies their list in a second step.\<close>

inductive connection_step :: "connecting \<Rightarrow> connecting \<Rightarrow> bool" where
  cpu_lists: "cpu_thread s f = C_none \<Longrightarrow>
    connection_step s (cpu_goes f C_listed (cpu_listed f cpu_id) s)"
| cpu_is_told: "cpu_thread s f = C_listed \<Longrightarrow>
    connection_step s (cpu_goes f C_told (credentials_told f) s)"
| cpu_gets_limit: "cpu_thread s f = C_told \<Longrightarrow>
    connection_step s (cpu_goes f C_connected (limit_told f) s)"
| stick_announces: "stick_thread s g = S_none \<Longrightarrow> memory_stick_announce g sz (server s) = (new_id, srv) \<Longrightarrow>
    connection_step s (stick_goes g (S_announced new_id sz) (\<lambda>_. srv) s)"
| stick_lists: "stick_thread s g = S_announced new_id sz \<Longrightarrow>
    connection_step s (stick_goes g (S_listed new_id sz) (stick_listed g new_id sz) s)"
| stick_publishes: "stick_thread s g = S_listed new_id sz \<Longrightarrow>
    cred = \<lparr>cred_ip = ip, cred_port = port, cred_id = new_id, cred_size = sz\<rparr> \<Longrightarrow>
    connection_step s (stick_goes g (S_published cred) (stick_published cred) s)"
| stick_counts: "stick_thread s g = S_published cred \<Longrightarrow>
    connection_step s (stick_goes g (if list_cpu (server s) = [] then S_connected cred else S_counted cred) (\<lambda>srv. srv) s)"
| stick_copies: "stick_thread s g = S_counted cred \<Longrightarrow>
    connection_step s (stick_goes g (S_sending cred (list_cpu (server s))) (\<lambda>srv. srv) s)"
| stick_sends: "stick_thread s g = S_sending cred (c # cs) \<Longrightarrow>
    connection_step s (stick_goes g (S_sending cred cs) (send_on (ci_fd c) (send_credentials cred)) s)"
| stick_ends: "stick_thread s g = S_sending cred [] \<Longrightarrow>
    connection_step s (stick_goes g (S_connected cred) (\<lambda>srv. srv) s)"

definition connections :: "km_server \<Rightarrow> connecting" where
  "connections srv = \<lparr>server = srv, cpu_thread = \<lambda>_. C_none, stick_thread = \<lambda>_. S_none\<rparr>"

section \<open>No stick is missed\<close>

text \<open>A CPU has been sent a stick: on its own, or in a list.\<close>

definition told :: "km_server \<Rightarrow> fd \<Rightarrow> t_memory_stick_credentials \<Rightarrow> bool" where
  "told srv f cred \<longleftrightarrow> (f, send_credentials cred) \<in> set (outgoing srv) \<or>
     (\<exists>cs. cred \<in> set cs \<and> (f, send_credentials_list cs) \<in> set (outgoing srv))"

definition will_be_told :: "stick_thread \<Rightarrow> fd \<Rightarrow> bool" where
  "will_be_told th f \<longleftrightarrow>
     (case th of S_published _ \<Rightarrow> True | S_counted _ \<Rightarrow> True | S_sending _ cs \<Rightarrow> f \<in> ci_fd ` set cs | _ \<Rightarrow> False)"

definition thread_cred :: "stick_thread \<Rightarrow> t_memory_stick_credentials option" where
  "thread_cred th =
     (case th of S_published c \<Rightarrow> Some c | S_counted c \<Rightarrow> Some c | S_sending c _ \<Rightarrow> Some c
      | S_connected c \<Rightarrow> Some c | _ \<Rightarrow> None)"

definition connections_ok :: "connecting \<Rightarrow> bool" where
  "connections_ok s \<longleftrightarrow>
     (\<forall>f. cpu_thread s f \<noteq> C_none \<longrightarrow> f \<in> ci_fd ` set (list_cpu (server s))) \<and>
     (\<forall>g cred. thread_cred (stick_thread s g) = Some cred \<longrightarrow>
        cred \<in> set (list_memory_stick_credentials (server s)) \<and>
        (\<forall>f. cpu_thread s f \<in> {C_told, C_connected} \<longrightarrow>
           told (server s) f cred \<or> will_be_told (stick_thread s g) f))"

lemma told_frame [simp]:
  "told (cpu_listed f i srv) h c = told srv h c" "told (stick_listed g i sz srv) h c = told srv h c"
  "told (stick_published cred srv) h c = told srv h c"
  by (simp_all add: told_def cpu_listed_def stick_listed_def stick_published_def on_km_def)

lemma told_send [simp]: "told srv h c \<Longrightarrow> told (send_on f pkg srv) h c"
  by (auto simp: told_def send_on_def)

lemma told_by_list [simp]: "c \<in> set (list_memory_stick_credentials srv) \<Longrightarrow> told (credentials_told f srv) f c"
  by (auto simp: told_def credentials_told_def send_on_def)

lemma told_directly [simp]: "told (send_on f (send_credentials c) srv) f c"
  by (simp add: told_def send_on_def)

lemma lists_frame [simp]:
  "list_cpu (send_on f pkg srv) = list_cpu srv"
  "list_memory_stick_credentials (send_on f pkg srv) = list_memory_stick_credentials srv"
  "list_cpu (cpu_listed f i srv) = list_cpu srv @ [create_client_info f i]"
  "list_memory_stick_credentials (cpu_listed f i srv) = list_memory_stick_credentials srv"
  "list_cpu (stick_listed g n sz srv) = list_cpu srv"
  "list_memory_stick_credentials (stick_listed g n sz srv) = list_memory_stick_credentials srv"
  "list_cpu (stick_published cred srv) = list_cpu srv"
  "list_memory_stick_credentials (stick_published cred srv) = list_memory_stick_credentials srv @ [cred]"
  by (simp_all add: send_on_def cpu_listed_def stick_listed_def stick_published_def on_km_def)

lemma announce_frame:
  assumes "memory_stick_announce g sz srv = (new_id, srv')"
  shows "list_cpu srv' = list_cpu srv" "list_memory_stick_credentials srv' = list_memory_stick_credentials srv"
    "told srv h c \<Longrightarrow> told srv' h c"
  using assms by (auto simp: memory_stick_announce_def Let_def on_km_def send_on_def told_def split: if_splits)

lemma thread_simps [simp]:
  "thread_cred S_none = None" "thread_cred (S_announced n sz) = None" "thread_cred (S_listed n sz) = None"
  "thread_cred (S_published c) = Some c" "thread_cred (S_counted c) = Some c" "thread_cred (S_sending c cs) = Some c"
  "thread_cred (S_connected c) = Some c"
  "will_be_told (S_published c) f" "will_be_told (S_counted c) f"
  "will_be_told (S_sending c cs) f \<longleftrightarrow> f \<in> ci_fd ` set cs" "\<not> will_be_told (S_connected c) f"
  by (simp_all add: thread_cred_def will_be_told_def)

lemma connections_okD:
  assumes "connections_ok s"
  shows "cpu_thread s f \<noteq> C_none \<Longrightarrow> f \<in> ci_fd ` set (list_cpu (server s))"
    and "thread_cred (stick_thread s g) = Some cred \<Longrightarrow> cred \<in> set (list_memory_stick_credentials (server s))"
    and "thread_cred (stick_thread s g) = Some cred \<Longrightarrow> cpu_thread s f \<in> {C_told, C_connected} \<Longrightarrow>
      \<not> will_be_told (stick_thread s g) f \<Longrightarrow> told (server s) f cred"
  using assms by (auto simp: connections_ok_def)

lemma connections_start: "list_cpu srv = [] \<Longrightarrow> connections_ok (connections srv)"
  by (simp add: connections_ok_def connections_def)

text \<open>A step of a stick's thread, when it keeps what is listed and told, matters for its own stick
  only; a step of a CPU's thread for its own CPU.\<close>

lemma stick_goes_ok:
  assumes "connections_ok s"
    and "list_cpu (step (server s)) = list_cpu (server s)"
    and "set (list_memory_stick_credentials (server s)) \<subseteq> set (list_memory_stick_credentials (step (server s)))"
    and "\<And>f c. told (server s) f c \<Longrightarrow> told (step (server s)) f c"
    and "\<And>cred. thread_cred pc' = Some cred \<Longrightarrow> cred \<in> set (list_memory_stick_credentials (step (server s)))"
    and "\<And>cred f. thread_cred pc' = Some cred \<Longrightarrow> cpu_thread s f \<in> {C_told, C_connected} \<Longrightarrow>
      \<not> will_be_told pc' f \<Longrightarrow> told (step (server s)) f cred"
  shows "connections_ok (stick_goes g pc' step s)"
proof -
  have "cred \<in> set (list_memory_stick_credentials (step (server s)))"
    if "thread_cred (((stick_thread s)(g := pc')) h) = Some cred" for cred h
    using that assms(5) connections_okD(2) [OF assms(1), of h cred] assms(3) by (auto split: if_splits)
  moreover have "told (step (server s)) f cred \<or> will_be_told (((stick_thread s)(g := pc')) h) f"
    if "thread_cred (((stick_thread s)(g := pc')) h) = Some cred" "cpu_thread s f \<in> {C_told, C_connected}" for f cred h
    using that assms(6) [of cred f] connections_okD(3) [OF assms(1), of h cred f] assms(4) [of f cred]
    by (cases "h = g") auto
  ultimately show ?thesis
    using assms(2) connections_okD(1) [OF assms(1)] by (simp add: connections_ok_def stick_goes_def)
qed

lemma cpu_goes_ok:
  assumes "connections_ok s"
    and "set (list_cpu (server s)) \<subseteq> set (list_cpu (step (server s)))" and "f \<in> ci_fd ` set (list_cpu (step (server s)))"
    and "list_memory_stick_credentials (step (server s)) = list_memory_stick_credentials (server s)"
    and "\<And>h c. told (server s) h c \<Longrightarrow> told (step (server s)) h c"
    and "\<And>g cred. pc' \<in> {C_told, C_connected} \<Longrightarrow> thread_cred (stick_thread s g) = Some cred \<Longrightarrow>
      \<not> will_be_told (stick_thread s g) f \<Longrightarrow> told (step (server s)) f cred"
  shows "connections_ok (cpu_goes f pc' step s)"
proof -
  have listed: "h \<in> ci_fd ` set (list_cpu (step (server s)))" if "cpu_thread s h \<noteq> C_none" for h
    by (rule subsetD [OF image_mono [OF assms(2)] connections_okD(1) [OF assms(1) that]])
  have "told (step (server s)) h cred \<or> will_be_told (stick_thread s g) h"
    if "thread_cred (stick_thread s g) = Some cred" "((cpu_thread s)(f := pc')) h \<in> {C_told, C_connected}" for g cred h
    using that assms(6) [of g cred] connections_okD(3) [OF assms(1) that(1), of h] assms(5) [of h cred]
    by (cases "h = f") auto
  then show ?thesis
    using listed assms(3,4) connections_okD(2) [OF assms(1)] by (simp add: connections_ok_def cpu_goes_def)
qed

lemma connection_step_keeps:
  assumes "connection_step s t" and "connections_ok s"
  shows "connections_ok t"
  using assms
proof (induction rule: connection_step.induct)
  case (cpu_lists s f cpu_id)
  then show ?case by (intro cpu_goes_ok) (auto simp: create_client_info_def)
next
  case (cpu_is_told s f)
  then show ?case
    by (intro cpu_goes_ok) (auto simp: credentials_told_def connections_okD(1) connections_okD(2) simp del: told_by_list
        intro: told_by_list [unfolded credentials_told_def])
next
  case (cpu_gets_limit s f)
  then show ?case
    by (intro cpu_goes_ok) (auto simp: limit_told_def connections_okD(1) connections_okD(3))
next
  case (stick_announces s g sz new_id srv)
  then show ?case
    using announce_frame [OF stick_announces.hyps(2)] by (intro stick_goes_ok) auto
next
  case (stick_counts s g cred)
  have "f \<in> ci_fd ` set (list_cpu (server s))" if "cpu_thread s f \<in> {C_told, C_connected}" for f
    using that by (intro connections_okD(1) [OF stick_counts.prems]) auto
  then show ?case
    using stick_counts connections_okD(2) [OF stick_counts.prems, of g cred]
    by (intro stick_goes_ok) (auto split: if_splits)
next
  case (stick_copies s g cred)
  have "f \<in> ci_fd ` set (list_cpu (server s))" if "cpu_thread s f \<in> {C_told, C_connected}" for f
    using that by (intro connections_okD(1) [OF stick_copies.prems]) auto
  then show ?case
    using stick_copies connections_okD(2) [OF stick_copies.prems, of g cred]
    by (intro stick_goes_ok) auto
next
  case (stick_sends s g cred c cs)
  have "told (send_on (ci_fd c) (send_credentials cred) (server s)) f cred"
    if "cpu_thread s f \<in> {C_told, C_connected}" "f \<notin> ci_fd ` set cs" for f
  proof (cases "f = ci_fd c")
    case False
    then have "told (server s) f cred"
      using that stick_sends.hyps by (intro connections_okD(3) [OF stick_sends.prems, of g]) auto
    then show ?thesis by simp
  qed simp
  then show ?case
    using stick_sends connections_okD(2) [OF stick_sends.prems, of g cred]
    by (intro stick_goes_ok) auto
next
  case (stick_ends s g cred)
  then show ?case
    using connections_okD(2,3) [OF stick_ends.prems, of g cred] by (intro stick_goes_ok) auto
qed (intro stick_goes_ok; auto)+

lemma connections_keep: "connection_step\<^sup>*\<^sup>* s t \<Longrightarrow> connections_ok s \<Longrightarrow> connections_ok t"
  by (induction rule: rtranclp_induct) (auto intro: connection_step_keeps)

text \<open>C11: no CPU is left without a stick: however the threads of the connecting CPUs and sticks
  interleave, every CPU that is connected has been sent every stick that is connected, in the list
  it got first or on its own.\<close>
theorem no_stick_missed:
  assumes "connection_step\<^sup>*\<^sup>* (connections srv) s" and "list_cpu srv = []"
    and "cpu_thread s f = C_connected" and "stick_thread s g = S_connected cred"
  shows "told (server s) f cred"
  using connections_okD(3) [OF connections_keep [OF assms(1) connections_start [OF assms(2)]], of g cred f] assms(3,4)
  by simp

section \<open>What the interleaving breaks\<close>

text \<open>The bytes a CPU has been sent.\<close>

definition sent_to :: "fd \<Rightarrow> km_server \<Rightarrow> byte list" where
  "sent_to f srv = concat (map (\<lambda>(_, p). package_serialize p) (filter (\<lambda>(g, _). g = f) (outgoing srv)))"

lemma sent_to_simps [simp]:
  "sent_to f (send_on g p srv) = sent_to f srv @ (if g = f then package_serialize p else [])"
  "sent_to f (cpu_listed g i srv) = sent_to f srv" "sent_to f (stick_listed g n sz srv) = sent_to f srv"
  "sent_to f (stick_published cred srv) = sent_to f srv"
  by (simp_all add: sent_to_def send_on_def cpu_listed_def stick_listed_def stick_published_def on_km_def)

definition stick_address :: "u32 \<Rightarrow> u32 \<Rightarrow> t_memory_stick_credentials" where
  "stick_address n sz = \<lparr>cred_ip = ''127.0.0.1'', cred_port = ''8002'', cred_id = n, cred_size = sz\<rparr>"

lemma stick_address [simp]:
  "credentials_ok (stick_address n sz)" "cred_id (stick_address n sz) = n" "cred_size (stick_address n sz) = sz"
  by (simp_all add: stick_address_def credentials_ok_def sendable_def c_str_def byte_of_char_def)

lemma stream_address: "length (stream (send_credentials_list (map (\<lambda>(n, sz). stick_address n sz) xs))) = 39 * length xs"
  by (induction xs) (auto simp: send_credentials_list_def credentials_add_def stick_address_def string_bytes_def)

abbreviation connection_run :: "connecting \<Rightarrow> connecting \<Rightarrow> bool" where
  "connection_run \<equiv> connection_step\<^sup>*\<^sup>*"

text \<open>A first stick comes as far as being published.\<close>

definition published :: connecting where
  "published =
     (let s = connections (km_initial ''BEST'' 64);
          s1 = stick_goes 7 (S_announced 0 8) (\<lambda>_. snd (memory_stick_announce 7 8 (server s))) s;
          s2 = stick_goes 7 (S_listed 0 8) (stick_listed 7 0 8) s1
      in stick_goes 7 (S_published (stick_address 0 8)) (stick_published (stick_address 0 8)) s2)"

lemma run_step: "connection_run s t \<Longrightarrow> connection_step t u \<Longrightarrow> connection_run s u"
  by (rule rtranclp.rtrancl_into_rtrancl)

lemma published_run: "connection_run (connections (km_initial ''BEST'' 64)) published"
proof -
  let ?s = "connections (km_initial ''BEST'' 64)"
  let ?s1 = "stick_goes 7 (S_announced 0 8) (\<lambda>_. snd (memory_stick_announce 7 8 (server ?s))) ?s"
  have "memory_stick_announce 7 8 (server ?s) = (0, snd (memory_stick_announce 7 8 (server ?s)))"
    by (simp add: memory_stick_announce_def Let_def connections_def km_initial_def)
  then have 1: "connection_step ?s ?s1"
    by (intro stick_announces) (simp_all add: connections_def)
  have 2: "connection_step ?s1 (stick_goes 7 (S_listed 0 8) (stick_listed 7 0 8) ?s1)" (is "connection_step _ ?s2")
    by (rule stick_lists) (simp add: stick_goes_def)
  have "connection_step ?s2 published"
    unfolding published_def Let_def by (rule stick_publishes) (simp_all add: stick_goes_def stick_address_def)
  with 1 2 show ?thesis by (meson run_step rtranclp.rtrancl_refl)
qed

lemma published_simps [simp]:
  "cpu_thread published f = C_none" "stick_thread published 7 = S_published (stick_address 0 8)"
  "list_cpu (server published) = []" "list_memory_stick_credentials (server published) = [stick_address 0 8]"
  "segment_max_size (server published) = 64" "sent_to 9 (server published) = []"
  "map (\<lambda>mi. (ms_id mi, ms_size mi)) (snd (km_memory (km (server published)))) = [(0, 8)]"
  by (simp_all add: published_def Let_def stick_goes_def connections_def stick_listed_def stick_published_def
      memory_stick_announce_def km_initial_def on_km_def send_on_def sent_to_def create_memory_stick_info_def)

lemma goes_simps [simp]:
  "server (cpu_goes f p step s) = step (server s)" "cpu_thread (cpu_goes f p step s) = (cpu_thread s)(f := p)"
  "stick_thread (cpu_goes f p step s) = stick_thread s"
  "server (stick_goes g q step s) = step (server s)" "stick_thread (stick_goes g q step s) = (stick_thread s)(g := q)"
  "cpu_thread (stick_goes g q step s) = cpu_thread s"
  by (simp_all add: cpu_goes_def stick_goes_def)

lemma limit_frame [simp]:
  "segment_max_size (send_on f p srv) = segment_max_size srv" "segment_max_size (cpu_listed f i srv) = segment_max_size srv"
  by (simp_all add: send_on_def cpu_listed_def)

lemma update_not_a_list:
  "receive_credentials_list (package_serialize (send_credentials cred) @ rest) =
     Ret (None, u32_bytes (of_nat (length (stream (send_credentials cred)))) @ stream (send_credentials cred) @ rest)"
  by (simp add: receive_credentials_list_def operation_received) (simp add: send_credentials_def credentials_add_def)

lemma overtaken:
  "\<exists>s. connection_run (connections (km_initial ''BEST'' 64)) s \<and> cpu_thread s 9 = C_connected \<and>
     stick_thread s 7 = S_connected (stick_address 0 8) \<and>
     sent_to 9 (server s) = package_serialize (send_credentials (stick_address 0 8)) @
       package_serialize (send_credentials_list [stick_address 0 8]) @ package_serialize (uint32_send 64)"
proof -
  let ?c = "stick_address 0 8"
  let ?t1 = "cpu_goes 9 C_listed (cpu_listed 9 1) published"
  let ?t2 = "stick_goes 7 (S_counted ?c) (\<lambda>srv. srv) ?t1"
  let ?t3 = "stick_goes 7 (S_sending ?c [create_client_info 9 1]) (\<lambda>srv. srv) ?t2"
  let ?t4 = "stick_goes 7 (S_sending ?c []) (send_on 9 (send_credentials ?c)) ?t3"
  let ?t5 = "cpu_goes 9 C_told (credentials_told 9) ?t4"
  let ?t6 = "cpu_goes 9 C_connected (limit_told 9) ?t5"
  let ?t7 = "stick_goes 7 (S_connected ?c) (\<lambda>srv. srv) ?t6"
  have 1: "connection_step published ?t1" by (rule cpu_lists) simp
  have 2: "connection_step ?t1 ?t2" using stick_counts [of ?t1 7 ?c] by simp
  have 3: "connection_step ?t2 ?t3" using stick_copies [of ?t2 7 ?c] by simp
  have 4: "connection_step ?t3 ?t4"
    using stick_sends [of ?t3 7 ?c "create_client_info 9 1" "[]"] by (simp add: create_client_info_def)
  have 5: "connection_step ?t4 ?t5" by (rule cpu_is_told) simp
  have 6: "connection_step ?t5 ?t6" by (rule cpu_gets_limit) simp
  have 7: "connection_step ?t6 ?t7" by (rule stick_ends) simp
  have "sent_to 9 (server ?t7) = package_serialize (send_credentials ?c) @
      package_serialize (send_credentials_list [?c]) @ package_serialize (uint32_send 64)"
    by (simp add: credentials_told_def limit_told_def)
  then show ?thesis
    using published_run 1 2 3 4 5 6 7
    by (intro exI [of _ ?t7]) (auto intro: run_step)
qed

text \<open>A CPU can crash when it connects while a stick connects: it is in the list of CPUs before it
  has been sent the list of sticks, so the announcement of the stick may overtake the list; the CPU
  then reads the announcement where it expects the list, and uses the NULL it gets.\<close>
theorem stick_overtakes_list:
  "\<exists>s. connection_run (connections (km_initial ''BEST'' 64)) s \<and> cpu_thread s 9 = C_connected \<and>
     (\<exists>cred. stick_thread s 7 = S_connected cred) \<and>
     connect_kernel_memory (\<lambda>_ _. 5) example_config 1 (sent_to 9 (server s)) (cpu cpu_initial) = Undef"
proof -
  obtain s where s: "connection_run (connections (km_initial ''BEST'' 64)) s" "cpu_thread s 9 = C_connected"
    "stick_thread s 7 = S_connected (stick_address 0 8)"
    "sent_to 9 (server s) = package_serialize (send_credentials (stick_address 0 8)) @
       package_serialize (send_credentials_list [stick_address 0 8]) @ package_serialize (uint32_send 64)"
    using overtaken by blast
  then show ?thesis
    by (intro exI [of _ s]) (simp add: connect_kernel_memory_def update_not_a_list)
qed

theorem no_stick_missed_witness:
  "\<exists>s :: connecting. cpu_thread s 9 = C_connected \<and> stick_thread s 7 = S_connected (stick_address 0 8) \<and>
     told (server s) 9 (stick_address 0 8)"
proof -
  obtain s where s: "connection_run (connections (km_initial ''BEST'' 64)) s" "cpu_thread s 9 = C_connected"
    "stick_thread s 7 = S_connected (stick_address 0 8)"
    using overtaken by blast
  have "list_cpu (km_initial ''BEST'' 64) = []" by (simp add: km_initial_def)
  from no_stick_missed [OF s(1) this s(2,3)] s(2,3) show ?thesis by blast
qed

text \<open>A stick can appear twice in the memory of a CPU, which then reads and writes other bytes
  than Kernel Memory behind it: it is in the list that the CPU gets, and is announced to the CPU
  once more when its own thread comes to that.\<close>
theorem stick_connected_twice:
  "\<exists>s. connection_run (connections (km_initial ''BEST'' 64)) s \<and> cpu_thread s 9 = C_connected \<and>
     map (\<lambda>mi. (ms_id mi, ms_size mi)) (snd (km_memory (km (server s)))) = [(0, 8)] \<and>
     (\<exists>c update. connect_kernel_memory (\<lambda>_ _. 5) example_config 1 (sent_to 9 (server s)) (cpu cpu_initial) =
          Ret (Running (c, cpu_hello 1, package_serialize (send_credentials update))) \<and>
        map (\<lambda>mi. (ms_id mi, ms_size mi)) (snd (cpu_memory (connect_with_memory_stick 6 update c))) = [(0, 8), (0, 8)])"
proof -
  let ?c = "stick_address 0 8"
  let ?t1 = "cpu_goes 9 C_listed (cpu_listed 9 1) published"
  let ?t2 = "cpu_goes 9 C_told (credentials_told 9) ?t1"
  let ?t3 = "cpu_goes 9 C_connected (limit_told 9) ?t2"
  let ?t4 = "stick_goes 7 (S_counted ?c) (\<lambda>srv. srv) ?t3"
  let ?t5 = "stick_goes 7 (S_sending ?c [create_client_info 9 1]) (\<lambda>srv. srv) ?t4"
  let ?t6 = "stick_goes 7 (S_sending ?c []) (send_on 9 (send_credentials ?c)) ?t5"
  have tell: "list_cpu (credentials_told f srv) = list_cpu srv" "list_cpu (limit_told f srv) = list_cpu srv" for f srv
    by (simp_all add: credentials_told_def limit_told_def)
  have 1: "connection_step published ?t1" by (rule cpu_lists) simp
  have 2: "connection_step ?t1 ?t2" by (rule cpu_is_told) simp
  have 3: "connection_step ?t2 ?t3" by (rule cpu_gets_limit) simp
  have 4: "connection_step ?t3 ?t4" using stick_counts [of ?t3 7 ?c] by (simp add: tell)
  have 5: "connection_step ?t4 ?t5" using stick_copies [of ?t4 7 ?c] by (simp add: tell)
  have 6: "connection_step ?t5 ?t6"
    using stick_sends [of ?t5 7 ?c "create_client_info 9 1" "[]"] by (simp add: create_client_info_def)
  have "sent_to 9 (server ?t6) = package_serialize (send_credentials_list [?c]) @
      package_serialize (uint32_send 64) @ package_serialize (send_credentials ?c)"
    by (simp add: credentials_told_def limit_told_def)
  moreover have "receive_credentials_list (package_serialize (send_credentials_list [?c]) @ rest) = Ret (Some [?c], rest)" for rest
    using stream_address [of "[(0, 8)]"] by (intro credentials_list_roundtrip) simp_all
  moreover have "map (\<lambda>mi. (ms_id mi, ms_size mi)) (snd (km_memory (km (server ?t6)))) = [(0, 8)]"
    by (simp add: credentials_told_def limit_told_def send_on_def cpu_listed_def)
  ultimately show ?thesis
    using published_run 1 2 3 4 5 6
    by (intro exI [of _ ?t6] conjI exI [of _ "(cpu cpu_initial)\<lparr>cpu_memory := (Map.empty, stick_infos (\<lambda>_ _. 5) [?c]), cpu_segment_max_size := 64\<rparr>"]
          exI [of _ ?c])
      (auto simp: connect_kernel_memory_def uint32_received iterate_connects stick_infos_def connect_with_memory_stick_def
        cpu_initial_def intro: run_step)
qed

end
