(* ===== verification/KS_State.thy ===== *)
theory KS_State
  imports Process_Utils
begin

text \<open>
  The state of Kernel Scheduler and the functions of \<open>kernel_scheduler/src/utils.c\<close>. The C
  code shares \<open>t_process\<close>, \<open>t_client_info\<close> and \<open>t_mutex\<close> objects by pointer between many
  lists, so they live in stores here and the lists hold references. A function that the code calls
  under \<open>scheduler_mutex\<close> is one function on the state; what waits on a semaphore is a step of
  its own. \<open>NULL\<close> dereferences are \<open>Undef\<close>.
\<close>

section \<open>State\<close>

type_synonym process = nat
type_synonym client = nat
type_synonym mutex = nat

record t_process =
  proc_pid :: u32
  proc_state :: t_process_state
  base_priority :: u8
  effective_priority :: u8
  proc_cpu :: "client option"
  start_exec_time :: u64
  start_block_time :: u64
  owned_mutexes :: "mutex list"
  memory_request_sem :: nat
  pending_memory_syscall :: bool

datatype t_scheduler_algorithm = FIFO | RR | CMN

record t_mutex =
  mutex_name :: string
  isLocked :: bool
  lockedBy :: "process option"
  waitingProcesses :: "process list"

record t_pending_stdin =
  ps_pid :: u32
  ps_physical_address :: u32
  ps_size :: u32

text \<open>Messages go to Kernel Memory or to a client.\<close>

datatype target = Kernel_Memory | Client client

text \<open>
  The threads that wait: for the confirmation of an eviction (with or without handling the
  process's state), in \<open>evict_all_processes\<close> for the CPUs that are left, for
  \<open>COMPACTION_FINISHED\<close>, and for Kernel Memory's answer to a write for a process.
\<close>

datatype waiter =
    Wait_confirmation client bool
  | Wait_evicted t_interrupt_reason "client list"
  | Wait_compaction
  | Wait_memory_write process

record ks_state =
  scheduler_algorithm :: t_scheduler_algorithm
  queue_algorithms :: "t_scheduler_algorithm list"
  queue_algorithms_count :: nat
  queue_preemption :: bool
  quantum :: u64
  suspension_timeout :: u64
  can_schedule :: bool
  procs :: "process \<Rightarrow> t_process"
  clients :: "client \<Rightarrow> t_client_info"
  mutexes :: "mutex \<Rightarrow> t_mutex"
  list_processes :: "process list"
  ready_queue :: "process list list"
  exec_processes :: "process list"
  block_processes :: "process list"
  suspended_processes :: "process list"
  list_cpu :: "client list"
  list_io_sleep :: "client list"
  list_io_stdin :: "client list"
  list_io_stdout :: "client list"
  pending_request_io_sleep :: "t_io_numeric_process list"
  pending_request_io_stdin :: "t_io_numeric_process list"
  pending_request_io_stdout :: "t_io_string_process list"
  pending_io_stdin_reading :: "t_pending_stdin list"
  list_mutexes :: "mutex list"
  short_term_scheduler_sem :: nat
  compaction_finished_sem :: nat
  current_max_pid :: u32
  next_io_id :: u32
  waiters :: "waiter list"
  outbox :: "(target \<times> t_package) list"
  halted :: bool

text \<open>Assignments through a pointer, sending, posting.\<close>

definition upd_proc :: "process \<Rightarrow> (t_process \<Rightarrow> t_process) \<Rightarrow> ks_state \<Rightarrow> ks_state" where
  "upd_proc p f s = s\<lparr>procs := (procs s)(p := f (procs s p))\<rparr>"

definition upd_client :: "client \<Rightarrow> (t_client_info \<Rightarrow> t_client_info) \<Rightarrow> ks_state \<Rightarrow> ks_state" where
  "upd_client c f s = s\<lparr>clients := (clients s)(c := f (clients s c))\<rparr>"

definition upd_mutex :: "mutex \<Rightarrow> (t_mutex \<Rightarrow> t_mutex) \<Rightarrow> ks_state \<Rightarrow> ks_state" where
  "upd_mutex m f s = s\<lparr>mutexes := (mutexes s)(m := f (mutexes s m))\<rparr>"

definition ks_send :: "target \<Rightarrow> t_package \<Rightarrow> ks_state \<Rightarrow> ks_state" where
  "ks_send t pkg s = s\<lparr>outbox := outbox s @ [(t, pkg)]\<rparr>"

definition wake_scheduler :: "ks_state \<Rightarrow> ks_state" where
  "wake_scheduler s = s\<lparr>short_term_scheduler_sem := short_term_scheduler_sem s + 1\<rparr>"

definition add_waiter :: "waiter \<Rightarrow> ks_state \<Rightarrow> ks_state" where
  "add_waiter w s = s\<lparr>waiters := waiters s @ [w]\<rparr>"

abbreviation set_available :: "bool \<Rightarrow> client \<Rightarrow> ks_state \<Rightarrow> ks_state" where
  "set_available b c \<equiv> upd_client c (\<lambda>i. i\<lparr>is_available := b\<rparr>)"

text \<open>A reference no list contains: what \<open>malloc\<close> returns.\<close>

definition fresh :: "nat list \<Rightarrow> nat" where
  "fresh refs = Suc (fold max refs 0)"

section \<open>Processes and queues\<close>

definition process_set_state :: "t_process_state \<Rightarrow> process \<Rightarrow> ks_state \<Rightarrow> ks_state" where
  "process_set_state st p = upd_proc p (\<lambda>r. r\<lparr>proc_state := st\<rparr>)"

definition process_set_cpu :: "client option \<Rightarrow> process \<Rightarrow> ks_state \<Rightarrow> ks_state" where
  "process_set_cpu c p = upd_proc p (\<lambda>r. r\<lparr>proc_cpu := c\<rparr>)"

definition process_set_priority :: "u8 \<Rightarrow> process \<Rightarrow> ks_state \<Rightarrow> ks_state" where
  "process_set_priority pr p = upd_proc p (\<lambda>r. r\<lparr>effective_priority := pr\<rparr>)"

definition create_process :: "u32 \<Rightarrow> u8 \<Rightarrow> t_process" where
  "create_process pid priority =
     \<lparr>proc_pid = pid, proc_state = NEW, base_priority = priority, effective_priority = priority,
      proc_cpu = None, start_exec_time = 0, start_block_time = 0, owned_mutexes = [],
      memory_request_sem = 0, pending_memory_syscall = False\<rparr>"

text \<open>The ready queue a process belongs to: priorities beyond the last queue go to the last.\<close>

definition queue_index :: "ks_state \<Rightarrow> process \<Rightarrow> nat" where
  "queue_index s p =
     (if scheduler_algorithm s = CMN
      then (if queue_algorithms_count s \<le> unat (effective_priority (procs s p))
            then queue_algorithms_count s - 1 else unat (effective_priority (procs s p)))
      else 0)"

definition on_queue :: "nat \<Rightarrow> (process list \<Rightarrow> process list) \<Rightarrow> ks_state \<Rightarrow> ks_state" where
  "on_queue i f s = s\<lparr>ready_queue := (ready_queue s)[i := f (ready_queue s ! i)]\<rparr>"

definition add_process_to_list :: "process \<Rightarrow> process list \<Rightarrow> process list" where
  [simp]: "add_process_to_list p ps = ps @ [p]"

definition can_schedule_get :: "ks_state \<Rightarrow> bool" where
  [simp]: "can_schedule_get s = can_schedule s"

definition can_schedule_write :: "bool \<Rightarrow> ks_state \<Rightarrow> ks_state" where
  [simp]: "can_schedule_write new_value s = s\<lparr>can_schedule := new_value\<rparr>"

definition add_process_to_ready_queue :: "process \<Rightarrow> ks_state \<Rightarrow> ks_state" where
  "add_process_to_ready_queue p s = on_queue (queue_index s p) (add_process_to_list p) s"

definition add_process_at_start_of_ready_queue :: "process \<Rightarrow> ks_state \<Rightarrow> ks_state" where
  "add_process_at_start_of_ready_queue p s =
     (if scheduler_algorithm s = CMN then on_queue (queue_index s p) (\<lambda>q. p # q) s
      else on_queue 0 (add_process_to_list p) s)"

definition remove_process_from_ready_queue :: "process \<Rightarrow> ks_state \<Rightarrow> ks_state" where
  "remove_process_from_ready_queue p s = on_queue (queue_index s p) (remove1 p) s"

definition exec_add :: "process \<Rightarrow> ks_state \<Rightarrow> ks_state" where
  "exec_add p s = s\<lparr>exec_processes := add_process_to_list p (exec_processes s)\<rparr>"

definition exec_remove :: "process \<Rightarrow> ks_state \<Rightarrow> ks_state" where
  "exec_remove p s = s\<lparr>exec_processes := remove1 p (exec_processes s)\<rparr>"

definition block_add :: "process \<Rightarrow> ks_state \<Rightarrow> ks_state" where
  "block_add p s = s\<lparr>block_processes := add_process_to_list p (block_processes s)\<rparr>"

definition block_remove :: "process \<Rightarrow> ks_state \<Rightarrow> ks_state" where
  "block_remove p s = s\<lparr>block_processes := remove1 p (block_processes s)\<rparr>"

definition ready_queue_size :: "ks_state \<Rightarrow> nat" where
  "ready_queue_size s =
     (if scheduler_algorithm s = CMN
      then sum_list (map length (take (queue_algorithms_count s) (ready_queue s)))
      else length (ready_queue s ! 0))"

definition process_has_quantum :: "ks_state \<Rightarrow> process \<Rightarrow> bool" where
  "process_has_quantum s p =
     (case scheduler_algorithm s of
        RR \<Rightarrow> True | FIFO \<Rightarrow> False | CMN \<Rightarrow> queue_algorithms s ! queue_index s p = RR)"

definition get_process_from_pid :: "ks_state \<Rightarrow> u32 \<Rightarrow> process option" where
  "get_process_from_pid s pid = List.find (\<lambda>p. proc_pid (procs s p) = pid) (list_processes s)"

definition get_process_from_cpu :: "ks_state \<Rightarrow> client \<Rightarrow> process option" where
  "get_process_from_cpu s c = List.find (\<lambda>p. proc_cpu (procs s p) = Some c) (list_processes s)"

definition get_highest_priority_process_from_ready_queue :: "ks_state \<Rightarrow> process option" where
  "get_highest_priority_process_from_ready_queue s =
     map_option hd (List.find (\<lambda>q. q \<noteq> []) (take (queue_algorithms_count s) (ready_queue s)))"

text \<open>0 is the highest priority; of several processes the first of the list is taken.\<close>

fun best_process :: "(t_process \<Rightarrow> t_process \<Rightarrow> bool) \<Rightarrow> (process \<Rightarrow> t_process) \<Rightarrow> process \<Rightarrow> process list \<Rightarrow> process"
where
  "best_process better pr best [] = best"
| "best_process better pr best (p # ps) =
     best_process better pr (if better (pr p) (pr best) then p else best) ps"

definition get_highest_priority_process :: "ks_state \<Rightarrow> process list \<Rightarrow> process option" where
  "get_highest_priority_process s ps =
     (case ps of [] \<Rightarrow> None
      | p # rest \<Rightarrow> Some (best_process (\<lambda>a b. effective_priority a < effective_priority b) (procs s) p rest))"

definition get_lowest_priority_process :: "ks_state \<Rightarrow> process list \<Rightarrow> process option" where
  "get_lowest_priority_process s ps =
     (case ps of [] \<Rightarrow> None
      | p # rest \<Rightarrow> Some (best_process (\<lambda>a b. effective_priority a > effective_priority b) (procs s) p rest))"

definition process_set_ready :: "process \<Rightarrow> ks_state \<Rightarrow> ks_state" where
  "process_set_ready p s =
     process_set_state (if proc_state (procs s p) = SUSP_BLOCK then SUSP_READY else READY) p s"

definition scheduler_algorithm_from_string :: "string \<Rightarrow> t_scheduler_algorithm" where
  "scheduler_algorithm_from_string str =
     (if str = ''FIFO'' then FIFO else if str = ''RR'' then RR else if str = ''CMN'' then CMN else FIFO)"

section \<open>Messages\<close>

definition send_process_create_info :: "u32 \<Rightarrow> string \<Rightarrow> ks_state \<Rightarrow> ks_state" where
  "send_process_create_info pid path =
     ks_send Kernel_Memory (package_string_add path (package_add (u32_bytes pid) (package_with PROCESS_CREATE)))"

definition send_memory_write :: "u32 \<Rightarrow> u32 \<Rightarrow> u32 \<Rightarrow> string \<Rightarrow> ks_state \<Rightarrow> ks_state" where
  "send_memory_write pid physical_address sz data =
     ks_send Kernel_Memory (package_string_add data (package_add (u32_bytes sz)
       (package_add (u32_bytes physical_address) (package_add (u32_bytes pid) (package_with IO_MEMORY_WRITE)))))"

definition send_memory_read :: "u32 \<Rightarrow> u32 \<Rightarrow> u32 \<Rightarrow> ks_state \<Rightarrow> ks_state" where
  "send_memory_read pid physical_address sz =
     ks_send Kernel_Memory (package_add (u32_bytes sz)
       (package_add (u32_bytes physical_address) (package_add (u32_bytes pid) (package_with IO_MEMORY_READ))))"

definition send_process_end :: "u32 \<Rightarrow> ks_state \<Rightarrow> ks_state" where
  "send_process_end pid = ks_send Kernel_Memory (uint32_send_with_op_code pid PROCESS_END)"

text \<open>A CPU that is being evicted is not sent a process.\<close>

definition send_pid_to_execute :: "u32 \<Rightarrow> client option \<Rightarrow> ks_state \<Rightarrow> ks_state" where
  "send_pid_to_execute pid cpu s =
     (case cpu of
        None \<Rightarrow> s
      | Some c \<Rightarrow>
          if is_evicting (clients s c) then s
          else ks_send (Client c) (package_add (u32_bytes pid) (package_with PROCESS_EXECUTE)) s)"

section \<open>Eviction\<close>

definition send_process_evict :: "client option \<Rightarrow> t_interrupt_reason \<Rightarrow> ks_state \<Rightarrow> bool \<times> ks_state" where
  "send_process_evict cpu reason s =
     (case cpu of
        None \<Rightarrow> (False, s)
      | Some c \<Rightarrow>
          if is_evicting (clients s c) then (False, s)
          else (True, ks_send (Client c) (package_add (u32_bytes (reason_int reason)) (package_with PROCESS_EVICT))
                  (upd_client c (\<lambda>i. i\<lparr>is_evicting := True\<rparr>) s)))"

definition evict_process :: "client option \<Rightarrow> t_interrupt_reason \<Rightarrow> bool \<Rightarrow> ks_state \<Rightarrow> ks_state" where
  "evict_process cpu reason should_handle_state s =
     (case (cpu, send_process_evict cpu reason s) of
        (Some c, True, s') \<Rightarrow> add_waiter (Wait_confirmation c should_handle_state) s'
      | (_, _, s') \<Rightarrow> s')"

definition free_cpu :: "client \<Rightarrow> ks_state \<Rightarrow> ks_state" where
  "free_cpu c = upd_client c (\<lambda>i. i\<lparr>is_available := True, is_evicting := False\<rparr>)"

text \<open>What \<open>wait_confirmation_thread_and_handle_state\<close> does after its \<open>sem_wait\<close>.\<close>

definition confirmed_and_handle_state :: "client \<Rightarrow> ks_state \<Rightarrow> ks_state" where
  "confirmed_and_handle_state c s =
     wake_scheduler
       (case get_process_from_cpu s c of
          None \<Rightarrow> free_cpu c s
        | Some p \<Rightarrow>
            let s1 = process_set_cpu None p (exec_remove p (free_cpu c s))
            in if pending_memory_syscall (procs s p) then s1
               else add_process_to_ready_queue p (process_set_state READY p s1))"

text \<open>What \<open>wait_confirmation_thread\<close> does after its \<open>sem_wait\<close>.\<close>

definition confirmed :: "client \<Rightarrow> ks_state \<Rightarrow> ks_state" where
  "confirmed c s =
     wake_scheduler
       (case get_process_from_cpu s c of
          None \<Rightarrow> s
        | Some p \<Rightarrow> free_cpu c (process_set_cpu None p (exec_remove p s)))"

text \<open>\<open>evict_all_processes\<close>: the orders are sent first, then each CPU is waited for.\<close>

fun evict_each :: "client option list \<Rightarrow> t_interrupt_reason \<Rightarrow> ks_state \<Rightarrow> client list \<times> ks_state" where
  "evict_each [] reason s = ([], s)"
| "evict_each (cpu # cpus) reason s =
     (let (ok, s') = send_process_evict cpu reason s;
          (evicted, s'') = evict_each cpus reason s'
      in ((if ok then (case cpu of Some c \<Rightarrow> [c] | None \<Rightarrow> []) else []) @ evicted, s''))"

definition evict_all_orders :: "t_interrupt_reason \<Rightarrow> ks_state \<Rightarrow> ks_state" where
  "evict_all_orders reason s =
     (let (evicted, s') = evict_each (map (\<lambda>p. proc_cpu (procs s p)) (exec_processes s)) reason s
      in add_waiter (Wait_evicted reason evicted) s')"

definition evicted_one :: "client \<Rightarrow> ks_state \<Rightarrow> ks_state" where
  "evicted_one c s =
     (case get_process_from_cpu s c of
        None \<Rightarrow> s
      | Some p \<Rightarrow>
          let s1 = process_set_cpu None p (exec_remove p s)
          in free_cpu c (if pending_memory_syscall (procs s p) then s1
               else add_process_at_start_of_ready_queue p (process_set_state READY p s1)))"

section \<open>Start\<close>

text \<open>\<open>setup\<close> of \<open>main.c\<close>, from the values of the configuration file: outside of the multi-queue
  algorithm there is one queue, inside of it no queue may be multi-queue itself.\<close>

definition ks_setup :: "string \<Rightarrow> string list \<Rightarrow> string \<Rightarrow> u64 \<Rightarrow> u64 \<Rightarrow> ks_state option" where
  "ks_setup planification_algorithm queues_algorithms queue_preemption_str rr_quantum timeout =
     (let alg = scheduler_algorithm_from_string planification_algorithm;
          algs = (if alg = CMN then map scheduler_algorithm_from_string queues_algorithms else []);
          count = (if alg = CMN then length queues_algorithms else 1)
      in if CMN \<in> set algs then None
         else Some \<lparr>scheduler_algorithm = alg, queue_algorithms = algs, queue_algorithms_count = count,
           queue_preemption = (queue_preemption_str = ''TRUE''), quantum = rr_quantum,
           suspension_timeout = timeout, can_schedule = True,
           procs = (\<lambda>_. create_process 0 0), clients = (\<lambda>_. create_client_info 0 0),
           mutexes = (\<lambda>_. \<lparr>mutex_name = [], isLocked = False, lockedBy = None, waitingProcesses = []\<rparr>),
           list_processes = [], ready_queue = replicate count [], exec_processes = [],
           block_processes = [], suspended_processes = [], list_cpu = [], list_io_sleep = [],
           list_io_stdin = [], list_io_stdout = [], pending_request_io_sleep = [],
           pending_request_io_stdin = [], pending_request_io_stdout = [],
           pending_io_stdin_reading = [], list_mutexes = [], short_term_scheduler_sem = 0,
           compaction_finished_sem = 0, current_max_pid = 0, next_io_id = 0, waiters = [],
           outbox = [], halted = False\<rparr>)"

end
