(* ===== verification/KS_Schedulers.thy ===== *)
theory KS_Schedulers
  imports KS_State
begin

text \<open>
  The three schedulers of Kernel Scheduler (\<open>kernel_scheduler/src/schedulers\<close>): dispatching,
  preemption and quantum (short term), creation (long term), suspension and resumption (medium
  term). The loop that dispatches until there is no process or no CPU left, and the one that looks
  for expired quanta, are recursive functions with a termination proof.
\<close>

section \<open>Short term\<close>

definition get_next_process_to_execute :: "ks_state \<Rightarrow> process option" where
  "get_next_process_to_execute s =
     (if ready_queue_size s = 0 then None
      else
        let next = (if scheduler_algorithm s = CMN then get_highest_priority_process_from_ready_queue s
                    else Some (ready_queue s ! 0 ! 0))
        in case next of
             None \<Rightarrow> None
           | Some p \<Rightarrow> if proc_state (procs s p) \<noteq> READY then None else Some p)"

definition cpu_free :: "ks_state \<Rightarrow> client \<Rightarrow> bool" where
  "cpu_free s c \<longleftrightarrow> is_available (clients s c) \<and> \<not> is_evicting (clients s c)"

definition get_available_cpu :: "ks_state \<Rightarrow> client option" where
  "get_available_cpu s = List.find (cpu_free s) (list_cpu s)"

text \<open>Giving a process to a CPU, the body of the loop.\<close>

definition dispatch_one :: "u64 \<Rightarrow> process \<Rightarrow> client \<Rightarrow> ks_state \<Rightarrow> ks_state" where
  "dispatch_one now p c s =
     (let s1 = set_available False c (remove_process_from_ready_queue p s);
          s2 = process_set_cpu (Some c) p (process_set_state EXEC p s1);
          s3 = (if scheduler_algorithm s \<noteq> FIFO then upd_proc p (\<lambda>r. r\<lparr>start_exec_time := now\<rparr>) s2 else s2)
      in send_pid_to_execute (proc_pid (procs s p)) (Some c) (exec_add p s3))"

text \<open>With no CPU left, a process of a lower priority is ordered off its CPU.\<close>

definition preempt :: "process \<Rightarrow> ks_state \<Rightarrow> ks_state" where
  "preempt p s =
     (case get_lowest_priority_process s (exec_processes s) of
        None \<Rightarrow> s
      | Some l \<Rightarrow>
          if effective_priority (procs s p) < effective_priority (procs s l)
          then evict_process (proc_cpu (procs s l)) PRIORITY_PREEMPTION True s else s)"

text \<open>Facts about what the stores look like after an update, used everywhere below.\<close>

lemma upd_simps [simp]:
  "clients (upd_proc p f s) = clients s" "list_cpu (upd_proc p f s) = list_cpu s"
  "clients (upd_client c g s) = (clients s)(c := g (clients s c))" "list_cpu (upd_client c g s) = list_cpu s"
  "procs (upd_proc p f s) = (procs s)(p := f (procs s p))" "procs (upd_client c g s) = procs s"
  by (simp_all add: upd_proc_def upd_client_def)

lemma ks_send_frame [simp]:
  "clients (ks_send t pkg s) = clients s" "list_cpu (ks_send t pkg s) = list_cpu s"
  "procs (ks_send t pkg s) = procs s"
  by (simp_all add: ks_send_def)

lemma send_pid_frame [simp]:
  "clients (send_pid_to_execute pid c s) = clients s" "list_cpu (send_pid_to_execute pid c s) = list_cpu s"
  "procs (send_pid_to_execute pid c s) = procs s"
  by (auto simp: send_pid_to_execute_def split: option.split)

lemma dispatch_one_clients [simp]:
  "clients (dispatch_one now p c s) = (clients s)(c := (clients s c)\<lparr>is_available := False\<rparr>)"
  "list_cpu (dispatch_one now p c s) = list_cpu s"
  by (simp_all add: dispatch_one_def Let_def exec_add_def process_set_cpu_def process_set_state_def
      remove_process_from_ready_queue_def on_queue_def)

function dispatch_loop :: "u64 \<Rightarrow> ks_state \<Rightarrow> ks_state" where
  "dispatch_loop now s =
     (case (get_next_process_to_execute s, get_available_cpu s) of
        (Some p, Some c) \<Rightarrow> dispatch_loop now (dispatch_one now p c s)
      | (Some p, None) \<Rightarrow> if scheduler_algorithm s = CMN \<and> queue_preemption s then preempt p s else s
      | (None, _) \<Rightarrow> s)"
  by pat_completeness auto
termination
proof (relation "measure (\<lambda>(now, s). length (filter (cpu_free s) (list_cpu s)))")
  fix now s x y p c
  assume "(x, y) = (get_next_process_to_execute s, get_available_cpu s)" "x = Some p" "y = Some c"
  then have c: "c \<in> set (list_cpu s)" "cpu_free s c"
    using find_Some_iff_set [of "cpu_free s" "list_cpu s" c] by (auto simp: get_available_cpu_def)
  have le: "cpu_free (dispatch_one now p c s) d \<Longrightarrow> cpu_free s d" for d
    by (auto simp: cpu_free_def split: if_splits)
  have "\<not> cpu_free (dispatch_one now p c s) c" by (simp add: cpu_free_def)
  then have "length (filter (cpu_free (dispatch_one now p c s)) (list_cpu s)) < length (filter (cpu_free s) (list_cpu s))"
    using c le by (intro length_filter_less_mono)
  then show "((now, dispatch_one now p c s), (now, s)) \<in> measure (\<lambda>(now, s). length (filter (cpu_free s) (list_cpu s)))"
    by simp
qed simp

declare dispatch_loop.simps [simp del]

text \<open>One turn of \<open>short_term_scheduler_main\<close>; it waits while the semaphore is 0.\<close>

definition short_term_scheduler_turn :: "u64 \<Rightarrow> ks_state \<Rightarrow> ks_state option" where
  "short_term_scheduler_turn now s =
     (if short_term_scheduler_sem s = 0 then None
      else let s' = s\<lparr>short_term_scheduler_sem := short_term_scheduler_sem s - 1\<rparr>
           in Some (if can_schedule_get s then dispatch_loop now s' else s'))"

section \<open>Quantum\<close>

text \<open>A process in execution whose quantum is over and whose CPU is not being evicted yet.\<close>

definition quantum_expired :: "u64 \<Rightarrow> ks_state \<Rightarrow> process \<Rightarrow> bool" where
  "quantum_expired now s p \<longleftrightarrow>
     process_has_quantum s p \<and> now - start_exec_time (procs s p) \<ge> quantum s \<and>
     proc_state (procs s p) = EXEC \<and>
     (case proc_cpu (procs s p) of None \<Rightarrow> False | Some c \<Rightarrow> \<not> is_evicting (clients s c))"

lemma evict_process_frame [simp]:
  "exec_processes (evict_process cpu reason h s) = exec_processes s"
  "procs (evict_process cpu reason h s) = procs s"
  "scheduler_algorithm (evict_process cpu reason h s) = scheduler_algorithm s"
  "queue_algorithms (evict_process cpu reason h s) = queue_algorithms s"
  "queue_algorithms_count (evict_process cpu reason h s) = queue_algorithms_count s"
  "quantum (evict_process cpu reason h s) = quantum s"
  by (auto simp: evict_process_def send_process_evict_def add_waiter_def ks_send_def upd_client_def
      split: option.split)

lemma evict_process_clients:
  "clients (evict_process cpu reason h s) =
     (case cpu of None \<Rightarrow> clients s
      | Some c \<Rightarrow> (clients s)(c := (clients s c)\<lparr>is_evicting := True\<rparr>))"
  by (auto simp: evict_process_def send_process_evict_def add_waiter_def ks_send_def split: option.split)

text \<open>One pass of \<open>quantum_manager\<close>: it starts the search over after every eviction.\<close>

function quantum_pass :: "u64 \<Rightarrow> ks_state \<Rightarrow> ks_state" where
  "quantum_pass now s =
     (case List.find (quantum_expired now s) (exec_processes s) of
        None \<Rightarrow> s
      | Some p \<Rightarrow> quantum_pass now (evict_process (proc_cpu (procs s p)) QUANTUM_EXPIRED True s))"
  by pat_completeness auto
termination
proof (relation "measure (\<lambda>(now, s). length (filter (quantum_expired now s) (exec_processes s)))")
  fix now s p
  assume "List.find (quantum_expired now s) (exec_processes s) = Some p"
  then have p: "p \<in> set (exec_processes s)" "quantum_expired now s p"
    using find_Some_iff_set by fastforce+
  let ?s = "evict_process (proc_cpu (procs s p)) QUANTUM_EXPIRED True s"
  have "process_has_quantum ?s = process_has_quantum s"
    by (simp add: fun_eq_iff process_has_quantum_def queue_index_def split: t_scheduler_algorithm.split)
  then have "quantum_expired now ?s q \<Longrightarrow> quantum_expired now s q" for q
    by (auto simp: quantum_expired_def evict_process_clients split: option.splits if_splits)
  moreover have "\<not> quantum_expired now ?s p"
    using p(2) by (auto simp: quantum_expired_def evict_process_clients split: option.splits)
  ultimately have "length (filter (quantum_expired now ?s) (exec_processes s)) <
      length (filter (quantum_expired now s) (exec_processes s))"
    using p by (intro length_filter_less_mono)
  then show "((now, ?s), (now, s)) \<in> measure (\<lambda>(now, s). length (filter (quantum_expired now s) (exec_processes s)))"
    by simp
qed simp

declare quantum_pass.simps [simp del]

definition quantum_manager_turn :: "u64 \<Rightarrow> ks_state \<Rightarrow> ks_state" where
  "quantum_manager_turn now s = (if can_schedule_get s then quantum_pass now s else s)"

section \<open>Long term\<close>

text \<open>The priority of \<open>INIT_PROC\<close> is a \<open>uint32_t\<close> that the parameter cuts to 8 bits. The request to
  Kernel Memory goes out before the process is in the list.\<close>

definition pid_assigner :: "u32 \<Rightarrow> u32 \<times> u32" where
  [simp]: "pid_assigner current_pid = (current_pid, current_pid + 1)"

definition process_requested :: "string \<Rightarrow> ks_state \<Rightarrow> ks_state" where
  "process_requested path s =
     (case pid_assigner (current_max_pid s) of
        (pid, next_pid) \<Rightarrow> send_process_create_info pid path (s\<lparr>current_max_pid := next_pid\<rparr>))"

definition process_registered :: "u32 \<Rightarrow> u32 \<Rightarrow> ks_state \<Rightarrow> ks_state" where
  "process_registered pid priority s =
     (let p = fresh (list_processes s)
      in s\<lparr>procs := (procs s)(p := create_process pid (ucast priority)),
           list_processes := add_process_to_list p (list_processes s)\<rparr>)"

definition long_term_scheduler :: "string \<Rightarrow> u32 \<Rightarrow> ks_state \<Rightarrow> ks_state" where
  "long_term_scheduler path priority s =
     process_registered (current_max_pid s) priority (process_requested path s)"

definition wait_process_create_confirmation :: "u32 \<Rightarrow> ks_state \<Rightarrow> ks_state" where
  "wait_process_create_confirmation pid s =
     (case get_process_from_pid s pid of
        None \<Rightarrow> s
      | Some p \<Rightarrow> wake_scheduler (add_process_to_ready_queue p (process_set_state READY p s)))"

lemmas long_term_defs = long_term_scheduler_def process_requested_def process_registered_def

section \<open>Medium term\<close>

definition set_block_time :: "u64 \<Rightarrow> process \<Rightarrow> ks_state \<Rightarrow> ks_state" where
  "set_block_time now p = upd_proc p (\<lambda>r. r\<lparr>start_block_time := now\<rparr>)"

definition must_suspend :: "u64 \<Rightarrow> ks_state \<Rightarrow> process \<Rightarrow> bool" where
  "must_suspend now s p \<longleftrightarrow>
     proc_state (procs s p) = BLOCK \<and> now - start_block_time (procs s p) \<ge> suspension_timeout s"

text \<open>One pass of \<open>suspension_manager\<close>; the loop runs over the list it started with, since it
  steps back after each removal.\<close>

definition suspend_one :: "process \<Rightarrow> ks_state \<Rightarrow> ks_state" where
  "suspend_one p s = process_set_state SUSP_BLOCK p (block_remove p s)"

fun suspend_scan :: "u64 \<Rightarrow> process list \<Rightarrow> process list \<Rightarrow> ks_state \<Rightarrow> process list \<times> ks_state" where
  "suspend_scan now [] to_suspend_list s = (to_suspend_list, s)"
| "suspend_scan now (p # ps) to_suspend_list s =
     (if must_suspend now s p then suspend_scan now ps (to_suspend_list @ [p]) (suspend_one p s)
      else suspend_scan now ps to_suspend_list s)"

definition send_swap_out :: "process \<Rightarrow> ks_state \<Rightarrow> ks_state" where
  "send_swap_out p s = ks_send Kernel_Memory (uint32_send_with_op_code (proc_pid (procs s p)) SWAP_OUT) s"

definition suspension_manager_turn :: "u64 \<Rightarrow> ks_state \<Rightarrow> ks_state" where
  "suspension_manager_turn now s =
     (if \<not> can_schedule_get s then s
      else case suspend_scan now (block_processes s) [] s of
             (to_suspend_list, s') \<Rightarrow> fold send_swap_out to_suspend_list s')"

definition wait_confirmation_swap_out :: "u64 \<Rightarrow> u32 \<Rightarrow> bool \<Rightarrow> ks_state \<Rightarrow> ks_state" where
  "wait_confirmation_swap_out now pid ok s =
     (case get_process_from_pid s pid of
        None \<Rightarrow> s
      | Some p \<Rightarrow>
          let current = proc_state (procs s p) in
          if current \<noteq> SUSP_BLOCK \<and> current \<noteq> SUSP_READY then s
          else if \<not> ok \<and> current = SUSP_READY
          then wake_scheduler (add_process_to_ready_queue p (process_set_state READY p s))
          else if \<not> ok \<and> current = SUSP_BLOCK
          then block_add p (set_block_time now p (process_set_state BLOCK p s))
          else s\<lparr>suspended_processes := suspended_processes s @ [p]\<rparr>)"

definition sort_processes_by_priority ::
  "((process \<Rightarrow> process \<Rightarrow> bool) \<Rightarrow> process list \<Rightarrow> process list) \<Rightarrow> ks_state \<Rightarrow> process list \<Rightarrow> process list"
where
  "sort_processes_by_priority list_sort s ps =
     list_sort (\<lambda>a b. effective_priority (procs s a) < effective_priority (procs s b)) ps"

definition process_list_to_pid_list :: "ks_state \<Rightarrow> process list \<Rightarrow> u32 list" where
  "process_list_to_pid_list s ps = map (\<lambda>p. proc_pid (procs s p)) ps"

definition request_swap_in ::
  "((process \<Rightarrow> process \<Rightarrow> bool) \<Rightarrow> process list \<Rightarrow> process list) \<Rightarrow> ks_state \<Rightarrow> ks_state" where
  "request_swap_in list_sort s =
     (let ready_to_swap = filter (\<lambda>p. proc_state (procs s p) = SUSP_READY) (suspended_processes s);
          to_swap_in_list = process_list_to_pid_list s (sort_processes_by_priority list_sort s ready_to_swap)
      in if to_swap_in_list = [] then s
         else ks_send Kernel_Memory (uint32_list_send to_swap_in_list SWAP_IN) s)"

text \<open>\<open>wait_confirmation_swap_in\<close>: the flag is \<open>new_ready_processes\<close>.\<close>

definition swapped_in :: "u64 \<Rightarrow> u32 \<Rightarrow> bool \<times> ks_state \<Rightarrow> bool \<times> ks_state" where
  "swapped_in now pid = (\<lambda>(new_ready, s).
     case get_process_from_pid s pid of
       None \<Rightarrow> (new_ready, s)
     | Some p \<Rightarrow>
         let s1 = s\<lparr>suspended_processes := remove1 p (suspended_processes s)\<rparr> in
         if proc_state (procs s p) = SUSP_READY
         then (True, add_process_to_ready_queue p (process_set_state READY p s1))
         else if proc_state (procs s p) = SUSP_BLOCK
         then (new_ready, block_add p (set_block_time now p (process_set_state BLOCK p s1)))
         else (new_ready, s1))"

definition wait_confirmation_swap_in :: "u64 \<Rightarrow> u32 list \<Rightarrow> ks_state \<Rightarrow> ks_state" where
  "wait_confirmation_swap_in now pid_list s =
     (case fold (swapped_in now) pid_list (False, s) of
        (new_ready, s') \<Rightarrow> if new_ready then wake_scheduler s' else s')"

end
