(* ===== verification/KS_Mutex.thy ===== *)
theory KS_Mutex
  imports KS_Schedulers
begin

text \<open>
  The mutexes of the simulated processes (\<open>managers/mutex_manager.c\<close>): creation by name,
  locking with priority inheritance in the multi-queue algorithm, unlocking and handing over. A
  mutex knows its owner and its waiters, a process the mutexes it owns.
\<close>

section \<open>Operations\<close>

text \<open>\<open>string_equals_ignore_case\<close> of the commons library compares the lower-cased strings; it is
  a parameter.\<close>

definition get_mutex_by_name :: "(string \<Rightarrow> string \<Rightarrow> bool) \<Rightarrow> ks_state \<Rightarrow> string \<Rightarrow> mutex option" where
  "get_mutex_by_name equals_ignore_case s name =
     List.find (\<lambda>m. equals_ignore_case (mutex_name (mutexes s m)) name) (list_mutexes s)"

definition new_mutex :: "string \<Rightarrow> t_mutex" where
  "new_mutex name = \<lparr>mutex_name = name, isLocked = False, lockedBy = None, waitingProcesses = []\<rparr>"

definition mutex_create :: "(string \<Rightarrow> string \<Rightarrow> bool) \<Rightarrow> string \<Rightarrow> ks_state \<Rightarrow> ks_state" where
  "mutex_create equals_ignore_case name s =
     (case get_mutex_by_name equals_ignore_case s name of
        Some _ \<Rightarrow> s
      | None \<Rightarrow>
          let m = fresh (list_mutexes s)
          in s\<lparr>mutexes := (mutexes s)(m := new_mutex name), list_mutexes := list_mutexes s @ [m]\<rparr>)"

text \<open>A new effective priority moves a \<open>READY\<close> process to the queue of that priority.\<close>

definition change_priority :: "u8 \<Rightarrow> process \<Rightarrow> ks_state \<Rightarrow> ks_state" where
  "change_priority pr p s =
     (if proc_state (procs s p) = READY
      then add_process_to_ready_queue p (process_set_priority pr p (remove_process_from_ready_queue p s))
      else process_set_priority pr p s)"

text \<open>Blocking the process, in the second branch of \<open>mutex_lock\<close> and in the I/O calls.\<close>

definition block_process :: "u64 \<Rightarrow> process \<Rightarrow> ks_state \<Rightarrow> ks_state" where
  "block_process now p s =
     block_add p (set_block_time now p (exec_remove p (process_set_cpu None p (process_set_state BLOCK p s))))"

definition inherit_priority :: "process \<Rightarrow> process \<Rightarrow> ks_state \<Rightarrow> ks_state" where
  "inherit_priority p owner s =
     (if effective_priority (procs s p) < effective_priority (procs s owner)
      then change_priority (effective_priority (procs s p)) owner s else s)"

text \<open>Two pointers are used without a check: the owner of a locked mutex, when priorities are
  compared, and the CPU of the process. The call is undefined when they are NULL.\<close>

definition mutex_lock :: "u64 \<Rightarrow> mutex \<Rightarrow> process \<Rightarrow> ks_state \<Rightarrow> ks_state run" where
  "mutex_lock now m p s =
     (let cpu = proc_cpu (procs s p); pid = proc_pid (procs s p) in
      if \<not> isLocked (mutexes s m)
      then Ret (send_pid_to_execute pid cpu
             (upd_proc p (\<lambda>r. r\<lparr>owned_mutexes := owned_mutexes r @ [m]\<rparr>)
               (upd_mutex m (\<lambda>x. x\<lparr>isLocked := True, lockedBy := Some p\<rparr>) s)))
      else if lockedBy (mutexes s m) = Some p then Ret (send_pid_to_execute pid cpu s)
      else
        let s1 = block_process now p
               (upd_mutex m (\<lambda>x. x\<lparr>waitingProcesses := waitingProcesses x @ [p]\<rparr>) s)
        in and_then (if scheduler_algorithm s = CMN
                     then and_then (of_option (lockedBy (mutexes s m))) (\<lambda>owner. Ret (inherit_priority p owner s1))
                     else Ret s1) (\<lambda>s2.
             and_then (of_option cpu) (\<lambda>c. Ret (wake_scheduler (set_available True c s2)))))"

text \<open>The priority of a process that keeps the mutexes \<open>ms\<close>: its base priority or the best
  one of those that wait for them.\<close>

definition inherited_priority :: "ks_state \<Rightarrow> process \<Rightarrow> mutex list \<Rightarrow> u8" where
  "inherited_priority s p ms =
     fold (\<lambda>w new_priority. if effective_priority (procs s w) < new_priority
                            then effective_priority (procs s w) else new_priority)
       (concat (map (\<lambda>m. waitingProcesses (mutexes s m)) ms)) (base_priority (procs s p))"

definition restore_priority :: "process \<Rightarrow> ks_state \<Rightarrow> ks_state" where
  "restore_priority p s =
     (let new_priority = inherited_priority s p (owned_mutexes (procs s p))
      in if scheduler_algorithm s = CMN \<and> new_priority \<noteq> effective_priority (procs s p)
         then change_priority new_priority p s else s)"

text \<open>The mutex goes to the process that has waited longest, which becomes ready (or, suspended,
  ready to be swapped in).\<close>

definition hand_over :: "mutex \<Rightarrow> ks_state \<Rightarrow> ks_state" where
  "hand_over m s =
     (case waitingProcesses (mutexes s m) of
        [] \<Rightarrow> upd_mutex m (\<lambda>x. x\<lparr>isLocked := False, lockedBy := None\<rparr>) s
      | next # rest \<Rightarrow>
          let s1 = upd_mutex m (\<lambda>x. x\<lparr>isLocked := True, lockedBy := Some next, waitingProcesses := rest\<rparr>) s;
              s2 = block_remove next (process_set_ready next s1);
              s3 = upd_proc next (\<lambda>r. r\<lparr>owned_mutexes := owned_mutexes r @ [m]\<rparr>) s2
          in if proc_state (procs s3 next) = READY
             then wake_scheduler (add_process_to_ready_queue next s3) else s3)"

definition mutex_unlock :: "mutex \<Rightarrow> process \<Rightarrow> ks_state \<Rightarrow> ks_state" where
  "mutex_unlock m p s =
     (if lockedBy (mutexes s m) \<noteq> Some p then s
      else hand_over m (restore_priority p
             (upd_proc p (\<lambda>r. r\<lparr>owned_mutexes := remove1 m (owned_mutexes r)\<rparr>)
               (send_pid_to_execute (proc_pid (procs s p)) (proc_cpu (procs s p)) s))))"

end
