(* ===== verification/KS_Managers.thy ===== *)
theory KS_Managers
  imports KS_Mutex
begin

text \<open>
  The memory and I/O managers of Kernel Scheduler (\<open>managers/memory_manager.c\<close>,
  \<open>managers/io_manager.c\<close>): the memory system calls and their results, compaction and memory
  corruption, the I/O system calls, the queues of pending requests per kind of device, and the
  end of an operation.
\<close>

section \<open>Memory\<close>

definition set_pending :: "bool \<Rightarrow> process \<Rightarrow> ks_state \<Rightarrow> ks_state" where
  "set_pending b p = upd_proc p (\<lambda>r. r\<lparr>pending_memory_syscall := b\<rparr>)"

definition mem_alloc_syscall_manager :: "u32 \<Rightarrow> u32 \<Rightarrow> u32 \<Rightarrow> ks_state \<Rightarrow> ks_state" where
  "mem_alloc_syscall_manager pid sid segment_size s =
     (case get_process_from_pid s pid of
        None \<Rightarrow> s
      | Some p \<Rightarrow>
          if segment_size = 0 then s
          else ks_send Kernel_Memory (package_add (u32_bytes segment_size) (package_add (u32_bytes sid)
                 (package_add (u32_bytes pid) (package_with SEGMENT_CREATE)))) (set_pending True p s))"

definition mem_free_syscall_manager :: "u32 \<Rightarrow> u32 \<Rightarrow> ks_state \<Rightarrow> ks_state" where
  "mem_free_syscall_manager pid sid s =
     (case get_process_from_pid s pid of
        None \<Rightarrow> s
      | Some p \<Rightarrow>
          ks_send Kernel_Memory (package_add (u32_bytes sid)
            (package_add (u32_bytes pid) (package_with SEGMENT_DELETE))) (set_pending True p s))"

text \<open>The result of a request: the process goes on where it is, or becomes ready when it was
  evicted meanwhile; a failed request ends it.\<close>

definition handle_segment_result :: "u32 \<Rightarrow> t_segment_result \<Rightarrow> ks_state \<Rightarrow> ks_state" where
  "handle_segment_result pid result s =
     (case get_process_from_pid s pid of
        None \<Rightarrow> s
      | Some p \<Rightarrow>
          let s1 = set_pending False p s in
          case proc_cpu (procs s p) of
            None \<Rightarrow>
              if result = SEGMENT_OK
              then if proc_state (procs s p) = EXEC
                   then wake_scheduler (add_process_to_ready_queue p (process_set_state READY p s1))
                   else s1
              else wake_scheduler (send_process_end pid (exec_remove p (process_set_state EXIT p s1)))
          | Some c \<Rightarrow>
              if result = SEGMENT_OK then send_pid_to_execute pid (Some c) s1
              else
                let s2 = process_set_cpu None p (process_set_state EXIT p s1);
                    s3 = remove_process_from_ready_queue p (exec_remove p s2);
                    s4 = (if is_evicting (clients s3 c) then s3 else set_available True c s3)
                in wake_scheduler (send_process_end pid s4))"

text \<open>\<open>compaction_requested_thread\<close> up to the point where it waits for the evictions, and after
  them; with nothing in execution \<open>evict_all_processes\<close> does not wait.\<close>

definition compaction_requested :: "ks_state \<Rightarrow> ks_state" where
  "compaction_requested s = evict_all_orders COMPACTION (can_schedule_write False s)"

definition memory_corrupted :: "ks_state \<Rightarrow> ks_state" where
  "memory_corrupted s = evict_all_orders BSOD (can_schedule_write False s)"

definition all_evicted :: "t_interrupt_reason \<Rightarrow> ks_state \<Rightarrow> ks_state" where
  "all_evicted reason s =
     (if reason = BSOD then s\<lparr>halted := True\<rparr>
      else add_waiter Wait_compaction (ks_send Kernel_Memory (package_with COMPACTION_READY) s))"

definition compaction_over :: "ks_state \<Rightarrow> ks_state" where
  "compaction_over s = wake_scheduler
     (can_schedule_write True (s\<lparr>compaction_finished_sem := compaction_finished_sem s - 1\<rparr>))"

section \<open>I/O\<close>

definition get_available_io_type :: "ks_state \<Rightarrow> client list \<Rightarrow> client option" where
  "get_available_io_type s io_list = List.find (\<lambda>c. is_available (clients s c)) io_list"

definition sleep_syscall_manager :: "u64 \<Rightarrow> process \<Rightarrow> client \<Rightarrow> u32 \<Rightarrow> ks_state \<Rightarrow> ks_state" where
  "sleep_syscall_manager now p cpu sleep_time s =
     (let s1 = set_available True cpu (block_process now p s);
          io_process = t_io_numeric_process_create (proc_pid (procs s p)) sleep_time IO_TYPE_SLEEP
      in wake_scheduler
           (case get_available_io_type s1 (list_io_sleep s1) of
              Some io \<Rightarrow> ks_send (Client io) (io_numeric_process_send io_process SLEEP) (set_available False io s1)
            | None \<Rightarrow> s1\<lparr>pending_request_io_sleep := pending_request_io_sleep s1 @ [io_process]\<rparr>))"

definition t_pending_stdin_create :: "u32 \<Rightarrow> u32 \<Rightarrow> u32 \<Rightarrow> t_pending_stdin" where
  [simp]: "t_pending_stdin_create pid physical_address sz =
     \<lparr>ps_pid = pid, ps_physical_address = physical_address, ps_size = sz\<rparr>"

text \<open>A read of 0 bytes ends the process.\<close>

definition stdin_syscall_manager :: "u64 \<Rightarrow> process \<Rightarrow> client \<Rightarrow> u32 \<Rightarrow> u32 \<Rightarrow> ks_state \<Rightarrow> ks_state" where
  "stdin_syscall_manager now p cpu physical_address to_read s =
     (let pid = proc_pid (procs s p) in
      if to_read = 0
      then send_process_end pid (process_set_state EXIT p (exec_remove p s))
      else
        let s1 = set_available True cpu (block_process now p s);
            io_process = t_io_numeric_process_create pid to_read IO_TYPE_STDIN;
            s2 = s1\<lparr>pending_io_stdin_reading := pending_io_stdin_reading s1 @
              [t_pending_stdin_create pid physical_address to_read]\<rparr>
        in wake_scheduler
             (case get_available_io_type s2 (list_io_stdin s2) of
                Some io \<Rightarrow> ks_send (Client io) (io_numeric_process_send io_process STDIN) (set_available False io s2)
              | None \<Rightarrow> s2\<lparr>pending_request_io_stdin := pending_request_io_stdin s2 @ [io_process]\<rparr>))"

definition stdout_syscall_manager :: "u64 \<Rightarrow> process \<Rightarrow> client \<Rightarrow> u32 \<Rightarrow> u32 \<Rightarrow> ks_state \<Rightarrow> ks_state" where
  "stdout_syscall_manager now p cpu physical_address to_read s =
     send_memory_read (proc_pid (procs s p)) physical_address to_read
       (set_available True cpu (block_process now p s))"

text \<open>The data of a \<open>STDOUT\<close>: the empty string means that the read failed. The process is then
  ended, and the function goes on.\<close>

definition stdout_wait_memory_read :: "u32 \<Rightarrow> string \<Rightarrow> ks_state \<Rightarrow> ks_state run" where
  "stdout_wait_memory_read pid value s =
     and_then
       (if value = [] then and_then (of_option (get_process_from_pid s pid)) (\<lambda>p.
          Ret (send_process_end pid (process_set_state EXIT p s)))
        else Ret s) (\<lambda>s1.
          let io_process = t_io_string_process_create pid value IO_TYPE_STDOUT
          in Ret (wake_scheduler
               (case get_available_io_type s1 (list_io_stdout s1) of
                  Some io \<Rightarrow> ks_send (Client io) (io_string_process_send io_process STDOUT) (set_available False io s1)
                | None \<Rightarrow> s1\<lparr>pending_request_io_stdout := pending_request_io_stdout s1 @ [io_process]\<rparr>)))"

text \<open>The process has what it waited for, in \<open>wait_memory_write_confirmation\<close> and
  \<open>io_finish_process\<close>.\<close>

definition unblock_process :: "process \<Rightarrow> ks_state \<Rightarrow> ks_state" where
  "unblock_process p s =
     (let s1 = block_remove p (process_set_ready p s)
      in if proc_state (procs s1 p) = READY then add_process_to_ready_queue p s1 else s1)"

definition memory_write_confirmed :: "process \<Rightarrow> ks_state \<Rightarrow> ks_state" where
  "memory_write_confirmed p s =
     wake_scheduler (unblock_process p
       (upd_proc p (\<lambda>r. r\<lparr>memory_request_sem := memory_request_sem r - 1\<rparr>) s))"

definition io_finish_process :: "u32 \<Rightarrow> client \<Rightarrow> ks_state \<Rightarrow> ks_state" where
  "io_finish_process pid io s =
     (case get_process_from_pid s pid of
        None \<Rightarrow> s
      | Some p \<Rightarrow> wake_scheduler (set_available True io (unblock_process p s)))"

definition get_pending_stdin_from_pid :: "ks_state \<Rightarrow> u32 \<Rightarrow> t_pending_stdin option" where
  "get_pending_stdin_from_pid s pid = List.find (\<lambda>x. ps_pid x = pid) (pending_io_stdin_reading s)"

text \<open>The two functions for the two kinds of request differ in the type only.\<close>

definition get_next_io_numeric_process_from_list ::
  "t_io_numeric_process list \<Rightarrow> t_io_numeric_process option \<times> t_io_numeric_process list" where
  [simp]: "get_next_io_numeric_process_from_list io_pending_list =
     (case io_pending_list of [] \<Rightarrow> (None, []) | io_process # rest \<Rightarrow> (Some io_process, rest))"

definition get_next_io_string_process_from_list ::
  "t_io_string_process list \<Rightarrow> t_io_string_process option \<times> t_io_string_process list" where
  [simp]: "get_next_io_string_process_from_list io_pending_list =
     (case io_pending_list of [] \<Rightarrow> (None, []) | io_process # rest \<Rightarrow> (Some io_process, rest))"

definition handle_next_operation :: "client \<Rightarrow> t_io_type \<Rightarrow> ks_state \<Rightarrow> ks_state" where
  "handle_next_operation io io_type s =
     (case io_type of
        IO_TYPE_SLEEP \<Rightarrow>
          (case get_next_io_numeric_process_from_list (pending_request_io_sleep s) of
             (None, _) \<Rightarrow> s
           | (Some pending, rest) \<Rightarrow> ks_send (Client io) (io_numeric_process_send pending SLEEP)
               (set_available False io (s\<lparr>pending_request_io_sleep := rest\<rparr>)))
      | IO_TYPE_STDOUT \<Rightarrow>
          (case get_next_io_string_process_from_list (pending_request_io_stdout s) of
             (None, _) \<Rightarrow> s
           | (Some pending, rest) \<Rightarrow> ks_send (Client io) (io_string_process_send pending STDOUT)
               (set_available False io (s\<lparr>pending_request_io_stdout := rest\<rparr>)))
      | IO_TYPE_STDIN \<Rightarrow>
          (case get_next_io_numeric_process_from_list (pending_request_io_stdin s) of
             (None, _) \<Rightarrow> s
           | (Some pending, rest) \<Rightarrow> ks_send (Client io) (io_numeric_process_send pending STDIN)
               (set_available False io (s\<lparr>pending_request_io_stdin := rest\<rparr>))))"

end
