(* ===== verification/KS_Handlers.thy ===== *)
theory KS_Handlers
  imports KS_Managers
begin

text \<open>
  The handlers of Kernel Scheduler's connections (\<open>module_handlers/cpu_handler.c\<close>,
  \<open>kernel_memory_handler.c\<close>, \<open>io_handler.c\<close>) and the steps of its waiting threads. A handler
  gets the operation code and the buffer of a message; a buffer without the fields that the reader
  takes from it is \<open>Undef\<close>.
\<close>

section \<open>Readers\<close>

definition read_u32_pair :: "byte list \<Rightarrow> (u32 \<times> u32) option" where
  "read_u32_pair buffer = do {
     (a, b) \<leftarrow> uint32_deserialize buffer;
     (c, b) \<leftarrow> uint32_deserialize b;
     Some (a, c) }"

definition read_u32_triple :: "byte list \<Rightarrow> (u32 \<times> u32 \<times> u32) option" where
  "read_u32_triple buffer = do {
     (a, b) \<leftarrow> uint32_deserialize buffer;
     (c, b) \<leftarrow> uint32_deserialize b;
     (d, b) \<leftarrow> uint32_deserialize b;
     Some (a, c, d) }"

definition receive_instruction_mem_alloc :: "byte list \<Rightarrow> (u32 \<times> u32 \<times> u32) option" where
  "receive_instruction_mem_alloc = read_u32_triple"

definition receive_instruction_mem_free :: "byte list \<Rightarrow> (u32 \<times> u32) option" where
  "receive_instruction_mem_free = read_u32_pair"

definition receive_instruction_sleep :: "byte list \<Rightarrow> (u32 \<times> u32) option" where
  "receive_instruction_sleep = read_u32_pair"

definition receive_instruction_std :: "byte list \<Rightarrow> (u32 \<times> u32 \<times> u32) option" where
  "receive_instruction_std = read_u32_triple"

definition receive_pid_and_name :: "byte list \<Rightarrow> (u32 \<times> string) option" where
  "receive_pid_and_name buffer = do {
     (pid, b) \<leftarrow> uint32_deserialize buffer;
     (name, b) \<leftarrow> string_deserialize b;
     Some (pid, name) }"

definition receive_instruction_process_create :: "byte list \<Rightarrow> (u32 \<times> u32 \<times> string) option" where
  "receive_instruction_process_create buffer = do {
     (pid, b) \<leftarrow> uint32_deserialize buffer;
     (priority, b) \<leftarrow> uint32_deserialize b;
     (path, b) \<leftarrow> string_deserialize b;
     Some (pid, priority, path) }"

definition receive_interruption :: "byte list \<Rightarrow> (u32 \<times> u32) option" where
  "receive_interruption = read_u32_pair"

definition receive_segment_result :: "byte list \<Rightarrow> (u32 \<times> u32 \<times> t_segment_result) option" where
  "receive_segment_result buffer = do {
     (pid, b) \<leftarrow> uint32_deserialize buffer;
     (sid, b) \<leftarrow> uint32_deserialize b;
     (result, b) \<leftarrow> segment_result_deserialize b;
     Some (pid, sid, result) }"

definition receive_read_value_io_memory_read :: "byte list \<Rightarrow> (u32 \<times> string) option" where
  "receive_read_value_io_memory_read = receive_pid_and_name"

definition receive_confirmation_io_memory_write :: "byte list \<Rightarrow> (u32 \<times> bool) option" where
  "receive_confirmation_io_memory_write buffer = do {
     (pid, b) \<leftarrow> uint32_deserialize buffer;
     (ok, b) \<leftarrow> bool_deserialize b;
     Some (pid, ok) }"

section \<open>Messages of a CPU\<close>

text \<open>The process is over.\<close>

definition process_end_message :: "u32 \<Rightarrow> client \<Rightarrow> ks_state \<Rightarrow> ks_state" where
  "process_end_message pid cpu s =
     (let s1 = (case get_process_from_pid s pid of
                  None \<Rightarrow> s
                | Some p \<Rightarrow> exec_remove p (process_set_cpu None p (process_set_state EXIT p s)))
      in wake_scheduler (send_process_end pid (set_available True cpu s1)))"

text \<open>An unknown mutex ends the process; its \<open>cpu\<close> is left as it is.\<close>

definition unknown_mutex :: "process \<Rightarrow> client \<Rightarrow> ks_state \<Rightarrow> ks_state" where
  "unknown_mutex p cpu s =
     wake_scheduler (send_process_end (proc_pid (procs s p))
       (process_set_state EXIT p (exec_remove p (set_available True cpu s))))"

definition mutex_message ::
  "(string \<Rightarrow> string \<Rightarrow> bool) \<Rightarrow> (mutex \<Rightarrow> process \<Rightarrow> ks_state \<Rightarrow> ks_state run) \<Rightarrow> u32 \<Rightarrow> string \<Rightarrow> client \<Rightarrow>
   ks_state \<Rightarrow> ks_state run" where
  "mutex_message eq operation pid name cpu s =
     (case get_process_from_pid s pid of
        None \<Rightarrow> Ret s
      | Some p \<Rightarrow>
          (case get_mutex_by_name eq s name of
             Some m \<Rightarrow> operation m p s
           | None \<Rightarrow> Ret (unknown_mutex p cpu s)))"

definition with_process :: "u32 \<Rightarrow> (process \<Rightarrow> ks_state \<Rightarrow> ks_state) \<Rightarrow> ks_state \<Rightarrow> ks_state" where
  "with_process pid f s = (case get_process_from_pid s pid of None \<Rightarrow> s | Some p \<Rightarrow> f p s)"

definition mutex_create_message ::
  "(string \<Rightarrow> string \<Rightarrow> bool) \<Rightarrow> client \<Rightarrow> byte list \<Rightarrow> ks_state \<Rightarrow> ks_state run" where
  "mutex_create_message eq cpu buffer s =
     and_then (of_option (receive_pid_and_name buffer)) (\<lambda>(pid, name).
       and_then (of_option (get_process_from_pid s pid)) (\<lambda>p.
         Ret (send_pid_to_execute (proc_pid (procs s p)) (Some cpu) (mutex_create eq name s))))"

definition sleep_message :: "u64 \<Rightarrow> client \<Rightarrow> byte list \<Rightarrow> ks_state \<Rightarrow> ks_state run" where
  "sleep_message now cpu buffer s =
     and_then (of_option (receive_instruction_sleep buffer)) (\<lambda>(pid, sleep_time).
       Ret (with_process pid (\<lambda>p. sleep_syscall_manager now p cpu sleep_time) s))"

definition stdin_message :: "u64 \<Rightarrow> client \<Rightarrow> byte list \<Rightarrow> ks_state \<Rightarrow> ks_state run" where
  "stdin_message now cpu buffer s =
     and_then (of_option (receive_instruction_std buffer)) (\<lambda>(pid, physical_address, to_read).
       Ret (with_process pid (\<lambda>p. stdin_syscall_manager now p cpu physical_address to_read) s))"

definition stdout_message :: "u64 \<Rightarrow> client \<Rightarrow> byte list \<Rightarrow> ks_state \<Rightarrow> ks_state run" where
  "stdout_message now cpu buffer s =
     and_then (of_option (receive_instruction_std buffer)) (\<lambda>(pid, physical_address, to_read).
       Ret (with_process pid (\<lambda>p. stdout_syscall_manager now p cpu physical_address to_read) s))"

definition mem_alloc_message :: "byte list \<Rightarrow> ks_state \<Rightarrow> ks_state run" where
  "mem_alloc_message buffer s =
     and_then (of_option (receive_instruction_mem_alloc buffer)) (\<lambda>(pid, sid, sz).
       Ret (mem_alloc_syscall_manager pid sid sz s))"

definition mem_free_message :: "byte list \<Rightarrow> ks_state \<Rightarrow> ks_state run" where
  "mem_free_message buffer s =
     and_then (of_option (receive_instruction_mem_free buffer)) (\<lambda>(pid, sid).
       Ret (mem_free_syscall_manager pid sid s))"

definition eviction_confirmed :: "client \<Rightarrow> byte list \<Rightarrow> ks_state \<Rightarrow> ks_state run" where
  "eviction_confirmed cpu buffer s =
     and_then (of_option (uint32_deserialize buffer)) (\<lambda>_.
       Ret (upd_client cpu (\<lambda>i. i\<lparr>response_sem := response_sem i + 1\<rparr>) s))"

text \<open>The fault ends the process like \<open>PROCESS_END\<close>, in the same steps; an interruption is only logged.\<close>

definition segmentation_fault_message :: "client \<Rightarrow> byte list \<Rightarrow> ks_state \<Rightarrow> ks_state run" where
  "segmentation_fault_message cpu buffer s =
     and_then (of_option (uint32_deserialize buffer)) (\<lambda>(pid, _). Ret (process_end_message pid cpu s))"

definition interruption_message :: "byte list \<Rightarrow> ks_state \<Rightarrow> ks_state run" where
  "interruption_message buffer s = and_then (of_option (receive_interruption buffer)) (\<lambda>_. Ret s)"

definition ks_cpu_handler ::
  "(string \<Rightarrow> string \<Rightarrow> bool) \<Rightarrow> u64 \<Rightarrow> client \<Rightarrow> op_code \<Rightarrow> byte list \<Rightarrow> ks_state \<Rightarrow> ks_state run" where
  "ks_cpu_handler eq now cpu op buffer s =
     (case op of
        PROCESS_CREATE \<Rightarrow>
          and_then (of_option (receive_instruction_process_create buffer)) (\<lambda>(pid, priority, path).
            Ret (long_term_scheduler path priority s))
      | PROCESS_END \<Rightarrow>
          and_then (of_option (uint32_deserialize buffer)) (\<lambda>(pid, _). Ret (process_end_message pid cpu s))
      | MUTEX_CREATE \<Rightarrow> mutex_create_message eq cpu buffer s
      | MUTEX_LOCK \<Rightarrow>
          and_then (of_option (receive_pid_and_name buffer)) (\<lambda>(pid, name).
            mutex_message eq (mutex_lock now) pid name cpu s)
      | MUTEX_UNLOCK \<Rightarrow>
          and_then (of_option (receive_pid_and_name buffer)) (\<lambda>(pid, name).
            mutex_message eq (\<lambda>m p s. Ret (mutex_unlock m p s)) pid name cpu s)
      | SLEEP \<Rightarrow> sleep_message now cpu buffer s
      | STDIN \<Rightarrow> stdin_message now cpu buffer s
      | STDOUT \<Rightarrow> stdout_message now cpu buffer s
      | PROCESS_INTERRUPTED \<Rightarrow> interruption_message buffer s
      | MEM_ALLOC \<Rightarrow> mem_alloc_message buffer s
      | MEM_FREE \<Rightarrow> mem_free_message buffer s
      | SEGMENTATION_FAULT \<Rightarrow> segmentation_fault_message cpu buffer s
      | CONFIRMATION \<Rightarrow> eviction_confirmed cpu buffer s
      | _ \<Rightarrow> Ret s)"

lemmas cpu_message_defs = mutex_create_message_def sleep_message_def stdin_message_def stdout_message_def
  mem_alloc_message_def mem_free_message_def eviction_confirmed_def segmentation_fault_message_def
  interruption_message_def

definition all_clients :: "ks_state \<Rightarrow> client list" where
  "all_clients s = list_cpu s @ list_io_sleep s @ list_io_stdin s @ list_io_stdout s"

definition ks_cpu_connected :: "fd \<Rightarrow> u32 \<Rightarrow> ks_state \<Rightarrow> ks_state" where
  "ks_cpu_connected cpu_fd i s =
     (let c = fresh (all_clients s)
      in wake_scheduler (s\<lparr>clients := (clients s)(c := create_client_info cpu_fd i),
           list_cpu := list_cpu s @ [c]\<rparr>))"

definition handle_cpu_disconnection :: "client \<Rightarrow> ks_state \<Rightarrow> ks_state" where
  "handle_cpu_disconnection cpu s =
     (let s1 = (case get_process_from_cpu s cpu of
                  None \<Rightarrow> s
                | Some p \<Rightarrow>
                    upd_proc p (\<lambda>r. r\<lparr>start_exec_time := 0\<rparr>)
                      (exec_remove p (add_process_to_ready_queue p
                        (process_set_cpu None p (process_set_state READY p s)))))
      in wake_scheduler (s1\<lparr>list_cpu := remove1 cpu (list_cpu s1)\<rparr>))"

section \<open>Messages of Kernel Memory\<close>

definition memory_update ::
  "((process \<Rightarrow> process \<Rightarrow> bool) \<Rightarrow> process list \<Rightarrow> process list) \<Rightarrow> u32 \<Rightarrow> ks_state \<Rightarrow> ks_state" where
  [simp]: "memory_update list_sort new_size s = request_swap_in list_sort s"

definition io_memory_write_answer :: "u32 \<Rightarrow> bool \<Rightarrow> ks_state \<Rightarrow> ks_state run" where
  "io_memory_write_answer pid write_successful s =
     and_then (of_option (get_process_from_pid s pid)) (\<lambda>p.
       if \<not> write_successful
       then Ret (send_process_end (proc_pid (procs s p)) (process_set_state EXIT p s))
       else Ret (upd_proc p (\<lambda>r. r\<lparr>memory_request_sem := memory_request_sem r + 1\<rparr>) s))"

definition ks_kernel_memory_handler ::
  "((process \<Rightarrow> process \<Rightarrow> bool) \<Rightarrow> process list \<Rightarrow> process list) \<Rightarrow> u64 \<Rightarrow> op_code \<Rightarrow> byte list \<Rightarrow>
   ks_state \<Rightarrow> ks_state run" where
  "ks_kernel_memory_handler list_sort now op buffer s =
     (case op of
        PROCESS_CREATE \<Rightarrow>
          and_then (of_option (uint32_deserialize buffer)) (\<lambda>(pid, _).
            Ret (wait_process_create_confirmation pid s))
      | COMPACTION_REQUEST \<Rightarrow> Ret (compaction_requested s)
      | COMPACTION_FINISHED \<Rightarrow> Ret (s\<lparr>compaction_finished_sem := compaction_finished_sem s + 1\<rparr>)
      | CORRUPTED_MEMORY \<Rightarrow> Ret (memory_corrupted s)
      | MEMORY_UPDATE \<Rightarrow>
          and_then (of_option (uint32_deserialize buffer)) (\<lambda>(new_size, _). Ret (memory_update list_sort new_size s))
      | SEGMENT_RESULT \<Rightarrow>
          and_then (of_option (receive_segment_result buffer)) (\<lambda>(pid, sid, result).
            Ret (handle_segment_result pid result s))
      | IO_MEMORY_READ \<Rightarrow>
          and_then (of_option (receive_read_value_io_memory_read buffer)) (\<lambda>(pid, value).
            stdout_wait_memory_read pid value s)
      | IO_MEMORY_WRITE \<Rightarrow>
          and_then (of_option (receive_confirmation_io_memory_write buffer)) (\<lambda>(pid, ok).
            io_memory_write_answer pid ok s)
      | SWAP_IN \<Rightarrow>
          and_then (of_option (deserialize_all uint32_deserialize buffer)) (\<lambda>pid_list.
            Ret (wait_confirmation_swap_in now pid_list s))
      | SWAP_OUT \<Rightarrow>
          (if buffer = [] then Ret s
           else and_then (of_option (receive_confirmation_io_memory_write buffer)) (\<lambda>(pid, ok).
             Ret (wait_confirmation_swap_out now pid ok s)))
      | _ \<Rightarrow> Ret s)"

section \<open>I/O devices\<close>

definition io_connected :: "fd \<Rightarrow> t_io_type \<Rightarrow> ks_state \<Rightarrow> client \<times> ks_state" where
  "io_connected io_fd io_type s =
     (case id_assigner (next_io_id s) of
        (i, next, pkg) \<Rightarrow>
          let io = fresh (all_clients s);
              s1 = ks_send (Client io) pkg (s\<lparr>next_io_id := next, clients := (clients s)(io := create_client_info io_fd i)\<rparr>);
              s2 = (case io_type of
                      IO_TYPE_STDIN \<Rightarrow> s1\<lparr>list_io_stdin := list_io_stdin s1 @ [io]\<rparr>
                    | IO_TYPE_STDOUT \<Rightarrow> s1\<lparr>list_io_stdout := list_io_stdout s1 @ [io]\<rparr>
                    | IO_TYPE_SLEEP \<Rightarrow> s1\<lparr>list_io_sleep := list_io_sleep s1 @ [io]\<rparr>)
          in (io, handle_next_operation io io_type s2))"

text \<open>The answer of a \<open>STDIN\<close> device goes to memory; a thread waits for the confirmation.\<close>

definition stdin_answer :: "client \<Rightarrow> t_io_type \<Rightarrow> t_io_string_process \<Rightarrow> ks_state \<Rightarrow> ks_state run" where
  "stdin_answer io io_type io_process s =
     (case get_pending_stdin_from_pid s (ios_pid io_process) of
        None \<Rightarrow> Ret s
      | Some pending_stdin \<Rightarrow>
          let s1 = s\<lparr>pending_io_stdin_reading := remove1 pending_stdin (pending_io_stdin_reading s)\<rparr>;
              s2 = set_available True io (send_memory_write (ios_pid io_process)
                     (ps_physical_address pending_stdin) (ps_size pending_stdin) (ios_value io_process) s1)
          in and_then (of_option (get_process_from_pid s2 (ios_pid io_process))) (\<lambda>p.
               Ret (handle_next_operation io io_type (add_waiter (Wait_memory_write p) s2))))"

definition ks_io_handler :: "client \<Rightarrow> t_io_type \<Rightarrow> op_code \<Rightarrow> byte list \<Rightarrow> ks_state \<Rightarrow> ks_state run" where
  "ks_io_handler io io_type op buffer s =
     (case op of
        CONFIRMATION \<Rightarrow>
          and_then (of_option (uint32_deserialize buffer)) (\<lambda>(pid, _).
            Ret (handle_next_operation io io_type (io_finish_process pid io s)))
      | STDIN \<Rightarrow>
          and_then (io_string_process_receive buffer) (\<lambda>r.
            case r of None \<Rightarrow> Ret s | Some io_process \<Rightarrow> stdin_answer io io_type io_process s)
      | _ \<Rightarrow> Ret s)"

definition io_disconnected :: "client \<Rightarrow> t_io_type \<Rightarrow> ks_state \<Rightarrow> ks_state" where
  "io_disconnected io io_type s =
     (case io_type of
        IO_TYPE_STDIN \<Rightarrow> s\<lparr>list_io_stdin := remove1 io (list_io_stdin s)\<rparr>
      | IO_TYPE_STDOUT \<Rightarrow> s\<lparr>list_io_stdout := remove1 io (list_io_stdout s)\<rparr>
      | IO_TYPE_SLEEP \<Rightarrow> s\<lparr>list_io_sleep := remove1 io (list_io_sleep s)\<rparr>)"

section \<open>The waiting threads\<close>

text \<open>One step of a thread: \<open>None\<close> while its semaphore is 0; else what is left of the thread.\<close>

definition take_response :: "client \<Rightarrow> ks_state \<Rightarrow> ks_state" where
  "take_response c = upd_client c (\<lambda>i. i\<lparr>response_sem := response_sem i - 1\<rparr>)"

fun waiter_step :: "waiter \<Rightarrow> ks_state \<Rightarrow> (waiter list \<times> ks_state) option" where
  "waiter_step (Wait_confirmation c handle) s =
     (if response_sem (clients s c) = 0 then None
      else Some ([], (if handle then confirmed_and_handle_state c else confirmed c) (take_response c s)))"
| "waiter_step (Wait_evicted reason []) s = Some ([], all_evicted reason s)"
| "waiter_step (Wait_evicted reason (c # cs)) s =
     (if response_sem (clients s c) = 0 then None
      else Some ([Wait_evicted reason cs], evicted_one c (take_response c s)))"
| "waiter_step Wait_compaction s =
     (if compaction_finished_sem s = 0 then None else Some ([], compaction_over s))"
| "waiter_step (Wait_memory_write p) s =
     (if memory_request_sem (procs s p) = 0 then None else Some ([], memory_write_confirmed p s))"

definition waiter_turn :: "waiter \<Rightarrow> ks_state \<Rightarrow> ks_state option" where
  "waiter_turn w s =
     (if w \<notin> set (waiters s) then None
      else case waiter_step w (s\<lparr>waiters := remove1 w (waiters s)\<rparr>) of
             None \<Rightarrow> None
           | Some (ws, s') \<Rightarrow> Some (s'\<lparr>waiters := waiters s' @ ws\<rparr>))"

end
