(* ===== verification/KS_Pool.thy ===== *)
theory KS_Pool
  imports KS_Handlers
begin

text \<open>
  The lists of Kernel Scheduler agree with the states of the processes: who is \<open>READY\<close> is in
  the ready queue of his priority, who has a CPU is in execution, who is \<open>BLOCK\<close> is in the
  list of blocked processes, each exactly once, and no CPU has two processes. An operation takes a
  process out of the lists, changes it and puts it back; \<open>pool_ok A\<close> states the agreement for
  the processes \<open>A\<close> that are in place, so that an operation is a few steps that remove from and
  insert into \<open>A\<close>.
\<close>

section \<open>The invariant\<close>

definition queues_configured :: "ks_state \<Rightarrow> bool" where
  "queues_configured s \<longleftrightarrow>
     0 < queue_algorithms_count s \<and> length (ready_queue s) = queue_algorithms_count s"

definition ready_ok :: "process set \<Rightarrow> ks_state \<Rightarrow> bool" where
  "ready_ok A s \<longleftrightarrow>
     (\<forall>i < length (ready_queue s). distinct (ready_queue s ! i) \<and>
        set (ready_queue s ! i) = {p \<in> A. proc_state (procs s p) = READY \<and> queue_index s p = i})"

definition runs_on :: "process set \<Rightarrow> ks_state \<Rightarrow> process \<Rightarrow> client \<Rightarrow> bool" where
  "runs_on A s p c \<longleftrightarrow> p \<in> A \<and> proc_cpu (procs s p) = Some c"

definition lists_ok :: "process set \<Rightarrow> ks_state \<Rightarrow> bool" where
  "lists_ok A s \<longleftrightarrow>
     distinct (exec_processes s) \<and> set (exec_processes s) = {p. \<exists>c. runs_on A s p c} \<and>
     distinct (block_processes s) \<and> set (block_processes s) = {p \<in> A. proc_state (procs s p) = BLOCK}"

definition cpus_ok :: "process set \<Rightarrow> ks_state \<Rightarrow> bool" where
  "cpus_ok A s \<longleftrightarrow>
     (\<forall>p c. runs_on A s p c \<longrightarrow>
        proc_state (procs s p) = EXEC \<and> c \<in> set (list_cpu s) \<and> \<not> is_available (clients s c)) \<and>
     (\<forall>p q c. runs_on A s p c \<longrightarrow> runs_on A s q c \<longrightarrow> p = q)"

definition pool_ok :: "process set \<Rightarrow> ks_state \<Rightarrow> bool" where
  "pool_ok A s \<longleftrightarrow> queues_configured s \<and> ready_ok A s \<and> lists_ok A s \<and> cpus_ok A s"

definition sched_inv :: "ks_state \<Rightarrow> bool" where
  "sched_inv s \<longleftrightarrow> pool_ok (set (list_processes s)) s"

lemmas pool_defs = pool_ok_def queues_configured_def ready_ok_def lists_ok_def cpus_ok_def runs_on_def

section \<open>Frames\<close>

lemmas store_defs = upd_proc_def upd_client_def upd_mutex_def ks_send_def wake_scheduler_def add_waiter_def

lemma queue_index_cong:
  assumes "scheduler_algorithm s' = scheduler_algorithm s"
    and "queue_algorithms_count s' = queue_algorithms_count s"
    and "effective_priority (procs s' p) = effective_priority (procs s p)"
  shows "queue_index s' p = queue_index s p"
  using assms by (simp add: queue_index_def)

text \<open>What the invariant looks at.\<close>

lemma pool_ok_frame:
  assumes "scheduler_algorithm s' = scheduler_algorithm s"
    and "queue_algorithms_count s' = queue_algorithms_count s"
    and "procs s' = procs s" and "ready_queue s' = ready_queue s"
    and "exec_processes s' = exec_processes s" and "block_processes s' = block_processes s"
    and "list_cpu s' = list_cpu s" and "\<And>c. is_available (clients s' c) = is_available (clients s c)"
  shows "pool_ok A s' = pool_ok A s"
proof -
  have "queue_index s' = queue_index s" using assms by (intro ext queue_index_cong) simp_all
  then show ?thesis using assms by (simp add: pool_defs)
qed

lemma pool_ok_upd_client:
  assumes "is_available (f (clients s c)) = is_available (clients s c)"
  shows "pool_ok A (upd_client c f s) = pool_ok A s"
  using assms by (intro pool_ok_frame) (auto simp: upd_client_def)

lemma pool_ok_send [simp]: "pool_ok A (ks_send t pkg s) = pool_ok A s"
  by (intro pool_ok_frame) (simp_all add: ks_send_def)

lemma pool_ok_wake [simp]: "pool_ok A (wake_scheduler s) = pool_ok A s"
  by (intro pool_ok_frame) (simp_all add: wake_scheduler_def)

lemma pool_ok_add_waiter [simp]: "pool_ok A (add_waiter w s) = pool_ok A s"
  by (intro pool_ok_frame) (simp_all add: add_waiter_def)

lemma pool_ok_upd_mutex [simp]: "pool_ok A (upd_mutex m f s) = pool_ok A s"
  by (intro pool_ok_frame) (simp_all add: upd_mutex_def)

lemma pool_ok_send_pid [simp]: "pool_ok A (send_pid_to_execute pid c s) = pool_ok A s"
  by (auto simp: send_pid_to_execute_def split: option.split)

lemma pool_ok_send_end [simp]: "pool_ok A (send_process_end pid s) = pool_ok A s"
  by (simp add: send_process_end_def)

lemma pool_ok_evict_process [simp]: "pool_ok A (evict_process cpu reason h s) = pool_ok A s"
  by (auto simp: evict_process_def send_process_evict_def pool_ok_upd_client split: option.split)

section \<open>Taking out and putting back\<close>

text \<open>A process that is out of place may be changed at will.\<close>

lemma pool_ok_upd_proc: "p \<notin> A \<Longrightarrow> pool_ok A (upd_proc p f s) = pool_ok A s"
proof -
  assume p: "p \<notin> A"
  have "q \<in> A \<Longrightarrow> queue_index (upd_proc p f s) q = queue_index s q" for q
    using p by (intro queue_index_cong) (auto simp: upd_proc_def)
  moreover have "q \<in> A \<Longrightarrow> procs (upd_proc p f s) q = procs s q" for q
    using p by (auto simp: upd_proc_def)
  ultimately show ?thesis
    by (simp add: pool_defs cong: conj_cong ball_cong Collect_cong) (auto simp: upd_proc_def)
qed

lemma pool_okD:
  assumes "pool_ok A s"
  shows "queues_configured s" "ready_ok A s" "lists_ok A s" "cpus_ok A s"
  using assms by (simp_all add: pool_ok_def)

lemma queue_index_in_range: "queues_configured s \<Longrightarrow> queue_index s p < length (ready_queue s)"
  by (auto simp: queues_configured_def queue_index_def)

lemma cpu_means_exec: "pool_ok A s \<Longrightarrow> p \<in> A \<Longrightarrow> proc_cpu (procs s p) = Some c \<Longrightarrow> proc_state (procs s p) = EXEC"
  by (auto simp: pool_ok_def cpus_ok_def runs_on_def)

text \<open>A change of one ready queue.\<close>

lemma pool_ok_on_queue:
  assumes "pool_ok A s" and "i < length (ready_queue s)" and "distinct (f (ready_queue s ! i))"
    and "set (f (ready_queue s ! i)) = {p \<in> B. proc_state (procs s p) = READY \<and> queue_index s p = i}"
    and "\<And>p. proc_state (procs s p) \<noteq> READY \<or> queue_index s p \<noteq> i \<Longrightarrow> p \<in> B \<longleftrightarrow> p \<in> A"
    and "\<And>p. p \<in> A \<or> p \<in> B \<Longrightarrow> proc_state (procs s p) = READY \<Longrightarrow> proc_cpu (procs s p) = None"
  shows "pool_ok B (on_queue i f s)"
proof -
  let ?s = "on_queue i f s"
  have same: "procs ?s = procs s" "queue_index ?s = queue_index s" "exec_processes ?s = exec_processes s"
    "block_processes ?s = block_processes s" "list_cpu ?s = list_cpu s" "clients ?s = clients s"
    "queue_algorithms_count ?s = queue_algorithms_count s"
    by (auto simp: on_queue_def intro!: ext queue_index_cong)
  have set: "ready_queue ?s = (ready_queue s)[i := f (ready_queue s ! i)]" by (simp add: on_queue_def)
  have "queues_configured ?s" using assms(1) by (simp add: pool_defs same set)
  have "ready_ok B ?s"
    unfolding ready_ok_def same
  proof (intro allI impI)
    fix j assume j: "j < length (ready_queue ?s)"
    show "distinct (ready_queue ?s ! j) \<and>
        set (ready_queue ?s ! j) = {p \<in> B. proc_state (procs s p) = READY \<and> queue_index s p = j}"
    proof (cases "j = i")
      case True
      then show ?thesis using assms(2-4) by (simp add: set)
    next
      case False
      then have "{p \<in> B. proc_state (procs s p) = READY \<and> queue_index s p = j} =
          {p \<in> A. proc_state (procs s p) = READY \<and> queue_index s p = j}"
        using assms(5) by blast
      then show ?thesis
        using False j pool_okD(2) [OF assms(1)] by (simp add: set ready_ok_def)
    qed
  qed
  have others: "p \<in> B \<longleftrightarrow> p \<in> A" if "proc_state (procs s p) \<noteq> READY" for p
    using assms(5) that by blast
  have "runs_on B ?s = runs_on A s"
    using assms(6) others by (fastforce simp: fun_eq_iff runs_on_def same)
  moreover have "{p \<in> B. proc_state (procs s p) = BLOCK} = {p \<in> A. proc_state (procs s p) = BLOCK}"
    using others by auto
  ultimately have "lists_ok B ?s" "cpus_ok B ?s"
    using pool_okD(3,4) [OF assms(1)] by (simp_all add: same lists_ok_def cpus_ok_def)
  moreover note \<open>queues_configured ?s\<close> \<open>ready_ok B ?s\<close>
  ultimately show ?thesis by (simp add: pool_ok_def)
qed

lemma ready_no_cpu: "pool_ok A s \<Longrightarrow> p \<in> A \<Longrightarrow> proc_state (procs s p) = READY \<Longrightarrow> proc_cpu (procs s p) = None"
  using cpu_means_exec [of A s p] by (cases "proc_cpu (procs s p)") auto

lemma pool_ok_ready_remove:
  assumes "pool_ok A s" and "proc_state (procs s p) = READY"
  shows "pool_ok (A - {p}) (remove_process_from_ready_queue p s)"
proof -
  let ?i = "queue_index s p"
  have i: "?i < length (ready_queue s)" using pool_okD(1) [OF assms(1)] by (rule queue_index_in_range)
  then have "distinct (ready_queue s ! ?i)"
    and "set (ready_queue s ! ?i) = {q \<in> A. proc_state (procs s q) = READY \<and> queue_index s q = ?i}"
    using pool_okD(2) [OF assms(1)] by (simp_all add: ready_ok_def)
  with i show ?thesis
    unfolding remove_process_from_ready_queue_def using ready_no_cpu [OF assms(1)] assms(2)
    by (intro pool_ok_on_queue [OF assms(1)]) auto
qed

lemma pool_ok_queue_insert:
  assumes "pool_ok A s" and "p \<notin> A" and "proc_state (procs s p) = READY" and "proc_cpu (procs s p) = None"
    and f: "\<And>q. p \<notin> set q \<Longrightarrow> distinct q \<Longrightarrow> distinct (f q)" "\<And>q. set (f q) = insert p (set q)"
    and i: "i = queue_index s p"
  shows "pool_ok (insert p A) (on_queue i f s)"
proof -
  have "i < length (ready_queue s)" unfolding i using pool_okD(1) [OF assms(1)] by (rule queue_index_in_range)
  moreover from this have "distinct (ready_queue s ! i)"
    and "set (ready_queue s ! i) = {q \<in> A. proc_state (procs s q) = READY \<and> queue_index s q = i}"
    using pool_okD(2) [OF assms(1)] by (simp_all add: ready_ok_def)
  ultimately show ?thesis
    using ready_no_cpu [OF assms(1)] assms(2-4) i
    by (intro pool_ok_on_queue [OF assms(1)]) (auto simp: f)
qed

lemma pool_ok_ready_add:
  assumes "pool_ok A s" "p \<notin> A" "proc_state (procs s p) = READY" "proc_cpu (procs s p) = None"
  shows "pool_ok (insert p A) (add_process_to_ready_queue p s)"
    and "pool_ok (insert p A) (add_process_at_start_of_ready_queue p s)"
  using assms by (auto simp: add_process_to_ready_queue_def add_process_at_start_of_ready_queue_def
      queue_index_def intro!: pool_ok_queue_insert)

text \<open>A change of the other lists.\<close>

lemma pool_ok_relist:
  assumes "pool_ok A s" and "scheduler_algorithm s' = scheduler_algorithm s"
    and "queue_algorithms_count s' = queue_algorithms_count s"
    and "procs s' = procs s" and "ready_queue s' = ready_queue s"
    and "\<And>p. proc_state (procs s p) = READY \<Longrightarrow> p \<in> B \<longleftrightarrow> p \<in> A"
    and "lists_ok B s'" and "cpus_ok B s'"
  shows "pool_ok B s'"
proof -
  have "queue_index s' = queue_index s" using assms by (intro ext queue_index_cong) simp_all
  moreover have "{p \<in> B. proc_state (procs s p) = READY \<and> queue_index s p = i} =
      {p \<in> A. proc_state (procs s p) = READY \<and> queue_index s p = i}" for i
    using assms(6) by blast
  ultimately have "ready_ok B s'" "queues_configured s'"
    using pool_okD(1,2) [OF assms(1)] assms(2-5) by (simp_all add: ready_ok_def queues_configured_def)
  then show ?thesis using assms(7,8) by (simp add: pool_ok_def)
qed

lemma lists_okD:
  assumes "lists_ok A s"
  shows "distinct (exec_processes s)" "distinct (block_processes s)"
    and "p \<in> set (exec_processes s) \<longleftrightarrow> (\<exists>c. runs_on A s p c)"
    and "p \<in> set (block_processes s) \<longleftrightarrow> p \<in> A \<and> proc_state (procs s p) = BLOCK"
  using assms by (simp_all add: lists_ok_def)

lemma cpus_ok_subset: "cpus_ok A s \<Longrightarrow> B \<subseteq> A \<Longrightarrow> cpus_ok B s"
  unfolding cpus_ok_def runs_on_def by blast

lemma exec_list_frame [simp]:
  "scheduler_algorithm (exec_remove p s) = scheduler_algorithm s" "procs (exec_remove p s) = procs s"
  "queue_algorithms_count (exec_remove p s) = queue_algorithms_count s"
  "ready_queue (exec_remove p s) = ready_queue s" "list_cpu (exec_remove p s) = list_cpu s"
  "block_processes (exec_remove p s) = block_processes s" "clients (exec_remove p s) = clients s"
  "list_processes (exec_remove p s) = list_processes s"
  "exec_processes (exec_remove p s) = remove1 p (exec_processes s)"
  by (simp_all add: exec_remove_def)

lemma pool_ok_exec_remove:
  assumes "pool_ok A s" and "proc_state (procs s p) \<noteq> READY" and "proc_state (procs s p) \<noteq> BLOCK"
  shows "pool_ok (A - {p}) (exec_remove p s)"
proof (rule pool_ok_relist [OF assms(1)])
  have l: "lists_ok A s" and c: "cpus_ok A s" using pool_okD(3,4) [OF assms(1)] .
  have "runs_on (A - {p}) (exec_remove p s) q d \<longleftrightarrow> runs_on A s q d \<and> q \<noteq> p" for q d
    by (auto simp: runs_on_def)
  then show "lists_ok (A - {p}) (exec_remove p s)" and "cpus_ok (A - {p}) (exec_remove p s)"
    using assms(2,3) l c by (auto simp: lists_ok_def cpus_ok_def)
qed (use assms(2) in auto)

lemma block_list_frame [simp]:
  "scheduler_algorithm (block_remove p s) = scheduler_algorithm s" "procs (block_remove p s) = procs s"
  "queue_algorithms_count (block_remove p s) = queue_algorithms_count s"
  "ready_queue (block_remove p s) = ready_queue s" "list_cpu (block_remove p s) = list_cpu s"
  "exec_processes (block_remove p s) = exec_processes s" "clients (block_remove p s) = clients s"
  "list_processes (block_remove p s) = list_processes s"
  "block_processes (block_remove p s) = remove1 p (block_processes s)"
  by (simp_all add: block_remove_def)

lemma pool_ok_block_remove:
  assumes "pool_ok A s" and "proc_state (procs s p) \<noteq> READY" and "p \<in> A \<Longrightarrow> proc_cpu (procs s p) = None"
  shows "pool_ok (A - {p}) (block_remove p s)"
proof (rule pool_ok_relist [OF assms(1)])
  have l: "lists_ok A s" and c: "cpus_ok A s" using pool_okD(3,4) [OF assms(1)] .
  have "runs_on (A - {p}) (block_remove p s) = runs_on A s"
    using assms(3) by (fastforce simp: runs_on_def fun_eq_iff)
  then show "lists_ok (A - {p}) (block_remove p s)" and "cpus_ok (A - {p}) (block_remove p s)"
    using l c by (auto simp: lists_ok_def cpus_ok_def)
qed (use assms(2) in auto)

lemma pool_ok_exec_add:
  assumes "pool_ok A s" and "p \<notin> A" and "proc_state (procs s p) = EXEC" and "proc_cpu (procs s p) = Some c"
    and "c \<in> set (list_cpu s)" and "\<not> is_available (clients s c)" and "\<And>q. \<not> runs_on A s q c"
  shows "pool_ok (insert p A) (exec_add p s)"
proof (rule pool_ok_relist [OF assms(1)])
  have l: "lists_ok A s" and c: "cpus_ok A s" using pool_okD(3,4) [OF assms(1)] .
  have r: "runs_on (insert p A) (exec_add p s) q d \<longleftrightarrow> runs_on A s q d \<or> q = p \<and> d = c" for q d
    using assms(4) by (auto simp: runs_on_def exec_add_def)
  have "\<not> runs_on A s p d" for d using assms(2) by (simp add: runs_on_def)
  then show "lists_ok (insert p A) (exec_add p s)" and "cpus_ok (insert p A) (exec_add p s)"
    using assms(3,5-7) l c unfolding lists_ok_def cpus_ok_def r
    by (auto simp: exec_add_def)
qed (use assms(2,3) in \<open>auto simp: exec_add_def\<close>)

lemma pool_ok_block_add:
  assumes "pool_ok A s" and "p \<notin> A" and "proc_state (procs s p) = BLOCK" and "proc_cpu (procs s p) = None"
  shows "pool_ok (insert p A) (block_add p s)"
proof (rule pool_ok_relist [OF assms(1)])
  have l: "lists_ok A s" and c: "cpus_ok A s" using pool_okD(3,4) [OF assms(1)] .
  have "runs_on (insert p A) (block_add p s) = runs_on A s"
    using assms(4) by (auto simp: runs_on_def block_add_def fun_eq_iff)
  then show "lists_ok (insert p A) (block_add p s)" and "cpus_ok (insert p A) (block_add p s)"
    using assms(2,3) l c by (auto simp: lists_ok_def cpus_ok_def block_add_def)
qed (use assms(2,3) in \<open>auto simp: block_add_def\<close>)

text \<open>A process that belongs to none of the lists: new, ended, suspended, or waiting for a memory
  request after its eviction.\<close>

lemma pool_ok_unlisted:
  assumes "pool_ok A s" and "proc_state (procs s p) \<noteq> READY" and "proc_state (procs s p) \<noteq> BLOCK"
    and "proc_cpu (procs s p) = None"
  shows "pool_ok (A - {p}) s" and "pool_ok (insert p A) s"
proof -
  have l: "lists_ok A s" and c: "cpus_ok A s" using pool_okD(3,4) [OF assms(1)] .
  have r: "runs_on (A - {p}) s = runs_on A s" "runs_on (insert p A) s = runs_on A s"
    using assms(4) by (auto simp: runs_on_def fun_eq_iff)
  show "pool_ok (A - {p}) s"
    using assms l c r by (intro pool_ok_relist [OF assms(1)]) (auto simp: lists_ok_def cpus_ok_def)
  show "pool_ok (insert p A) s"
    using assms l c r by (intro pool_ok_relist [OF assms(1)]) (auto simp: lists_ok_def cpus_ok_def)
qed

text \<open>The CPUs.\<close>

lemma pool_ok_clients:
  assumes "pool_ok A s" and "\<And>p c. runs_on A s p c \<Longrightarrow> \<not> is_available (f (clients s d)) \<or> c \<noteq> d"
  shows "pool_ok A (upd_client d f s)"
proof (rule pool_ok_relist [OF assms(1)])
  let ?s = "upd_client d f s"
  have l: "lists_ok A s" and c: "cpus_ok A s" using pool_okD(3,4) [OF assms(1)] .
  have r: "runs_on A ?s = runs_on A s" by (auto simp: runs_on_def fun_eq_iff upd_client_def)
  show "lists_ok A ?s" using l unfolding lists_ok_def r by (simp add: upd_client_def)
  show "cpus_ok A ?s" using c assms(2) unfolding cpus_ok_def r by (auto simp: upd_client_def)
qed (simp_all add: upd_client_def)

lemma pool_ok_unavailable: "pool_ok A s \<Longrightarrow> pool_ok A (set_available False c s)"
  by (rule pool_ok_clients) simp_all

lemma pool_ok_available: "pool_ok A s \<Longrightarrow> (\<And>p. \<not> runs_on A s p c) \<Longrightarrow> pool_ok A (set_available True c s)"
  by (rule pool_ok_clients) auto

lemma pool_ok_free_cpu: "pool_ok A s \<Longrightarrow> (\<And>p. \<not> runs_on A s p c) \<Longrightarrow> pool_ok A (free_cpu c s)"
  unfolding free_cpu_def by (rule pool_ok_clients) auto

lemma free_is_unused:
  assumes "pool_ok A s" and "is_available (clients s c)"
  shows "\<not> runs_on A s p c"
  using pool_okD(4) [OF assms(1)] assms(2) by (auto simp: cpus_ok_def)

lemma runs_alone:
  assumes "pool_ok A s" and "runs_on A s p c"
  shows "\<not> runs_on (A - {p}) s q c"
  using pool_okD(4) [OF assms(1)] assms(2) by (auto simp: cpus_ok_def runs_on_def)

section \<open>What the steps leave alone\<close>

text \<open>The processes, the clients and the lists of references, after each of the small steps.\<close>

lemma procs_frame [simp]:
  "procs (on_queue i f s) = procs s" "procs (add_process_to_ready_queue p s) = procs s"
  "procs (add_process_at_start_of_ready_queue p s) = procs s"
  "procs (remove_process_from_ready_queue p s) = procs s" "procs (exec_add p s) = procs s"
  "procs (block_add p s) = procs s" "procs (free_cpu c s) = procs s" "procs (wake_scheduler s) = procs s"
  "procs (add_waiter w s) = procs s" "procs (upd_mutex m g s) = procs s"
  "procs (send_process_end pid s) = procs s"
  by (simp_all add: on_queue_def add_process_to_ready_queue_def add_process_at_start_of_ready_queue_def
      remove_process_from_ready_queue_def exec_add_def block_add_def free_cpu_def store_defs send_process_end_def)

lemma list_processes_frame [simp]:
  "list_processes (on_queue i f s) = list_processes s"
  "list_processes (add_process_to_ready_queue p s) = list_processes s"
  "list_processes (add_process_at_start_of_ready_queue p s) = list_processes s"
  "list_processes (remove_process_from_ready_queue p s) = list_processes s"
  "list_processes (exec_add p s) = list_processes s" "list_processes (block_add p s) = list_processes s"
  "list_processes (free_cpu c s) = list_processes s" "list_processes (wake_scheduler s) = list_processes s"
  "list_processes (add_waiter w s) = list_processes s" "list_processes (upd_mutex m g s) = list_processes s"
  "list_processes (send_process_end pid s) = list_processes s"
  "list_processes (upd_proc p h s) = list_processes s" "list_processes (upd_client c k s) = list_processes s"
  "list_processes (ks_send t pkg s) = list_processes s"
  "list_processes (send_pid_to_execute pid co s) = list_processes s"
  "list_processes (evict_process co reason b s) = list_processes s"
  by (auto simp: on_queue_def add_process_to_ready_queue_def add_process_at_start_of_ready_queue_def
      remove_process_from_ready_queue_def exec_add_def block_add_def free_cpu_def store_defs
      send_process_end_def send_pid_to_execute_def evict_process_def send_process_evict_def split: option.split)

lemma clients_frame [simp]:
  "clients (on_queue i f s) = clients s" "clients (add_process_to_ready_queue p s) = clients s"
  "clients (add_process_at_start_of_ready_queue p s) = clients s"
  "clients (remove_process_from_ready_queue p s) = clients s"
  "clients (exec_add p s) = clients s" "clients (block_add p s) = clients s"
  "clients (wake_scheduler s) = clients s" "clients (add_waiter w s) = clients s"
  "clients (upd_mutex m g s) = clients s" "clients (send_process_end pid s) = clients s"
  by (auto simp: on_queue_def add_process_to_ready_queue_def add_process_at_start_of_ready_queue_def
      remove_process_from_ready_queue_def exec_add_def block_add_def store_defs send_process_end_def)

lemma list_cpu_frame [simp]:
  "list_cpu (on_queue i f s) = list_cpu s" "list_cpu (add_process_to_ready_queue p s) = list_cpu s"
  "list_cpu (add_process_at_start_of_ready_queue p s) = list_cpu s"
  "list_cpu (remove_process_from_ready_queue p s) = list_cpu s"
  "list_cpu (exec_add p s) = list_cpu s" "list_cpu (block_add p s) = list_cpu s"
  "list_cpu (wake_scheduler s) = list_cpu s" "list_cpu (add_waiter w s) = list_cpu s"
  "list_cpu (upd_mutex m g s) = list_cpu s" "list_cpu (send_process_end pid s) = list_cpu s"
  "list_cpu (free_cpu c s) = list_cpu s"
  by (auto simp: on_queue_def add_process_to_ready_queue_def add_process_at_start_of_ready_queue_def
      remove_process_from_ready_queue_def exec_add_def block_add_def store_defs send_process_end_def free_cpu_def)

text \<open>The steps that change a process commute with those that change the lists of references.\<close>

lemma upd_proc_commute:
  "exec_remove q (upd_proc p f s) = upd_proc p f (exec_remove q s)"
  "block_remove q (upd_proc p f s) = upd_proc p f (block_remove q s)"
  "exec_remove q (upd_client c g s) = upd_client c g (exec_remove q s)"
  "upd_client c g (upd_proc p f s) = upd_proc p f (upd_client c g s)"
  "block_remove q (upd_client c g s) = upd_client c g (block_remove q s)"
  by (simp_all add: exec_remove_def block_remove_def upd_proc_def upd_client_def)

lemma upd_proc_twice [simp]: "upd_proc p f (upd_proc p g s) = upd_proc p (\<lambda>r. f (g r)) s"
  by (simp add: upd_proc_def)

lemmas process_setters = process_set_state_def process_set_cpu_def process_set_priority_def set_block_time_def
  process_set_ready_def set_pending_def

lemma runs_on_cong: "procs s' = procs s \<Longrightarrow> runs_on A s' = runs_on A s"
  by (simp add: runs_on_def fun_eq_iff)

section \<open>The operations\<close>

lemma pool_block_process:
  assumes "pool_ok A s" and "p \<in> A" and "proc_state (procs s p) = EXEC"
  shows "pool_ok A (block_process now p s)"
proof -
  have "pool_ok (A - {p}) (exec_remove p s)" using assms by (intro pool_ok_exec_remove) simp_all
  then have "pool_ok (insert p (A - {p})) (block_process now p s)"
    unfolding block_process_def process_setters upd_proc_commute upd_proc_twice
    by (intro pool_ok_block_add) (simp_all add: pool_ok_upd_proc)
  then show ?thesis using assms(2) by (simp add: insert_absorb)
qed

text \<open>A process that was in execution, or was evicted while it waited for memory, becomes ready.\<close>

lemma pool_make_ready:
  assumes "pool_ok (A - {p}) s" and "p \<in> A"
    and "proc_state (f (procs s p)) = READY" and "proc_cpu (f (procs s p)) = None"
  shows "pool_ok A (add_process_to_ready_queue p (upd_proc p f s))"
    and "pool_ok A (add_process_at_start_of_ready_queue p (upd_proc p f s))"
proof -
  have "pool_ok (A - {p}) (upd_proc p f s)" using assms(1) by (simp add: pool_ok_upd_proc)
  then have "pool_ok (insert p (A - {p})) (add_process_to_ready_queue p (upd_proc p f s))"
    and "pool_ok (insert p (A - {p})) (add_process_at_start_of_ready_queue p (upd_proc p f s))"
    using assms(3,4) by (intro pool_ok_ready_add; simp)+
  then show "pool_ok A (add_process_to_ready_queue p (upd_proc p f s))"
    and "pool_ok A (add_process_at_start_of_ready_queue p (upd_proc p f s))"
    using assms(2) by (simp_all add: insert_absorb)
qed

lemma pool_make_unlisted:
  assumes "pool_ok (A - {p}) s" and "p \<in> A" and "proc_state (f (procs s p)) \<noteq> READY"
    and "proc_state (f (procs s p)) \<noteq> BLOCK" and "proc_cpu (f (procs s p)) = None"
  shows "pool_ok A (upd_proc p f s)"
proof -
  have "pool_ok (insert p (A - {p})) (upd_proc p f s)"
    using assms(1,3-5) by (intro pool_ok_unlisted(2)) (simp_all add: pool_ok_upd_proc)
  then show ?thesis using assms(2) by (simp add: insert_absorb)
qed

lemma pool_dispatch_one:
  assumes "pool_ok A s" and "p \<in> A" and "proc_state (procs s p) = READY"
    and "c \<in> set (list_cpu s)" and "is_available (clients s c)"
  shows "pool_ok A (dispatch_one now p c s)"
proof -
  define s1 where "s1 = set_available False c (remove_process_from_ready_queue p s)"
  obtain F where F: "dispatch_one now p c s =
      send_pid_to_execute (proc_pid (procs s p)) (Some c) (exec_add p (upd_proc p F s1))"
    and "proc_state (F (procs s p)) = EXEC" "proc_cpu (F (procs s p)) = Some c"
    by (cases "scheduler_algorithm s = FIFO") (simp_all add: dispatch_one_def s1_def process_setters)
  moreover have s1: "pool_ok (A - {p}) s1"
    unfolding s1_def using assms(1,3) by (intro pool_ok_unavailable pool_ok_ready_remove)
  moreover have "runs_on (A - {p}) (upd_proc p F s1) = runs_on (A - {p}) s"
    by (auto simp: s1_def runs_on_def fun_eq_iff)
  then have "\<not> runs_on (A - {p}) (upd_proc p F s1) q c" for q
    using free_is_unused [OF assms(1,5), of q] by (simp add: runs_on_def)
  ultimately have "pool_ok (insert p (A - {p})) (dispatch_one now p c s)"
    unfolding F pool_ok_send_pid using assms(4)
    by (intro pool_ok_exec_add [where c = c]) (simp_all add: pool_ok_upd_proc s1_def)
  then show ?thesis using assms(2) by (simp add: insert_absorb)
qed

section \<open>Dispatching\<close>

text \<open>The process that is chosen is the first of the first queue that is not empty.\<close>

definition chosen :: "ks_state \<Rightarrow> process \<Rightarrow> bool" where
  "chosen s p \<longleftrightarrow> (\<exists>i < length (ready_queue s). ready_queue s ! i \<noteq> [] \<and> p = hd (ready_queue s ! i) \<and>
     (\<forall>j < i. ready_queue s ! j = []))"

lemma in_queue:
  assumes "pool_ok A s" and "i < length (ready_queue s)" and "p \<in> set (ready_queue s ! i)"
  shows "p \<in> A" "proc_state (procs s p) = READY" "queue_index s p = i"
  using pool_okD(2) [OF assms(1)] assms(2,3) by (auto simp: ready_ok_def)

lemma queue_of_ready:
  assumes "pool_ok A s" and "p \<in> A" and "proc_state (procs s p) = READY"
  shows "p \<in> set (ready_queue s ! queue_index s p)"
  using pool_okD(2) [OF assms(1)] queue_index_in_range [OF pool_okD(1) [OF assms(1)], of p] assms(2,3)
  by (auto simp: ready_ok_def)

lemma only_first_queue:
  assumes "pool_ok A s" and "scheduler_algorithm s \<noteq> CMN" and "i < length (ready_queue s)"
    and "ready_queue s ! i \<noteq> []"
  shows "i = 0"
  using in_queue(3) [OF assms(1,3), of "hd (ready_queue s ! i)"] assms(2,4) by (simp add: queue_index_def)

lemma next_process_chosen:
  assumes "pool_ok A s"
  shows "get_next_process_to_execute s = Some p \<longleftrightarrow> chosen s p"
proof -
  have conf: "0 < length (ready_queue s)" "queue_algorithms_count s = length (ready_queue s)"
    using pool_okD(1) [OF assms] by (auto simp: queues_configured_def)
  have ready: "proc_state (procs s (hd (ready_queue s ! i))) = READY"
    if "i < length (ready_queue s)" "ready_queue s ! i \<noteq> []" for i
    using in_queue(2) [OF assms that(1)] that(2) by simp
  show ?thesis
  proof (cases "scheduler_algorithm s = CMN")
    case True
    have best: "get_highest_priority_process_from_ready_queue s = Some q \<longleftrightarrow> chosen s q" for q
      using conf by (auto simp: get_highest_priority_process_from_ready_queue_def chosen_def find_Some_iff)
    have "proc_state (procs s q) = READY" "ready_queue_size s \<noteq> 0" if "chosen s q" for q
      using that ready True conf by (auto simp: chosen_def ready_queue_size_def sum_list_eq_0_iff)
    then show ?thesis
      using True best by (cases "get_highest_priority_process_from_ready_queue s")
        (auto simp: get_next_process_to_execute_def simp flip: best)
  next
    case False
    have "chosen s p \<longleftrightarrow> ready_queue s ! 0 \<noteq> [] \<and> p = ready_queue s ! 0 ! 0"
    proof
      assume "chosen s p"
      then obtain i where i: "i < length (ready_queue s)" "ready_queue s ! i \<noteq> []" "p = hd (ready_queue s ! i)"
        by (auto simp: chosen_def)
      with only_first_queue [OF assms False i(1,2)]
      show "ready_queue s ! 0 \<noteq> [] \<and> p = ready_queue s ! 0 ! 0" by (simp add: hd_conv_nth)
    qed (use conf in \<open>auto simp: chosen_def hd_conv_nth\<close>)
    then show ?thesis
      using False ready [of 0] conf
      by (auto simp: get_next_process_to_execute_def ready_queue_size_def hd_conv_nth)
  qed
qed

lemma chosen_ready:
  assumes "pool_ok A s" and "chosen s p"
  shows "p \<in> A" "proc_state (procs s p) = READY"
    and "q \<in> A \<Longrightarrow> proc_state (procs s q) = READY \<Longrightarrow> queue_index s p \<le> queue_index s q"
proof -
  obtain i where i: "i < length (ready_queue s)" "ready_queue s ! i \<noteq> []" "p = hd (ready_queue s ! i)"
    "\<forall>j < i. ready_queue s ! j = []"
    using assms(2) by (auto simp: chosen_def)
  then have p: "p \<in> set (ready_queue s ! i)" by simp
  show "p \<in> A" "proc_state (procs s p) = READY" using in_queue [OF assms(1) i(1) p] by simp_all
  show "queue_index s p \<le> queue_index s q" if "q \<in> A" "proc_state (procs s q) = READY"
    using queue_of_ready [OF assms(1) that] i(4) in_queue(3) [OF assms(1) i(1) p]
    by (metis empty_iff empty_set linorder_not_less)
qed

lemma some_chosen:
  assumes "pool_ok A s" and "q \<in> A" and "proc_state (procs s q) = READY"
  shows "\<exists>p. chosen s p"
proof -
  let ?P = "\<lambda>i. i < length (ready_queue s) \<and> ready_queue s ! i \<noteq> []"
  have "queue_index s q < length (ready_queue s)"
    using pool_okD(1) [OF assms(1)] by (rule queue_index_in_range)
  then have "?P (queue_index s q)" using queue_of_ready [OF assms] by auto
  then have "?P (LEAST i. ?P i)" by (rule LeastI)
  moreover have "ready_queue s ! j = []" if "j < (LEAST i. ?P i)" for j
    using not_less_Least [OF that] calculation that by auto
  ultimately show ?thesis unfolding chosen_def by blast
qed

lemma available_cpu:
  "get_available_cpu s = Some c \<Longrightarrow> c \<in> set (list_cpu s) \<and> cpu_free s c"
  unfolding get_available_cpu_def by (rule find_Some_iff_set)

lemma dispatch_one_frame [simp]: "list_processes (dispatch_one now p c s) = list_processes s"
  by (simp add: dispatch_one_def Let_def process_setters)

lemma pool_preempt [simp]: "pool_ok A (preempt p s) = pool_ok A s"
  by (simp add: preempt_def split: option.split)

lemma pool_dispatch_loop: "pool_ok A s \<Longrightarrow> pool_ok A (dispatch_loop now s)"
proof (induction now s rule: dispatch_loop.induct)
  case (1 now s)
  show ?case
  proof (cases "get_next_process_to_execute s")
    case None
    then show ?thesis using "1.prems" by (simp add: dispatch_loop.simps [of now s])
  next
    case (Some p)
    have "chosen s p" using Some "1.prems" by (simp add: next_process_chosen)
    then have "pool_ok A (dispatch_one now p c s)" if "get_available_cpu s = Some c" for c
      using chosen_ready(1,2) [OF "1.prems"] available_cpu [OF that] "1.prems"
      by (intro pool_dispatch_one) (simp_all add: cpu_free_def)
    then show ?thesis
      using Some "1.IH" "1.prems"
      by (cases "get_available_cpu s") (simp_all add: dispatch_loop.simps [of now s])
  qed
qed

end
