(* ===== verification/KS_Invariant.thy ===== *)
theory KS_Invariant
  imports KS_Pool
begin

text \<open>
  Every operation of Kernel Scheduler keeps the lists in agreement with the processes
  (\<open>sched_inv\<close>) and the mutexes in agreement with their owners and waiters
  (\<open>mutexes_ok\<close>). The hypotheses are the protocol: a CPU reports on the process it was given, a
  device on a process that waits for it. The branches that break the invariant are stated in
  \<open>KS_Faults\<close>.
\<close>

section \<open>The lists\<close>

lemma from_cpu_iff: "sched_inv s \<Longrightarrow> get_process_from_cpu s c = Some p \<longleftrightarrow> runs_on (set (list_processes s)) s p c"
proof -
  assume "sched_inv s"
  then have "cpus_ok (set (list_processes s)) s" by (simp add: sched_inv_def pool_ok_def)
  then have unique: "\<And>p q. runs_on (set (list_processes s)) s p c \<Longrightarrow> runs_on (set (list_processes s)) s q c \<Longrightarrow> p = q"
    by (auto simp: cpus_ok_def)
  show ?thesis
  proof
    assume "get_process_from_cpu s c = Some p"
    then show "runs_on (set (list_processes s)) s p c"
      using find_Some_iff_set unfolding get_process_from_cpu_def runs_on_def by fastforce
  next
    assume p: "runs_on (set (list_processes s)) s p c"
    then obtain q where q: "get_process_from_cpu s c = Some q"
      unfolding get_process_from_cpu_def runs_on_def
      by (cases "List.find (\<lambda>p. proc_cpu (procs s p) = Some c) (list_processes s)") (auto simp: find_None_iff_set)
    then have "runs_on (set (list_processes s)) s q c"
      using find_Some_iff_set unfolding get_process_from_cpu_def runs_on_def by fastforce
    with p q unique show "get_process_from_cpu s c = Some p" by blast
  qed
qed

lemma from_cpu_None: "sched_inv s \<Longrightarrow> get_process_from_cpu s c = None \<Longrightarrow> \<not> runs_on (set (list_processes s)) s p c"
  by (simp flip: from_cpu_iff)

lemma from_pid: "get_process_from_pid s pid = Some p \<Longrightarrow> p \<in> set (list_processes s)"
  unfolding get_process_from_pid_def by (drule find_Some_iff_set) simp

lemma free_cpu_commute:
  "exec_remove q (free_cpu c s) = free_cpu c (exec_remove q s)"
  "free_cpu c (upd_proc p f s) = upd_proc p f (free_cpu c s)"
  by (simp_all add: free_cpu_def upd_proc_commute)

lemma cpus_okD:
  "cpus_ok A s \<Longrightarrow> runs_on A s p c \<Longrightarrow>
     proc_state (procs s p) = EXEC \<and> c \<in> set (list_cpu s) \<and> \<not> is_available (clients s c)"
  unfolding cpus_ok_def by (drule conjunct1, drule spec, drule spec, erule mp)

lemma runs_onD:
  assumes "pool_ok A s" and "runs_on A s p c"
  shows "p \<in> A" "proc_cpu (procs s p) = Some c" "proc_state (procs s p) = EXEC" "c \<in> set (list_cpu s)"
proof -
  show "p \<in> A" "proc_cpu (procs s p) = Some c" using assms(2) by (simp_all add: runs_on_def)
  show "proc_state (procs s p) = EXEC" "c \<in> set (list_cpu s)"
    using cpus_okD [OF pool_okD(4) [OF assms(1)] assms(2)] by simp_all
qed

lemma pool_take_off:
  assumes "pool_ok A s" and "runs_on A s p c"
  shows "pool_ok (A - {p}) (exec_remove p s)" "pool_ok (A - {p}) (free_cpu c (exec_remove p s))"
    and "pool_ok (A - {p}) (set_available True c (exec_remove p s))"
proof -
  have "runs_on (A - {p}) (exec_remove p s) = runs_on (A - {p}) s" by (rule runs_on_cong) simp
  then have "\<not> runs_on (A - {p}) (exec_remove p s) q c" for q using runs_alone [OF assms] by simp
  moreover show "pool_ok (A - {p}) (exec_remove p s)"
    using runs_onD [OF assms] by (intro pool_ok_exec_remove [OF assms(1)]) simp_all
  ultimately show "pool_ok (A - {p}) (free_cpu c (exec_remove p s))"
    and "pool_ok (A - {p}) (set_available True c (exec_remove p s))"
    by (auto intro: pool_ok_free_cpu pool_ok_available)
qed

lemma sched_inv_same:
  "sched_inv s \<Longrightarrow> list_processes s' = list_processes s \<Longrightarrow> pool_ok (set (list_processes s)) s' \<Longrightarrow> sched_inv s'"
  by (simp add: sched_inv_def)

lemmas normal = process_setters upd_proc_commute free_cpu_commute upd_proc_twice

lemma confirmed_and_handle_state_keeps:
  assumes "sched_inv s" shows "sched_inv (confirmed_and_handle_state c s)"
proof (cases "get_process_from_cpu s c")
  case None
  then show ?thesis using assms from_cpu_None [OF assms None]
    by (simp add: confirmed_and_handle_state_def sched_inv_def pool_ok_free_cpu)
next
  case (Some p)
  let ?A = "set (list_processes s)"
  have p: "runs_on ?A s p c" using Some by (simp add: from_cpu_iff assms)
  have inv: "pool_ok ?A s" using assms by (simp add: sched_inv_def)
  note off = pool_take_off(2) [OF inv p] and at = runs_onD [OF inv p]
  show ?thesis
    using Some at by (auto simp: confirmed_and_handle_state_def sched_inv_def Let_def normal
        intro!: pool_make_ready [OF off] pool_make_unlisted [OF off])
qed

lemma confirmed_keeps:
  assumes "sched_inv s" shows "sched_inv (confirmed c s)"
proof (cases "get_process_from_cpu s c")
  case None
  then show ?thesis using assms by (simp add: confirmed_def sched_inv_def)
next
  case (Some p)
  let ?A = "set (list_processes s)"
  have p: "runs_on ?A s p c" using Some by (simp add: from_cpu_iff assms)
  have inv: "pool_ok ?A s" using assms by (simp add: sched_inv_def)
  note off = pool_take_off(2) [OF inv p] and at = runs_onD [OF inv p]
  show ?thesis
    using Some at by (auto simp: confirmed_def sched_inv_def Let_def normal intro!: pool_make_unlisted [OF off])
qed

lemma evicted_one_keeps:
  assumes "sched_inv s" shows "sched_inv (evicted_one c s)"
proof (cases "get_process_from_cpu s c")
  case None
  then show ?thesis using assms by (simp add: evicted_one_def)
next
  case (Some p)
  let ?A = "set (list_processes s)"
  have p: "runs_on ?A s p c" using Some by (simp add: from_cpu_iff assms)
  have inv: "pool_ok ?A s" using assms by (simp add: sched_inv_def)
  note off = pool_take_off(1) [OF inv p] and at = runs_onD [OF inv p]
  have "q \<in> ?A \<Longrightarrow> q \<noteq> p \<Longrightarrow> proc_cpu (procs s q) \<noteq> Some c" for q
    using runs_alone [OF inv p, of q] by (simp add: runs_on_def)
  then show ?thesis
    using Some at by (auto simp: evicted_one_def sched_inv_def Let_def normal runs_on_def
        intro!: pool_make_ready [OF off] pool_make_unlisted [OF pool_take_off(2) [OF inv p]] pool_ok_free_cpu split: if_splits)
qed

lemma process_end_message_keeps:
  assumes "sched_inv s" and "get_process_from_pid s pid = Some p"
    and "runs_on (set (list_processes s)) s p c"
  shows "sched_inv (process_end_message pid c s)"
proof -
  have inv: "pool_ok (set (list_processes s)) s" using assms(1) by (simp add: sched_inv_def)
  note off = pool_take_off(3) [OF inv assms(3)] and at = runs_onD [OF inv assms(3)]
  show ?thesis
    using assms(2) at by (auto simp: process_end_message_def sched_inv_def Let_def normal
        intro!: pool_make_unlisted [OF off])
qed

text \<open>Blocking a process that runs, and giving its CPU back.\<close>

lemma pool_block_running:
  assumes "pool_ok A s" and "runs_on A s p c"
  shows "pool_ok A (set_available True c (block_process now p s))"
proof -
  note at = runs_onD [OF assms]
  have "\<not> runs_on A (block_process now p s) q c" for q
    using runs_alone [OF assms, of q] by (auto simp: runs_on_def block_process_def normal)
  then show ?thesis using at by (intro pool_ok_available pool_block_process assms(1))
qed

lemma sched_frame [simp]:
  "sched_inv (wake_scheduler s) = sched_inv s" "sched_inv (ks_send t pkg s) = sched_inv s"
  "sched_inv (add_waiter w s) = sched_inv s" "sched_inv (upd_mutex m f s) = sched_inv s"
  "sched_inv (send_pid_to_execute pid co s) = sched_inv s" "sched_inv (send_process_end pid s) = sched_inv s"
  by (simp_all add: sched_inv_def)

lemma sched_inv_fields:
  assumes "scheduler_algorithm s' = scheduler_algorithm s"
    and "queue_algorithms_count s' = queue_algorithms_count s" and "procs s' = procs s"
    and "ready_queue s' = ready_queue s" and "exec_processes s' = exec_processes s"
    and "block_processes s' = block_processes s" and "list_cpu s' = list_cpu s" and "clients s' = clients s"
    and "list_processes s' = list_processes s"
  shows "sched_inv s' = sched_inv s"
  unfolding sched_inv_def assms(9) using assms(1-8) by (intro pool_ok_frame) simp_all

lemma block_process_frame [simp]: "list_processes (block_process now p s) = list_processes s"
  by (simp add: block_process_def process_setters)

lemma sched_block_running:
  "sched_inv s \<Longrightarrow> runs_on (set (list_processes s)) s p c \<Longrightarrow> sched_inv (set_available True c (block_process now p s))"
  by (simp add: sched_inv_def pool_block_running)

lemma sched_unavailable: "sched_inv s \<Longrightarrow> sched_inv (set_available False c s)"
  by (simp add: sched_inv_def pool_ok_unavailable)

lemma sleep_syscall_manager_keeps:
  assumes "sched_inv s" and "runs_on (set (list_processes s)) s p c"
  shows "sched_inv (sleep_syscall_manager now p c t s)"
proof -
  let ?s = "set_available True c (block_process now p s)"
  have "sched_inv (?s\<lparr>pending_request_io_sleep := x\<rparr>)" for x
    using sched_block_running [OF assms, of now] by (subst sched_inv_fields [where s = ?s]) simp_all
  then show ?thesis
    using sched_block_running [OF assms, of now]
    by (auto simp: sleep_syscall_manager_def Let_def sched_unavailable split: option.split)
qed

lemma stdin_syscall_manager_keeps:
  assumes "sched_inv s" and "runs_on (set (list_processes s)) s p c" and "to_read \<noteq> 0"
  shows "sched_inv (stdin_syscall_manager now p c a to_read s)"
proof -
  let ?s = "set_available True c (block_process now p s)"
  have "sched_inv (?s\<lparr>pending_io_stdin_reading := x\<rparr>)"
    and "sched_inv (?s\<lparr>pending_io_stdin_reading := x, pending_request_io_stdin := y\<rparr>)" for x y
    using sched_block_running [OF assms(1,2), of now] by (subst sched_inv_fields [where s = ?s], simp_all)+
  then show ?thesis
    using assms(3)
    by (auto simp: stdin_syscall_manager_def Let_def sched_unavailable split: option.split)
qed

lemma stdout_syscall_manager_keeps:
  assumes "sched_inv s" and "runs_on (set (list_processes s)) s p c"
  shows "sched_inv (stdout_syscall_manager now p c a n s)"
  using sched_block_running [OF assms] by (simp add: stdout_syscall_manager_def send_memory_read_def)

text \<open>A process that leaves the list of blocked processes.\<close>

lemma pool_ok_block_out:
  assumes "pool_ok A s" and "p \<in> A" and "proc_state (procs s p) \<in> {BLOCK, SUSP_BLOCK, EXIT}"
  shows "pool_ok (A - {p}) (block_remove p s)" and "proc_cpu (procs s p) = None"
proof -
  show cpu: "proc_cpu (procs s p) = None"
    using assms cpu_means_exec [OF assms(1,2)] by (cases "proc_cpu (procs s p)") auto
  show "pool_ok (A - {p}) (block_remove p s)"
    using assms cpu by (intro pool_ok_block_remove) auto
qed

lemma unblock_process_keeps:
  assumes "sched_inv s" and "p \<in> set (list_processes s)" and "proc_state (procs s p) \<in> {BLOCK, SUSP_BLOCK, EXIT}"
  shows "sched_inv (unblock_process p s)"
proof -
  have inv: "pool_ok (set (list_processes s)) s" using assms(1) by (simp add: sched_inv_def)
  note out = pool_ok_block_out [OF inv assms(2,3)]
  show ?thesis
    using assms(2,3) out(2) by (auto simp: unblock_process_def sched_inv_def Let_def normal
        intro!: pool_make_ready [OF out(1)] pool_make_unlisted [OF out(1)])
qed

lemma pool_ok_ready_remove_absent:
  assumes "pool_ok A s" and "p \<notin> A"
  shows "pool_ok A (remove_process_from_ready_queue p s)"
proof -
  let ?q = "ready_queue s ! queue_index s p"
  have "queue_index s p < length (ready_queue s)" using pool_okD(1) [OF assms(1)] by (rule queue_index_in_range)
  then have "p \<notin> set ?q" using in_queue(1) [OF assms(1)] assms(2) by blast
  then have "remove_process_from_ready_queue p s = s"
    by (simp add: remove_process_from_ready_queue_def on_queue_def remove1_idem)
  then show ?thesis using assms(1) by simp
qed

lemma pool_ok_keep_proc:
  assumes "proc_state (f (procs s p)) = proc_state (procs s p)" and "proc_cpu (f (procs s p)) = proc_cpu (procs s p)"
    and "effective_priority (f (procs s p)) = effective_priority (procs s p)"
  shows "pool_ok A (upd_proc p f s) = pool_ok A s"
proof -
  let ?s = "upd_proc p f s"
  have v: "proc_state (procs ?s q) = proc_state (procs s q)" "proc_cpu (procs ?s q) = proc_cpu (procs s q)"
    "effective_priority (procs ?s q) = effective_priority (procs s q)" for q
    using assms by auto
  have "queue_index ?s = queue_index s"
    using v(3) by (intro ext queue_index_cong) (simp_all add: upd_proc_def)
  moreover have "runs_on A ?s = runs_on A s" using v(2) by (simp add: runs_on_def fun_eq_iff)
  moreover have "ready_queue ?s = ready_queue s" "exec_processes ?s = exec_processes s"
    "block_processes ?s = block_processes s" "queue_algorithms_count ?s = queue_algorithms_count s"
    by (simp_all add: upd_proc_def)
  ultimately show ?thesis
    by (simp add: pool_ok_def queues_configured_def ready_ok_def lists_ok_def cpus_ok_def v del: upd_simps(5))
qed

lemma handle_segment_result_keeps:
  assumes "sched_inv s"
    and "\<And>p. get_process_from_pid s pid = Some p \<Longrightarrow> proc_state (procs s p) = EXEC"
  shows "sched_inv (handle_segment_result pid result s)"
proof (cases "get_process_from_pid s pid")
  case None
  then show ?thesis using assms(1) by (simp add: handle_segment_result_def)
next
  case (Some p)
  let ?A = "set (list_processes s)"
  have inv: "pool_ok ?A s" using assms(1) by (simp add: sched_inv_def)
  have p: "p \<in> ?A" and st: "proc_state (procs s p) = EXEC" using Some assms(2) by (simp_all add: from_pid)
  have keep: "pool_ok ?A (set_pending False p s)"
    unfolding set_pending_def by (subst pool_ok_keep_proc) (simp_all add: inv)
  show ?thesis
  proof (cases "proc_cpu (procs s p)")
    case None
    have out: "pool_ok (?A - {p}) s" using st None by (intro pool_ok_unlisted [OF inv]) simp_all
    have off: "pool_ok (?A - {p}) (exec_remove p s)" using st by (intro pool_ok_exec_remove [OF inv]) simp_all
    show ?thesis
      using Some None st p by (auto simp: handle_segment_result_def sched_inv_def Let_def normal
          intro!: pool_make_ready [OF out] pool_make_unlisted [OF off])
  next
    case (Some c)
    have r: "runs_on ?A s p c" using Some p by (simp add: runs_on_def)
    note off = pool_take_off [OF inv r]
    have ready_commute: "remove_process_from_ready_queue p (upd_proc p f t) =
        upd_proc p f (remove_process_from_ready_queue p t)"
      if "effective_priority (f (procs t p)) = effective_priority (procs t p)" for f t
      using that by (simp add: remove_process_from_ready_queue_def on_queue_def upd_proc_def queue_index_def)
    have "remove_process_from_ready_queue p (set_available True c t) =
        set_available True c (remove_process_from_ready_queue p t)" for t
      by (simp add: remove_process_from_ready_queue_def on_queue_def upd_client_def queue_index_def)
    then have gone: "pool_ok (?A - {p}) (remove_process_from_ready_queue p (exec_remove p s))"
      "pool_ok (?A - {p}) (set_available True c (remove_process_from_ready_queue p (exec_remove p s)))"
      using pool_ok_ready_remove_absent [OF off(1), of p] pool_ok_ready_remove_absent [OF off(3), of p] by simp_all
    show ?thesis
      using \<open>get_process_from_pid s pid = Some p\<close> Some st p keep
      by (auto simp: handle_segment_result_def sched_inv_def Let_def normal ready_commute
          intro!: pool_make_unlisted [OF gone(1)] pool_make_unlisted [OF gone(2)])
  qed
qed

lemma add_ready_commute:
  "exec_remove q (add_process_to_ready_queue p t) = add_process_to_ready_queue p (exec_remove q t)"
  "effective_priority (f (procs t p)) = effective_priority (procs t p) \<Longrightarrow>
     upd_proc p f (add_process_to_ready_queue p t) = add_process_to_ready_queue p (upd_proc p f t)"
  by (simp_all add: add_process_to_ready_queue_def on_queue_def exec_remove_def upd_proc_def queue_index_def)

lemma handle_cpu_disconnection_keeps:
  assumes "sched_inv s" and "distinct (list_cpu s)"
  shows "sched_inv (handle_cpu_disconnection c s)"
proof -
  let ?A = "set (list_processes s)"
  have inv: "pool_ok ?A s" using assms(1) by (simp add: sched_inv_def)
  have gone: "pool_ok A (t\<lparr>list_cpu := remove1 c (list_cpu t)\<rparr>)"
    if ok: "pool_ok A t" and free: "\<And>q. \<not> runs_on A t q c" for A t
  proof (rule pool_ok_relist [OF ok])
    let ?t = "t\<lparr>list_cpu := remove1 c (list_cpu t)\<rparr>"
    have r: "runs_on A ?t = runs_on A t" by (simp add: runs_on_def fun_eq_iff)
    show "lists_ok A ?t" using pool_okD(3) [OF ok] by (simp add: lists_ok_def r)
    have "q \<noteq> c" if "runs_on A t p q" for p q using free that by blast
    then show "cpus_ok A ?t"
      using pool_okD(4) [OF ok] by (simp add: cpus_ok_def r in_set_remove1)
  qed simp_all
  show ?thesis
  proof (cases "get_process_from_cpu s c")
    case None
    then show ?thesis using inv from_cpu_None [OF assms(1) None] gone
      by (simp add: handle_cpu_disconnection_def sched_inv_def)
  next
    case (Some p)
    have p: "runs_on ?A s p c" using Some by (simp add: from_cpu_iff assms)
    note at = runs_onD [OF inv p] and off = pool_take_off(1) [OF inv p]
    let ?f = "\<lambda>r. r\<lparr>proc_state := READY, proc_cpu := None, start_exec_time := 0\<rparr>"
    define t where "t = add_process_to_ready_queue p (upd_proc p ?f (exec_remove p s))"
    have t: "pool_ok ?A t" unfolding t_def using at by (intro pool_make_ready [OF off]) simp_all
    have "\<not> runs_on ?A t q c" for q
      using runs_alone [OF inv p, of q] by (auto simp: t_def runs_on_def)
    from gone [OF t this] have "sched_inv (t\<lparr>list_cpu := remove1 c (list_cpu t)\<rparr>)"
      by (simp add: sched_inv_def t_def)
    moreover have "handle_cpu_disconnection c s = wake_scheduler (t\<lparr>list_cpu := remove1 c (list_cpu t)\<rparr>)"
      using Some by (simp add: handle_cpu_disconnection_def t_def normal add_ready_commute)
    ultimately show ?thesis by simp
  qed
qed

text \<open>New processes and new clients.\<close>

lemma fresh_not_in: "fresh xs \<notin> set xs"
proof -
  have "x \<le> fold max xs 0" if "x \<in> set xs" for x
    using that Max_ge [of "set (0 # xs)" x] by (simp only: flip: Max.set_eq_fold) simp
  then show ?thesis unfolding fresh_def by (meson Suc_n_not_le_n)
qed

lemma pool_ok_new_proc: "p \<notin> A \<Longrightarrow> pool_ok A (s\<lparr>procs := (procs s)(p := r)\<rparr>) = pool_ok A s"
  using pool_ok_upd_proc [of p A "\<lambda>_. r" s] by (simp add: upd_proc_def)

lemma long_term_scheduler_keeps:
  assumes "sched_inv s" shows "sched_inv (long_term_scheduler path priority s)"
proof -
  let ?A = "set (list_processes s)" and ?p = "fresh (list_processes s)"
  let ?r = "create_process (current_max_pid s) (ucast priority)"
  define t where "t = s\<lparr>procs := (procs s)(?p := ?r)\<rparr>"
  have "pool_ok ?A t" using assms by (simp add: t_def sched_inv_def pool_ok_new_proc fresh_not_in)
  then have "pool_ok (insert ?p ?A) t"
    by (intro pool_ok_unlisted(2)) (simp_all add: t_def create_process_def)
  then show ?thesis
    unfolding sched_inv_def
    by (subst pool_ok_frame [where s = t])
      (simp_all add: long_term_defs Let_def t_def send_process_create_info_def ks_send_def)
qed

lemma ks_cpu_connected_keeps:
  assumes "sched_inv s" shows "sched_inv (ks_cpu_connected cpu_fd i s)"
proof -
  let ?A = "set (list_processes s)" and ?c = "fresh (all_clients s)"
  define t where "t = upd_client ?c (\<lambda>_. create_client_info cpu_fd i) s"
  have inv: "pool_ok ?A s" using assms by (simp add: sched_inv_def)
  have "?c \<notin> set (list_cpu s)" using fresh_not_in [of "all_clients s"] by (simp add: all_clients_def)
  then have "\<not> runs_on ?A s p ?c" for p using runs_onD(4) [OF inv] by blast
  then have t: "pool_ok ?A t" unfolding t_def by (intro pool_ok_clients [OF inv]) blast
  have "pool_ok ?A (t\<lparr>list_cpu := list_cpu t @ [?c]\<rparr>)"
  proof (rule pool_ok_relist [OF t])
    have r: "runs_on ?A (t\<lparr>list_cpu := x\<rparr>) = runs_on ?A t" for x by (simp add: runs_on_def fun_eq_iff)
    show "lists_ok ?A (t\<lparr>list_cpu := list_cpu t @ [?c]\<rparr>)" using pool_okD(3) [OF t] by (simp add: lists_ok_def r)
    show "cpus_ok ?A (t\<lparr>list_cpu := list_cpu t @ [?c]\<rparr>)" using pool_okD(4) [OF t] by (simp add: cpus_ok_def r)
  qed simp_all
  then have "sched_inv (t\<lparr>list_cpu := list_cpu t @ [?c]\<rparr>)" by (simp add: sched_inv_def t_def)
  moreover have "ks_cpu_connected cpu_fd i s = wake_scheduler (t\<lparr>list_cpu := list_cpu t @ [?c]\<rparr>)"
    by (simp add: ks_cpu_connected_def Let_def t_def upd_client_def)
  ultimately show ?thesis by simp
qed

lemma wait_process_create_confirmation_keeps:
  assumes "sched_inv s" and "\<And>p. get_process_from_pid s pid = Some p \<Longrightarrow> proc_state (procs s p) = NEW"
  shows "sched_inv (wait_process_create_confirmation pid s)"
proof (cases "get_process_from_pid s pid")
  case None
  then show ?thesis using assms(1) by (simp add: wait_process_create_confirmation_def)
next
  case (Some p)
  let ?A = "set (list_processes s)"
  have inv: "pool_ok ?A s" using assms(1) by (simp add: sched_inv_def)
  have p: "p \<in> ?A" and st: "proc_state (procs s p) = NEW" using Some assms(2) by (simp_all add: from_pid)
  have cpu: "proc_cpu (procs s p) = None"
    using cpu_means_exec [OF inv p] st by (cases "proc_cpu (procs s p)") auto
  have "pool_ok (?A - {p}) s" using st cpu by (intro pool_ok_unlisted [OF inv]) simp_all
  then show ?thesis
    using Some st cpu p by (auto simp: wait_process_create_confirmation_def sched_inv_def normal intro: pool_make_ready)
qed

text \<open>Suspension.\<close>

lemma suspend_one_keeps:
  assumes "sched_inv s" and "p \<in> set (list_processes s)" and "proc_state (procs s p) = BLOCK"
  shows "sched_inv (suspend_one p s)"
proof -
  have inv: "pool_ok (set (list_processes s)) s" using assms(1) by (simp add: sched_inv_def)
  note out = pool_ok_block_out [OF inv assms(2)]
  show ?thesis
    using assms out by (auto simp: suspend_one_def sched_inv_def normal intro!: pool_make_unlisted)
qed

lemma suspend_one_frame [simp]: "list_processes (suspend_one p s) = list_processes s"
  by (simp add: suspend_one_def process_setters)

lemma suspend_scan_keeps:
  "sched_inv s \<Longrightarrow> set ps \<subseteq> set (list_processes s) \<Longrightarrow> sched_inv (snd (suspend_scan now ps xs s))"
  by (induction now ps xs s rule: suspend_scan.induct) (auto simp: suspend_one_keeps must_suspend_def)

lemma fold_send_swap_out [simp]: "sched_inv (fold send_swap_out ps s) = sched_inv s"
  by (induction ps arbitrary: s) (simp_all add: send_swap_out_def)

lemma suspension_manager_turn_keeps:
  assumes "sched_inv s" shows "sched_inv (suspension_manager_turn now s)"
proof -
  have "set (block_processes s) \<subseteq> set (list_processes s)"
    using assms by (auto simp: sched_inv_def pool_ok_def lists_ok_def)
  then have "sched_inv (snd (suspend_scan now (block_processes s) [] s))" by (intro suspend_scan_keeps assms)
  then show ?thesis using assms by (auto simp: suspension_manager_turn_def split: prod.split)
qed

text \<open>A suspended process comes back.\<close>

lemma pool_suspended:
  assumes "sched_inv s" and "p \<in> set (list_processes s)"
    and "proc_state (procs s p) \<in> {SUSP_BLOCK, SUSP_READY}"
  shows "pool_ok (set (list_processes s) - {p}) s" and "proc_cpu (procs s p) = None"
proof -
  have inv: "pool_ok (set (list_processes s)) s" using assms(1) by (simp add: sched_inv_def)
  show cpu: "proc_cpu (procs s p) = None"
    using cpu_means_exec [OF inv assms(2)] assms(3) by (cases "proc_cpu (procs s p)") auto
  show "pool_ok (set (list_processes s) - {p}) s"
    using assms(3) cpu by (intro pool_ok_unlisted [OF inv]) auto
qed

lemma pool_make_blocked:
  assumes "pool_ok (A - {p}) s" and "p \<in> A"
    and "proc_state (f (procs s p)) = BLOCK" and "proc_cpu (f (procs s p)) = None"
  shows "pool_ok A (block_add p (upd_proc p f s))"
proof -
  have "pool_ok (insert p (A - {p})) (block_add p (upd_proc p f s))"
    using assms by (intro pool_ok_block_add) (simp_all add: pool_ok_upd_proc)
  then show ?thesis using assms(2) by (simp add: insert_absorb)
qed

lemma wait_confirmation_swap_out_keeps:
  assumes "sched_inv s" shows "sched_inv (wait_confirmation_swap_out now pid ok s)"
proof (cases "get_process_from_pid s pid")
  case None
  then show ?thesis using assms by (simp add: wait_confirmation_swap_out_def)
next
  case (Some p)
  have p: "p \<in> set (list_processes s)" using Some by (rule from_pid)
  have "sched_inv (s\<lparr>suspended_processes := x\<rparr>)" for x
    using assms by (subst sched_inv_fields [where s = s]) simp_all
  then show ?thesis
    using Some assms p pool_suspended [OF assms p]
    by (auto simp: wait_confirmation_swap_out_def Let_def normal sched_inv_def
        intro!: pool_make_ready pool_make_blocked)
qed

lemma swapped_in_keeps:
  assumes "sched_inv (snd r)" shows "sched_inv (snd (swapped_in now pid r))"
proof -
  obtain b s where r: "r = (b, s)" by (cases r)
  show ?thesis
  proof (cases "get_process_from_pid s pid")
    case None
    then show ?thesis using assms by (simp add: swapped_in_def r)
  next
    case (Some p)
    let ?s = "s\<lparr>suspended_processes := remove1 p (suspended_processes s)\<rparr>"
    have inv: "sched_inv ?s" using assms by (subst sched_inv_fields [where s = s]) (simp_all add: r)
    have p: "p \<in> set (list_processes ?s)" using from_pid [OF Some] by simp
    show ?thesis
      using Some inv p pool_suspended [OF inv p]
      by (auto simp: swapped_in_def r Let_def normal sched_inv_def intro!: pool_make_ready pool_make_blocked)
  qed
qed

lemma wait_confirmation_swap_in_keeps:
  assumes "sched_inv s" shows "sched_inv (wait_confirmation_swap_in now pids s)"
proof -
  have "sched_inv (snd r) \<Longrightarrow> sched_inv (snd (fold (swapped_in now) pids r))" for r
    by (induction pids arbitrary: r) (simp_all add: swapped_in_keeps)
  from this [of "(False, s)"] show ?thesis
    using assms by (auto simp: wait_confirmation_swap_in_def split: prod.split)
qed

text \<open>Priorities.\<close>

lemma change_priority_keeps:
  assumes "sched_inv s" and "p \<in> set (list_processes s)"
  shows "sched_inv (change_priority pr p s)"
proof -
  let ?A = "set (list_processes s)" and ?f = "\<lambda>r. r\<lparr>effective_priority := pr\<rparr>"
  have inv: "pool_ok ?A s" using assms(1) by (simp add: sched_inv_def)
  show ?thesis
  proof (cases "proc_state (procs s p) = READY")
    case True
    have "pool_ok (?A - {p}) (remove_process_from_ready_queue p s)" using True by (intro pool_ok_ready_remove [OF inv])
    then have "pool_ok ?A (add_process_to_ready_queue p (upd_proc p ?f (remove_process_from_ready_queue p s)))"
      using True assms(2) ready_no_cpu [OF inv assms(2)] by (intro pool_make_ready) simp_all
    then show ?thesis using True by (simp add: change_priority_def sched_inv_def process_setters)
  next
    case False
    let ?s = "upd_proc p ?f s"
    have "queue_index ?s q = queue_index s q" if "q \<noteq> p" for q
      using that by (intro queue_index_cong) (auto simp: upd_proc_def)
    then have idx: "proc_state (procs s q) = READY \<and> queue_index ?s q = i \<longleftrightarrow>
        proc_state (procs s q) = READY \<and> queue_index s q = i" for q i
      using False by (cases "q = p") auto
    have v: "proc_state (procs ?s q) = proc_state (procs s q)" "proc_cpu (procs ?s q) = proc_cpu (procs s q)" for q
      by auto
    moreover have "runs_on ?A ?s = runs_on ?A s" by (auto simp: runs_on_def fun_eq_iff)
    moreover have "ready_queue ?s = ready_queue s" "exec_processes ?s = exec_processes s"
      "block_processes ?s = block_processes s" "queue_algorithms_count ?s = queue_algorithms_count s"
      by (simp_all add: upd_proc_def)
    ultimately have "pool_ok ?A ?s"
      using inv by (simp add: pool_ok_def queues_configured_def ready_ok_def lists_ok_def cpus_ok_def idx del: upd_simps(5))
    then show ?thesis using False by (simp add: change_priority_def sched_inv_def process_setters)
  qed
qed

lemma change_priority_frame [simp]:
  "list_processes (change_priority pr p s) = list_processes s"
  "clients (change_priority pr p s) = clients s" "list_cpu (change_priority pr p s) = list_cpu s"
  "procs (change_priority pr p s) = (procs s)(p := (procs s p)\<lparr>effective_priority := pr\<rparr>)"
  by (simp_all add: change_priority_def process_setters)

lemma mutex_lock_waits:
  assumes "isLocked (mutexes s m)" and "lockedBy (mutexes s m) \<noteq> Some p" and "proc_cpu (procs s p) = Some c"
    and t: "t = block_process now p (upd_mutex m (\<lambda>x. x\<lparr>waitingProcesses := waitingProcesses x @ [p]\<rparr>) s)"
  shows "mutex_lock now m p s =
     and_then (if scheduler_algorithm s = CMN
               then and_then (of_option (lockedBy (mutexes s m))) (\<lambda>owner. Ret (inherit_priority p owner t))
               else Ret t) (\<lambda>u. Ret (wake_scheduler (set_available True c u)))"
  using assms by (simp add: mutex_lock_def Let_def)

lemma inherit_priority_frame [simp]:
  "list_processes (inherit_priority p owner s) = list_processes s"
  "proc_cpu (procs (inherit_priority p owner s) q) = proc_cpu (procs s q)"
  "proc_state (procs (inherit_priority p owner s) q) = proc_state (procs s q)"
  by (simp_all add: inherit_priority_def)

lemma mutex_lock_keeps_lists:
  assumes "sched_inv s" and "runs_on (set (list_processes s)) s p c"
    and "\<And>q. lockedBy (mutexes s m) = Some q \<Longrightarrow> q \<in> set (list_processes s)"
  shows "yields sched_inv (mutex_lock now m p s)"
proof (cases "isLocked (mutexes s m) \<and> lockedBy (mutexes s m) \<noteq> Some p")
  case False
  have "sched_inv (upd_proc p (\<lambda>r. r\<lparr>owned_mutexes := f r\<rparr>) t)" if "sched_inv t" for f t
    using that by (simp add: sched_inv_def pool_ok_keep_proc)
  then show ?thesis using False assms(1) by (auto simp: mutex_lock_def Let_def)
next
  case True
  let ?A = "set (list_processes s)"
  define t where "t = block_process now p (upd_mutex m (\<lambda>x. x\<lparr>waitingProcesses := waitingProcesses x @ [p]\<rparr>) s)"
  have inv: "pool_ok ?A s" using assms(1) by (simp add: sched_inv_def)
  note at = runs_onD [OF inv assms(2)]
  have t: "sched_inv t" "list_processes t = list_processes s"
    using at assms(1) by (simp_all add: t_def sched_inv_def pool_block_process)
  have "sched_inv (set_available True c u)"
    if u: "sched_inv u" and fr: "\<And>q. proc_cpu (procs u q) = proc_cpu (procs t q)" "list_processes u = list_processes s" for u
  proof -
    have "\<not> runs_on ?A u q c" for q
      using runs_alone [OF inv assms(2), of q] fr(1) [of q] by (auto simp: t_def runs_on_def block_process_def normal)
    then show ?thesis using u fr(2) by (simp add: sched_inv_def pool_ok_available)
  qed
  moreover have "sched_inv (inherit_priority p owner t)" if "lockedBy (mutexes s m) = Some owner" for owner
    using t assms(3) [OF that] by (simp add: inherit_priority_def change_priority_keeps)
  ultimately show ?thesis
    using True at(2) t unfolding mutex_lock_waits [OF conjunct1 [OF True] conjunct2 [OF True] at(2) t_def]
    by (auto simp: and_then_eq_Ret intro!: yields_and_then split: if_splits)
qed

lemma restore_priority_keeps:
  "sched_inv s \<Longrightarrow> p \<in> set (list_processes s) \<Longrightarrow> sched_inv (restore_priority p s)"
  by (simp add: restore_priority_def Let_def change_priority_keeps)

lemma restore_priority_frame [simp]: "list_processes (restore_priority p s) = list_processes s"
  by (simp add: restore_priority_def Let_def)

lemma hand_over_keeps:
  assumes "sched_inv s"
    and "\<And>q. q \<in> set (waitingProcesses (mutexes s m)) \<Longrightarrow>
           q \<in> set (list_processes s) \<and> proc_state (procs s q) \<in> {BLOCK, SUSP_BLOCK}"
  shows "sched_inv (hand_over m s)"
proof (cases "waitingProcesses (mutexes s m)")
  case Nil
  then show ?thesis using assms(1) by (simp add: hand_over_def)
next
  case (Cons w ws)
  let ?t = "upd_mutex m (\<lambda>x. x\<lparr>isLocked := True, lockedBy := Some w, waitingProcesses := ws\<rparr>) s"
  have w: "w \<in> set (list_processes s)" "proc_state (procs s w) \<in> {BLOCK, SUSP_BLOCK}"
    using assms(2) [of w] Cons by auto
  have "pool_ok (set (list_processes s)) ?t" using assms(1) by (simp add: sched_inv_def)
  note out = pool_ok_block_out [OF this w(1)]
  show ?thesis
    using Cons w out by (auto simp: hand_over_def sched_inv_def Let_def normal
        intro!: pool_make_ready pool_make_unlisted)
qed

end
