(* ===== verification/KS_Locks.thy ===== *)
theory KS_Locks
  imports KS_Invariant
begin

text \<open>
  The mutexes: their owners, their waiters and the processes' lists of owned mutexes agree
  (\<open>mutexes_ok\<close>), locking and unlocking is a queue that serves in order (an interface of its own,
  \<open>fifo_lock\<close>), and priorities are inherited.
\<close>

section \<open>What the other operations leave alone\<close>

lemma mutexes_frame [simp]:
  "mutexes (on_queue i f s) = mutexes s" "mutexes (add_process_to_ready_queue p s) = mutexes s"
  "mutexes (add_process_at_start_of_ready_queue p s) = mutexes s"
  "mutexes (remove_process_from_ready_queue p s) = mutexes s"
  "mutexes (exec_add p s) = mutexes s" "mutexes (block_add p s) = mutexes s"
  "mutexes (exec_remove p s) = mutexes s" "mutexes (block_remove p s) = mutexes s"
  "mutexes (free_cpu c s) = mutexes s" "mutexes (wake_scheduler s) = mutexes s"
  "mutexes (add_waiter w s) = mutexes s" "mutexes (send_process_end pid s) = mutexes s"
  "mutexes (upd_proc p h s) = mutexes s" "mutexes (upd_client c k s) = mutexes s"
  "mutexes (ks_send t pkg s) = mutexes s" "mutexes (send_pid_to_execute pid co s) = mutexes s"
  "mutexes (evict_process co reason b s) = mutexes s"
  "mutexes (upd_mutex m g s) = (mutexes s)(m := g (mutexes s m))"
  by (auto simp: on_queue_def add_process_to_ready_queue_def add_process_at_start_of_ready_queue_def
      remove_process_from_ready_queue_def exec_add_def block_add_def free_cpu_def store_defs exec_remove_def
      block_remove_def send_process_end_def send_pid_to_execute_def evict_process_def send_process_evict_def
      split: option.split)

lemma list_mutexes_frame [simp]:
  "list_mutexes (on_queue i f s) = list_mutexes s" "list_mutexes (add_process_to_ready_queue p s) = list_mutexes s"
  "list_mutexes (add_process_at_start_of_ready_queue p s) = list_mutexes s"
  "list_mutexes (remove_process_from_ready_queue p s) = list_mutexes s"
  "list_mutexes (exec_add p s) = list_mutexes s" "list_mutexes (block_add p s) = list_mutexes s"
  "list_mutexes (exec_remove p s) = list_mutexes s" "list_mutexes (block_remove p s) = list_mutexes s"
  "list_mutexes (free_cpu c s) = list_mutexes s" "list_mutexes (wake_scheduler s) = list_mutexes s"
  "list_mutexes (add_waiter w s) = list_mutexes s" "list_mutexes (send_process_end pid s) = list_mutexes s"
  "list_mutexes (upd_proc p h s) = list_mutexes s" "list_mutexes (upd_client c k s) = list_mutexes s"
  "list_mutexes (ks_send t pkg s) = list_mutexes s" "list_mutexes (send_pid_to_execute pid co s) = list_mutexes s"
  "list_mutexes (evict_process co reason b s) = list_mutexes s"
  "list_mutexes (upd_mutex m g s) = list_mutexes s"
  by (auto simp: on_queue_def add_process_to_ready_queue_def add_process_at_start_of_ready_queue_def
      remove_process_from_ready_queue_def exec_add_def block_add_def free_cpu_def store_defs exec_remove_def
      block_remove_def send_process_end_def send_pid_to_execute_def evict_process_def send_process_evict_def
      split: option.split)

lemma change_priority_mutexes [simp]:
  "mutexes (change_priority pr p s) = mutexes s" "list_mutexes (change_priority pr p s) = list_mutexes s"
  "mutexes (inherit_priority p q s) = mutexes s" "list_mutexes (inherit_priority p q s) = list_mutexes s"
  "mutexes (restore_priority p s) = mutexes s" "list_mutexes (restore_priority p s) = list_mutexes s"
  "mutexes (block_process now p s) = mutexes s" "list_mutexes (block_process now p s) = list_mutexes s"
  by (simp_all add: change_priority_def inherit_priority_def restore_priority_def Let_def block_process_def
      process_setters)

lemma priority_procs [simp]:
  "proc_state (procs (change_priority pr p s) q) = proc_state (procs s q)"
  "owned_mutexes (procs (change_priority pr p s) q) = owned_mutexes (procs s q)"
  "proc_state (procs (restore_priority p s) q) = proc_state (procs s q)"
  "owned_mutexes (procs (restore_priority p s) q) = owned_mutexes (procs s q)"
  "owned_mutexes (procs (inherit_priority p r s) q) = owned_mutexes (procs s q)"
  by (simp_all add: restore_priority_def Let_def inherit_priority_def)

lemma block_process_procs [simp]:
  "proc_state (procs (block_process now p s) q) = (if q = p then BLOCK else proc_state (procs s q))"
  "owned_mutexes (procs (block_process now p s) q) = owned_mutexes (procs s q)"
  by (simp_all add: block_process_def process_setters)

section \<open>The invariant\<close>

definition waits_for :: "ks_state \<Rightarrow> process \<Rightarrow> mutex \<Rightarrow> bool" where
  "waits_for s p m \<longleftrightarrow> m \<in> set (list_mutexes s) \<and> p \<in> set (waitingProcesses (mutexes s m))"

definition mutex_ok :: "ks_state \<Rightarrow> t_mutex \<Rightarrow> bool" where
  "mutex_ok s x \<longleftrightarrow>
     (isLocked x \<longleftrightarrow> lockedBy x \<noteq> None) \<and> (waitingProcesses x \<noteq> [] \<longrightarrow> isLocked x) \<and>
     distinct (waitingProcesses x) \<and> (\<forall>p. lockedBy x = Some p \<longrightarrow> p \<in> set (list_processes s)) \<and>
     (\<forall>p \<in> set (waitingProcesses x). lockedBy x \<noteq> Some p \<and> p \<in> set (list_processes s) \<and>
        proc_state (procs s p) \<in> {BLOCK, SUSP_BLOCK})"

definition mutexes_ok :: "ks_state \<Rightarrow> bool" where
  "mutexes_ok s \<longleftrightarrow>
     (\<forall>m \<in> set (list_mutexes s). mutex_ok s (mutexes s m)) \<and>
     (\<forall>p m m'. waits_for s p m \<longrightarrow> waits_for s p m' \<longrightarrow> m = m') \<and>
     (\<forall>p \<in> set (list_processes s). distinct (owned_mutexes (procs s p)) \<and>
        set (owned_mutexes (procs s p)) = {m \<in> set (list_mutexes s). lockedBy (mutexes s m) = Some p})"

text \<open>A step that does not concern the mutexes keeps it, as long as who waits for a mutex goes on
  waiting.\<close>

lemma mutexes_ok_frame:
  assumes "mutexes_ok s" and "mutexes s' = mutexes s" and "list_mutexes s' = list_mutexes s"
    and "list_processes s' = list_processes s"
    and "\<And>p. owned_mutexes (procs s' p) = owned_mutexes (procs s p)"
    and "\<And>p m. waits_for s p m \<Longrightarrow> proc_state (procs s' p) \<in> {BLOCK, SUSP_BLOCK}"
  shows "mutexes_ok s'"
proof -
  have "mutex_ok s' (mutexes s m)" if "m \<in> set (list_mutexes s)" for m
    using assms(1,4) assms(6) [of _ m] that by (auto simp: mutexes_ok_def mutex_ok_def waits_for_def)
  moreover have "waits_for s' = waits_for s" by (simp add: waits_for_def fun_eq_iff assms)
  ultimately show ?thesis using assms(1-5) by (simp add: mutexes_ok_def)
qed

lemma waiting_state:
  assumes "mutexes_ok s" and "waits_for s p m"
  shows "proc_state (procs s p) \<in> {BLOCK, SUSP_BLOCK}" and "p \<in> set (list_processes s)"
  using assms by (auto simp: mutexes_ok_def mutex_ok_def waits_for_def)

text \<open>Most operations change one process, which does not wait.\<close>

lemma mutexes_ok_other:
  assumes "mutexes_ok s" and "mutexes s' = mutexes s" and "list_mutexes s' = list_mutexes s"
    and "list_processes s' = list_processes s"
    and "\<And>q. owned_mutexes (procs s' q) = owned_mutexes (procs s q)"
    and "\<And>q. q \<noteq> p \<Longrightarrow> proc_state (procs s' q) = proc_state (procs s q)"
    and "proc_state (procs s p) \<in> {BLOCK, SUSP_BLOCK} \<Longrightarrow> (\<exists>m. waits_for s p m) \<Longrightarrow>
           proc_state (procs s' p) \<in> {BLOCK, SUSP_BLOCK}"
  shows "mutexes_ok s'"
proof (rule mutexes_ok_frame [OF assms(1-5)])
  fix q m assume "waits_for s q m"
  then show "proc_state (procs s' q) \<in> {BLOCK, SUSP_BLOCK}"
    using assms(6,7) waiting_state(1) [OF assms(1)] by (cases "q = p") (metis, metis)
qed

section \<open>The operations\<close>

text \<open>A change of one mutex and of the mutexes its old and its new owner list.\<close>

lemma mutexes_ok_update:
  assumes "mutexes_ok s" and "m \<in> set (list_mutexes s)" and "mutexes s' = (mutexes s)(m := x)"
    and "list_mutexes s' = list_mutexes s" and "list_processes s' = list_processes s"
    and "mutex_ok s' x"
    and "\<And>p m'. waits_for s p m' \<Longrightarrow> m' \<noteq> m \<Longrightarrow>
           proc_state (procs s' p) \<in> {BLOCK, SUSP_BLOCK} \<and> p \<notin> set (waitingProcesses x)"
    and "\<And>p. p \<in> set (list_processes s) \<Longrightarrow> distinct (owned_mutexes (procs s' p)) \<and>
           set (owned_mutexes (procs s' p)) =
             (if lockedBy x = Some p then insert m (set (owned_mutexes (procs s p)))
              else set (owned_mutexes (procs s p)) - {m})"
  shows "mutexes_ok s'"
proof -
  have w: "waits_for s' p m' \<longleftrightarrow> (if m' = m then p \<in> set (waitingProcesses x) else waits_for s p m')" for p m'
    using assms(2-4) by (simp add: waits_for_def)
  have "mutex_ok s' (mutexes s' m')" if m': "m' \<in> set (list_mutexes s)" for m'
  proof (cases "m' = m")
    case False
    have "mutex_ok s (mutexes s m')" using assms(1) m' by (simp add: mutexes_ok_def)
    then show ?thesis using False assms(3,5) assms(7) [of _ m'] m' by (auto simp: mutex_ok_def waits_for_def)
  qed (simp add: assms(3,6))
  moreover have "m1 = m2" if "waits_for s' p m1" "waits_for s' p m2" for p m1 m2
    using that assms(1,7) unfolding w mutexes_ok_def by (metis (no_types, lifting))
  moreover have "set (owned_mutexes (procs s' p)) = {m' \<in> set (list_mutexes s). lockedBy (mutexes s' m') = Some p}"
    if p: "p \<in> set (list_processes s)" for p
  proof -
    have "set (owned_mutexes (procs s p)) = {m' \<in> set (list_mutexes s). lockedBy (mutexes s m') = Some p}"
      using assms(1) p by (simp add: mutexes_ok_def)
    then show ?thesis using assms(2) assms(8) [OF p] by (auto simp: assms(3))
  qed
  ultimately show ?thesis using assms(4,5,8) by (simp add: mutexes_ok_def)
qed

lemma mutexes_okD:
  assumes "mutexes_ok s" and "m \<in> set (list_mutexes s)"
  shows "mutex_ok s (mutexes s m)"
    and "p \<in> set (list_processes s) \<Longrightarrow> m \<in> set (owned_mutexes (procs s p)) \<longleftrightarrow> lockedBy (mutexes s m) = Some p"
    and "p \<in> set (list_processes s) \<Longrightarrow> distinct (owned_mutexes (procs s p))"
  using assms by (auto simp: mutexes_ok_def)

lemma mutex_lock_keeps_mutexes:
  assumes inv: "mutexes_ok s" and m: "m \<in> set (list_mutexes s)"
    and p: "p \<in> set (list_processes s)" "proc_state (procs s p) = EXEC"
  shows "yields mutexes_ok (mutex_lock now m p s)"
proof -
  have idle: "\<not> waits_for s p m'" for m' using waiting_state(1) [OF inv, of p m'] p(2) by auto
  note ok = mutexes_okD(1) [OF inv m] and own = mutexes_okD(2,3) [OF inv m]
  consider (free) "\<not> isLocked (mutexes s m)" | (own) "isLocked (mutexes s m)" "lockedBy (mutexes s m) = Some p"
    | (wait) owner where "isLocked (mutexes s m)" "lockedBy (mutexes s m) = Some owner" "owner \<noteq> p"
    using ok by (auto simp: mutex_ok_def)
  then show ?thesis
  proof cases
    case free
    then have n: "lockedBy (mutexes s m) = None" "waitingProcesses (mutexes s m) = []"
      using ok by (auto simp: mutex_ok_def)
    let ?t = "upd_proc p (\<lambda>r. r\<lparr>owned_mutexes := owned_mutexes r @ [m]\<rparr>)
      (upd_mutex m (\<lambda>x. x\<lparr>isLocked := True, lockedBy := Some p\<rparr>) s)"
    have "mutexes_ok ?t"
    proof (rule mutexes_ok_update [OF inv m])
      show "mutex_ok ?t ((mutexes s m)\<lparr>isLocked := True, lockedBy := Some p\<rparr>)"
        using n p(1) by (simp add: mutex_ok_def)
      show "proc_state (procs ?t q) \<in> {BLOCK, SUSP_BLOCK} \<and> q \<notin> set (waitingProcesses ((mutexes s m)\<lparr>isLocked := True, lockedBy := Some p\<rparr>))"
        if "waits_for s q m'" for q m'
        using waiting_state(1) [OF inv that] n by auto
    qed (use n own in auto)
    moreover from this have "mutexes_ok (send_pid_to_execute pid co ?t)" for pid co
      by (rule mutexes_ok_frame) (auto dest: waiting_state [OF \<open>mutexes_ok ?t\<close>])
    ultimately show ?thesis using free by (simp add: mutex_lock_def)
  next
    case own
    have "mutexes_ok (send_pid_to_execute pid co s)" for pid co
      using inv by (rule mutexes_ok_frame) (auto dest: waiting_state [OF inv])
    then show ?thesis using own by (simp add: mutex_lock_def)
  next
    case wait
    let ?x = "(mutexes s m)\<lparr>waitingProcesses := waitingProcesses (mutexes s m) @ [p]\<rparr>"
    have "mutexes_ok t" if t: "mutexes t = (mutexes s)(m := ?x)" "list_mutexes t = list_mutexes s"
      "list_processes t = list_processes s" "\<And>q. owned_mutexes (procs t q) = owned_mutexes (procs s q)"
      "\<And>q. proc_state (procs t q) = (if q = p then BLOCK else proc_state (procs s q))" for t
    proof (rule mutexes_ok_update [OF inv m t(1-3)])
      show "mutex_ok t ?x" using ok wait p idle [of m] m by (auto simp: mutex_ok_def t waits_for_def)
      show "proc_state (procs t q) \<in> {BLOCK, SUSP_BLOCK} \<and> q \<notin> set (waitingProcesses ?x)"
        if "waits_for s q m'" "m' \<noteq> m" for q m'
        using that waiting_state(1) [OF inv that(1)] idle inv m by (auto simp: t mutexes_ok_def waits_for_def)
      show "distinct (owned_mutexes (procs t q)) \<and> set (owned_mutexes (procs t q)) =
          (if lockedBy ?x = Some q then insert m (set (owned_mutexes (procs s q)))
           else set (owned_mutexes (procs s q)) - {m})" if "q \<in> set (list_processes s)" for q
        using own [OF that] wait(2) by (auto simp: t)
    qed
    then show ?thesis
      using wait by (auto simp: mutex_lock_def Let_def intro!: yields_and_then)
  qed
qed

text \<open>What becomes of the mutex when its owner unlocks it.\<close>

definition handed :: "t_mutex \<Rightarrow> t_mutex" where
  "handed x = (case waitingProcesses x of
     [] \<Rightarrow> x\<lparr>isLocked := False, lockedBy := None\<rparr>
   | next # rest \<Rightarrow> x\<lparr>isLocked := True, lockedBy := Some next, waitingProcesses := rest\<rparr>)"

lemma hand_over_frame [simp]:
  "mutexes (hand_over m s) = (mutexes s)(m := handed (mutexes s m))"
  "list_mutexes (hand_over m s) = list_mutexes s" "list_processes (hand_over m s) = list_processes s"
  "owned_mutexes (procs (hand_over m s) q) =
     owned_mutexes (procs s q) @ (if waitingProcesses (mutexes s m) \<noteq> [] \<and> q = hd (waitingProcesses (mutexes s m)) then [m] else [])"
  "proc_state (procs (hand_over m s) q) =
     (if waitingProcesses (mutexes s m) \<noteq> [] \<and> q = hd (waitingProcesses (mutexes s m))
      then (if proc_state (procs s q) = SUSP_BLOCK then SUSP_READY else READY) else proc_state (procs s q))"
  by (auto simp: hand_over_def handed_def Let_def process_setters split: list.split)

lemma mutex_unlock_owner:
  assumes "lockedBy (mutexes s m) = Some p"
  shows "mutexes (mutex_unlock m p s) = (mutexes s)(m := handed (mutexes s m))"
    and "list_mutexes (mutex_unlock m p s) = list_mutexes s"
    and "list_processes (mutex_unlock m p s) = list_processes s"
    and "owned_mutexes (procs (mutex_unlock m p s) q) =
      (if q = p then remove1 m (owned_mutexes (procs s p)) else owned_mutexes (procs s q)) @
      (if waitingProcesses (mutexes s m) \<noteq> [] \<and> q = hd (waitingProcesses (mutexes s m)) then [m] else [])"
    and "proc_state (procs (mutex_unlock m p s) q) =
      (if waitingProcesses (mutexes s m) \<noteq> [] \<and> q = hd (waitingProcesses (mutexes s m))
       then (if proc_state (procs s q) = SUSP_BLOCK then SUSP_READY else READY) else proc_state (procs s q))"
  using assms by (simp_all add: mutex_unlock_def)

lemma mutex_unlock_keeps_mutexes:
  assumes inv: "mutexes_ok s" and m: "m \<in> set (list_mutexes s)" and p: "p \<in> set (list_processes s)"
  shows "mutexes_ok (mutex_unlock m p s)"
proof (cases "lockedBy (mutexes s m) = Some p")
  case False
  then show ?thesis using inv by (simp add: mutex_unlock_def)
next
  case True
  note after = mutex_unlock_owner [OF True]
  note ok = mutexes_okD(1) [OF inv m] and own = mutexes_okD(2,3) [OF inv m]
  show ?thesis
  proof (rule mutexes_ok_update [OF inv m after(1-3)])
    show "mutex_ok (mutex_unlock m p s) (handed (mutexes s m))"
      using ok by (auto simp: mutex_ok_def handed_def after split: list.split)
    show "proc_state (procs (mutex_unlock m p s) q) \<in> {BLOCK, SUSP_BLOCK} \<and> q \<notin> set (waitingProcesses (handed (mutexes s m)))"
      if w: "waits_for s q m'" "m' \<noteq> m" for q m'
    proof -
      have "q \<notin> set (waitingProcesses (mutexes s m))"
        using inv w m unfolding mutexes_ok_def by (metis waits_for_def)
      then show ?thesis using waiting_state(1) [OF inv w(1)]
        by (auto simp: after handed_def split: list.split)
    qed
    show "distinct (owned_mutexes (procs (mutex_unlock m p s) q)) \<and>
        set (owned_mutexes (procs (mutex_unlock m p s) q)) =
          (if lockedBy (handed (mutexes s m)) = Some q then insert m (set (owned_mutexes (procs s q)))
           else set (owned_mutexes (procs s q)) - {m})" if q: "q \<in> set (list_processes s)" for q
    proof -
      have "p \<notin> set (waitingProcesses (mutexes s m))" using ok True by (auto simp: mutex_ok_def)
      moreover have "m \<in> set (owned_mutexes (procs s q)) \<longleftrightarrow> q = p" using own(1) [OF q] True by auto
      ultimately show ?thesis
        using own(2) [OF q] by (cases "waitingProcesses (mutexes s m)") (auto simp: after handed_def)
    qed
  qed
qed

lemma mutex_unlock_keeps_lists:
  assumes "sched_inv s" and "mutexes_ok s" and "m \<in> set (list_mutexes s)" and "p \<in> set (list_processes s)"
  shows "sched_inv (mutex_unlock m p s)"
proof (cases "lockedBy (mutexes s m) = Some p")
  case False
  then show ?thesis using assms(1) by (simp add: mutex_unlock_def)
next
  case True
  define t where "t = restore_priority p (upd_proc p (\<lambda>r. r\<lparr>owned_mutexes := remove1 m (owned_mutexes r)\<rparr>)
      (send_pid_to_execute (proc_pid (procs s p)) (proc_cpu (procs s p)) s))"
  have "sched_inv t" unfolding t_def using assms(1,4)
    by (intro restore_priority_keeps) (simp_all add: sched_inv_def pool_ok_keep_proc)
  moreover have "q \<in> set (list_processes t) \<and> proc_state (procs t q) \<in> {BLOCK, SUSP_BLOCK}"
    if "q \<in> set (waitingProcesses (mutexes t m))" for q
    using that mutexes_okD(1) [OF assms(2,3)] by (auto simp: t_def mutex_ok_def)
  ultimately have "sched_inv (hand_over m t)" by (rule hand_over_keeps)
  then show ?thesis using True by (simp add: mutex_unlock_def t_def)
qed

lemma mutex_create_keeps:
  assumes "mutexes_ok s" shows "mutexes_ok (mutex_create eq name s)"
proof (cases "get_mutex_by_name eq s name")
  case None
  let ?m = "fresh (list_mutexes s)"
  let ?t = "mutex_create eq name s"
  have t: "mutexes ?t = (mutexes s)(?m := new_mutex name)" "list_mutexes ?t = list_mutexes s @ [?m]"
    "procs ?t = procs s" "list_processes ?t = list_processes s"
    using None by (simp_all add: mutex_create_def Let_def)
  have new: "?m \<notin> set (list_mutexes s)" by (rule fresh_not_in)
  have w: "waits_for ?t = waits_for s" using new by (auto simp: waits_for_def fun_eq_iff t new_mutex_def)
  have "mutex_ok ?t x = mutex_ok s x" for x by (simp add: mutex_ok_def t)
  then have "\<forall>m \<in> set (list_mutexes ?t). mutex_ok ?t (mutexes ?t m)"
    using assms new by (auto simp: mutexes_ok_def t) (simp add: mutex_ok_def new_mutex_def)
  moreover have "{m \<in> set (list_mutexes ?t). lockedBy (mutexes ?t m) = Some p} =
      {m \<in> set (list_mutexes s). lockedBy (mutexes s m) = Some p}" for p
    using new by (auto simp: t new_mutex_def)
  ultimately show ?thesis using assms by (simp add: mutexes_ok_def w t)
qed (use assms in \<open>simp add: mutex_create_def\<close>)

lemma mutex_create_keeps_lists:
  assumes "sched_inv s" shows "sched_inv (mutex_create eq name s)"
proof (cases "get_mutex_by_name eq s name")
  case None
  have "sched_inv (mutex_create eq name s) = sched_inv s"
    by (rule sched_inv_fields) (simp_all add: mutex_create_def None Let_def)
  with assms show ?thesis by simp
qed (use assms in \<open>simp add: mutex_create_def\<close>)

section \<open>A lock that serves in order\<close>

text \<open>The contract: an owner and a queue; \<open>acquire\<close> by a client that is \<open>able\<close> to call takes a
  free lock or queues up, \<open>release\<close> by the owner passes the lock to the first of the queue, and by
  anybody else does nothing.\<close>

fun fifo_acquire :: "'p \<Rightarrow> 'p option \<times> 'p list \<Rightarrow> 'p option \<times> 'p list" where
  "fifo_acquire p (None, q) = (Some p, q)"
| "fifo_acquire p (Some r, q) = (if r = p then (Some r, q) else (Some r, q @ [p]))"

fun fifo_release :: "'p \<Rightarrow> 'p option \<times> 'p list \<Rightarrow> 'p option \<times> 'p list" where
  "fifo_release p (r, q) =
     (if r \<noteq> Some p then (r, q) else case q of [] \<Rightarrow> (None, []) | n # ns \<Rightarrow> (Some n, ns))"

text \<open>The owners unlock one after the other.\<close>

primrec release_turns :: "('s \<Rightarrow> 'p option \<times> 'p list) \<Rightarrow> ('p \<Rightarrow> 's \<Rightarrow> 's) \<Rightarrow> nat \<Rightarrow> 's \<Rightarrow> 's" where
  "release_turns lock_of release 0 s = s"
| "release_turns lock_of release (Suc k) s =
     release_turns lock_of release k (case fst (lock_of s) of None \<Rightarrow> s | Some p \<Rightarrow> release p s)"

locale fifo_lock =
  fixes lock_of :: "'s \<Rightarrow> 'p option \<times> 'p list" and ok :: "'s \<Rightarrow> bool" and able :: "'p \<Rightarrow> 's \<Rightarrow> bool"
    and acquire :: "'p \<Rightarrow> 's \<Rightarrow> 's run" and release :: "'p \<Rightarrow> 's \<Rightarrow> 's"
  assumes acquire: "ok s \<Longrightarrow> able p s \<Longrightarrow> \<exists>t. acquire p s = Ret t \<and> ok t \<and> lock_of t = fifo_acquire p (lock_of s)"
    and release: "ok s \<Longrightarrow> fst (lock_of s) = Some p \<Longrightarrow> ok (release p s) \<and> lock_of (release p s) = fifo_release p (lock_of s)"
    and strangers: "fst (lock_of s) \<noteq> Some p \<Longrightarrow> release p s = s"
    and held: "ok s \<Longrightarrow> snd (lock_of s) \<noteq> [] \<Longrightarrow> fst (lock_of s) \<noteq> None"
begin

text \<open>Nobody is overtaken: the one at place \<open>k\<close> of the queue has the lock when \<open>k + 1\<close> owners have
  released it.\<close>

lemma served_in_turn:
  "ok s \<Longrightarrow> k < length (snd (lock_of s)) \<Longrightarrow>
     lock_of (release_turns lock_of release (Suc k) s) = (Some (snd (lock_of s) ! k), drop (Suc k) (snd (lock_of s)))"
proof (induction k arbitrary: s)
  case 0
  then obtain r n ns where l: "lock_of s = (Some r, n # ns)"
    using held by (metis length_greater_0_conv list.exhaust option.exhaust prod.collapse)
  then show ?case using release [OF 0(1), of r] by simp
next
  case (Suc k)
  then obtain r n ns where l: "lock_of s = (Some r, n # ns)"
    using held by (metis gr_implies_not0 length_0_conv list.exhaust option.exhaust prod.collapse)
  have "ok (release r s)" "lock_of (release r s) = (Some n, ns)" using release [OF Suc(2), of r] l by simp_all
  with Suc.IH [of "release r s"] Suc.prems(2) show ?case using l by simp
qed

text \<open>A lock that was acquired by a client and released by it is as before.\<close>

lemma acquire_release:
  assumes "ok s" and "able p s" and "lock_of s = (None, [])"
  shows "\<exists>t. acquire p s = Ret t \<and> lock_of (release p t) = (None, [])"
proof -
  obtain t where t: "acquire p s = Ret t" "ok t" "lock_of t = fifo_acquire p (lock_of s)"
    using acquire assms by blast
  moreover have "lock_of (release p t) = fifo_release p (lock_of t)"
    using release [OF t(2)] t(3) assms(3) by simp
  ultimately show ?thesis using assms(3) by auto
qed

end

text \<open>The mutexes of the scheduler are such locks.\<close>

definition lock_view :: "mutex \<Rightarrow> ks_state \<Rightarrow> process option \<times> process list" where
  "lock_view m s = (lockedBy (mutexes s m), waitingProcesses (mutexes s m))"

definition can_call :: "process \<Rightarrow> ks_state \<Rightarrow> bool" where
  "can_call p s \<longleftrightarrow> p \<in> set (list_processes s) \<and> proc_state (procs s p) = EXEC \<and> proc_cpu (procs s p) \<noteq> None"

definition mutex_usable :: "mutex \<Rightarrow> ks_state \<Rightarrow> bool" where
  "mutex_usable m s \<longleftrightarrow> mutexes_ok s \<and> m \<in> set (list_mutexes s)"

lemma mutex_lock_view:
  assumes "mutex_usable m s" and "can_call p s"
  shows "\<exists>t. mutex_lock now m p s = Ret t \<and> mutex_usable m t \<and> lock_view m t = fifo_acquire p (lock_view m s)"
proof -
  have ok: "mutex_ok s (mutexes s m)" using assms(1) by (simp add: mutex_usable_def mutexes_okD)
  have "yields mutexes_ok (mutex_lock now m p s)"
    using assms by (intro mutex_lock_keeps_mutexes) (simp_all add: mutex_usable_def can_call_def)
  moreover have "\<exists>t. mutex_lock now m p s = Ret t \<and> list_mutexes t = list_mutexes s \<and>
      lock_view m t = fifo_acquire p (lock_view m s)"
    using assms ok by (cases "lockedBy (mutexes s m)")
      (auto simp: mutex_lock_def Let_def lock_view_def can_call_def mutex_ok_def)
  ultimately show ?thesis using assms(1) by (auto simp: mutex_usable_def yields_def)
qed

interpretation ks_mutex: fifo_lock "lock_view m" "mutex_usable m" can_call "mutex_lock now m" "mutex_unlock m"
  for m now
proof
  fix s p
  show "\<exists>t. mutex_lock now m p s = Ret t \<and> mutex_usable m t \<and> lock_view m t = fifo_acquire p (lock_view m s)"
    if "mutex_usable m s" "can_call p s" using that by (rule mutex_lock_view)
  show "mutex_usable m (mutex_unlock m p s) \<and> lock_view m (mutex_unlock m p s) = fifo_release p (lock_view m s)"
    if "mutex_usable m s" "fst (lock_view m s) = Some p"
  proof -
    have own: "lockedBy (mutexes s m) = Some p" using that(2) by (simp add: lock_view_def)
    have "p \<in> set (list_processes s)"
      using that(1) own mutexes_okD(1) [of s m] by (auto simp: mutex_usable_def mutex_ok_def)
    then show ?thesis
      using that(1) own by (simp add: mutex_usable_def mutex_unlock_keeps_mutexes mutex_unlock_owner lock_view_def
          handed_def split: list.split)
  qed
  show "mutex_unlock m p s = s" if "fst (lock_view m s) \<noteq> Some p"
    using that by (simp add: mutex_unlock_def lock_view_def)
  show "fst (lock_view m s) \<noteq> None" if "mutex_usable m s" "snd (lock_view m s) \<noteq> []"
    using that mutexes_okD(1) [of s m] by (auto simp: mutex_usable_def mutex_ok_def lock_view_def)
qed

section \<open>Properties\<close>

text \<open>A state of three processes: the first owns the mutex, the third waits for it and has lent its
  priority to the owner, the second is in execution.\<close>

definition three_processes :: ks_state where
  "three_processes =
     (the (ks_setup ''CMN'' [''FIFO'', ''RR'', ''RR''] ''TRUE'' 100 1000))
       \<lparr>list_processes := [1, 2, 3], exec_processes := [1, 2], block_processes := [3],
        list_cpu := [10, 11], list_mutexes := [1],
        procs := (\<lambda>_. create_process 0 0)
          (1 := (create_process 1 2)\<lparr>proc_state := EXEC, proc_cpu := Some 10, effective_priority := 0, owned_mutexes := [1]\<rparr>,
           2 := (create_process 2 1)\<lparr>proc_state := EXEC, proc_cpu := Some 11\<rparr>,
           3 := (create_process 3 0)\<lparr>proc_state := BLOCK\<rparr>),
        clients := (\<lambda>c. (create_client_info (int c) (of_nat c))\<lparr>is_available := False\<rparr>),
        mutexes := (\<lambda>_. \<lparr>mutex_name = ''M'', isLocked = True, lockedBy = Some 1, waitingProcesses = [3]\<rparr>)\<rparr>"

lemma setup_CMN [simp]:
  "ks_setup ''CMN'' [''FIFO'', ''RR'', ''RR''] ''TRUE'' 100 1000 \<noteq> None"
  by (simp add: ks_setup_def Let_def scheduler_algorithm_from_string_def)

lemma three_processes_sel [simp]:
  "list_processes three_processes = [1, 2, 3]" "exec_processes three_processes = [1, 2]"
  "block_processes three_processes = [3]" "list_cpu three_processes = [10, 11]" "list_mutexes three_processes = [1]"
  "scheduler_algorithm three_processes = CMN" "queue_algorithms_count three_processes = 3"
  "ready_queue three_processes = [[], [], []]"
  "clients three_processes c = (create_client_info (int c) (of_nat c))\<lparr>is_available := False\<rparr>"
  "mutexes three_processes m = \<lparr>mutex_name = ''M'', isLocked = True, lockedBy = Some 1, waitingProcesses = [3]\<rparr>"
  by (simp_all add: three_processes_def ks_setup_def Let_def scheduler_algorithm_from_string_def numeral_3_eq_3)

lemma three_processes_procs [simp]:
  "procs three_processes 1 = (create_process 1 2)\<lparr>proc_state := EXEC, proc_cpu := Some 10, effective_priority := 0, owned_mutexes := [1]\<rparr>"
  "procs three_processes (Suc 0) = (create_process 1 2)\<lparr>proc_state := EXEC, proc_cpu := Some 10, effective_priority := 0, owned_mutexes := [1]\<rparr>"
  "procs three_processes 2 = (create_process 2 1)\<lparr>proc_state := EXEC, proc_cpu := Some 11\<rparr>"
  "procs three_processes 3 = (create_process 3 0)\<lparr>proc_state := BLOCK\<rparr>"
  by (simp_all add: three_processes_def)

lemma three_processes_usable: "mutex_usable 1 three_processes" "can_call 2 three_processes"
  by (auto simp: mutex_usable_def mutexes_ok_def mutex_ok_def waits_for_def can_call_def create_process_def)

text \<open>C10: a mutex of the scheduler is a lock that serves in order: \<open>mutex_lock\<close> by a process in
  execution always returns and does what \<open>fifo_acquire\<close> does to the owner and the queue,
  \<open>mutex_unlock\<close> what \<open>fifo_release\<close> does, and neither touches another mutex.\<close>
theorem mutex_refines_fifo_lock:
  assumes "mutex_usable m s" and "can_call p s"
  shows "(\<exists>t. mutex_lock now m p s = Ret t \<and> lock_view m t = fifo_acquire p (lock_view m s) \<and>
              (\<forall>m'. m' \<noteq> m \<longrightarrow> lock_view m' t = lock_view m' s)) \<and>
         lock_view m (mutex_unlock m p s) = fifo_release p (lock_view m s) \<and>
         (\<forall>m'. m' \<noteq> m \<longrightarrow> lock_view m' (mutex_unlock m p s) = lock_view m' s)"
proof -
  obtain t where t: "mutex_lock now m p s = Ret t" "lock_view m t = fifo_acquire p (lock_view m s)"
    using ks_mutex.acquire [OF assms] by blast
  have "lock_view m' t = lock_view m' s" if "m' \<noteq> m" for m'
    using that t(1) assms(2)
    by (auto simp: mutex_lock_def Let_def lock_view_def and_then_eq_Ret split: if_splits)
  moreover have "lock_view m (mutex_unlock m p s) = fifo_release p (lock_view m s)"
    using ks_mutex.release [OF assms(1)] by (cases "lockedBy (mutexes s m) = Some p") (simp_all add: lock_view_def mutex_unlock_def)
  moreover have "lock_view m' (mutex_unlock m p s) = lock_view m' s" if "m' \<noteq> m" for m'
    using that by (cases "lockedBy (mutexes s m) = Some p") (simp_all add: lock_view_def mutex_unlock_def)
  ultimately show ?thesis using t by blast
qed

theorem mutex_refines_fifo_lock_witness:
  "\<exists>t. mutex_lock 0 1 2 three_processes = Ret t \<and> lock_view 1 t = (Some 1, [3, 2])"
  using mutex_refines_fifo_lock [OF three_processes_usable, of 0] by (auto simp: lock_view_def)

text \<open>C32: nobody is overtaken: the process at place \<open>k\<close> of the queue owns the mutex after \<open>k + 1\<close>
  owners have unlocked it, and those behind it keep their order.\<close>
theorem mutex_served_in_turn:
  assumes "mutex_usable m s" and "k < length (waitingProcesses (mutexes s m))"
  shows "lock_view m (release_turns (lock_view m) (mutex_unlock m) (Suc k) s) =
     (Some (waitingProcesses (mutexes s m) ! k), drop (Suc k) (waitingProcesses (mutexes s m)))"
  using ks_mutex.served_in_turn [OF assms(1), of k] assms(2) by (simp add: lock_view_def)

theorem mutex_served_in_turn_witness:
  "lock_view 1 (release_turns (lock_view 1) (mutex_unlock 1) (Suc 0) three_processes) = (Some 3, [])"
  using mutex_served_in_turn [OF three_processes_usable(1), of 0] by simp

text \<open>Priorities.\<close>

lemma fold_min:
  "fold (\<lambda>w b. if f w < b then f w else b) ws b = Min (insert (b :: 'a :: linorder) (f ` set ws))"
proof (induction ws arbitrary: b)
  case (Cons w ws)
  have "(if f w < b then f w else b) = min b (f w)" by (auto simp: min_def)
  then show ?case using Cons.IH [of "min b (f w)"] by (cases "ws = []") (simp_all add: min.assoc min.left_commute)
qed simp

lemma inherited_priority_Min:
  "inherited_priority s p ms =
     Min (insert (base_priority (procs s p))
       {effective_priority (procs s w) | w m. m \<in> set ms \<and> w \<in> set (waitingProcesses (mutexes s m))})"
proof -
  have "(\<lambda>w. effective_priority (procs s w)) ` set (concat (map (\<lambda>m. waitingProcesses (mutexes s m)) ms)) =
      {effective_priority (procs s w) | w m. m \<in> set ms \<and> w \<in> set (waitingProcesses (mutexes s m))}" by auto
  then show ?thesis unfolding inherited_priority_def fold_min by simp
qed

lemma hand_over_priority [simp]: "effective_priority (procs (hand_over m s) q) = effective_priority (procs s q)"
  by (auto simp: hand_over_def Let_def process_setters split: list.split)

lemma restore_priority_effective:
  "effective_priority (procs (restore_priority p s) q) =
     (if q = p \<and> scheduler_algorithm s = CMN then inherited_priority s p (owned_mutexes (procs s p))
      else effective_priority (procs s q))"
  by (auto simp: restore_priority_def Let_def)

lemma mutex_unlock_effective:
  assumes "lockedBy (mutexes s m) = Some p"
  shows "effective_priority (procs (mutex_unlock m p s) q) =
    (if q = p \<and> scheduler_algorithm s = CMN then inherited_priority s p (remove1 m (owned_mutexes (procs s p)))
     else effective_priority (procs s q))"
proof -
  let ?t = "upd_proc p (\<lambda>r. r\<lparr>owned_mutexes := remove1 m (owned_mutexes r)\<rparr>)
      (send_pid_to_execute (proc_pid (procs s p)) (proc_cpu (procs s p)) s)"
  have "inherited_priority ?t p ms = inherited_priority s p ms" for ms
    unfolding inherited_priority_def by (intro arg_cong2 [where f = "\<lambda>f. fold f xs" for xs] fold_cong) auto
  moreover have "scheduler_algorithm ?t = scheduler_algorithm s"
    by (auto simp: upd_proc_def send_pid_to_execute_def ks_send_def split: option.split)
  ultimately show ?thesis using assms by (simp add: mutex_unlock_def restore_priority_effective)
qed

text \<open>C33: with several queues, a process that unlocks a mutex goes back to the best priority among
  its base priority and those of the processes that wait for the mutexes it still owns; nobody
  else's priority changes.\<close>
theorem mutex_unlock_priority:
  assumes "scheduler_algorithm s = CMN" and "lockedBy (mutexes s m) = Some p"
  shows "effective_priority (procs (mutex_unlock m p s) q) =
     (if q = p
      then Min (insert (base_priority (procs s p))
             {effective_priority (procs s w) | w m'.
                m' \<in> set (remove1 m (owned_mutexes (procs s p))) \<and> w \<in> set (waitingProcesses (mutexes s m'))})
      else effective_priority (procs s q))"
  using assms by (simp add: mutex_unlock_effective inherited_priority_Min)

theorem mutex_unlock_priority_witness:
  "effective_priority (procs (mutex_unlock 1 1 three_processes) 1) = 2"
  using mutex_unlock_priority [of three_processes 1 1 1] by (simp add: create_process_def)

text \<open>With several queues, the owner of a mutex inherits the priority of the process that starts
  to wait for it, if that is better; nobody else's priority changes. The queue the owner is in
  follows its priority, as \<open>scheduler_invariant\<close> states.\<close>
theorem mutex_lock_inherits:
  assumes "scheduler_algorithm s = CMN" and "isLocked (mutexes s m)"
    and "lockedBy (mutexes s m) = Some owner" and "owner \<noteq> p" and "proc_cpu (procs s p) = Some c"
  shows "\<exists>t. mutex_lock now m p s = Ret t \<and> proc_state (procs t p) = BLOCK \<and>
     (\<forall>q. effective_priority (procs t q) =
        (if q = owner then min (effective_priority (procs s p)) (effective_priority (procs s owner))
         else effective_priority (procs s q)))"
proof -
  let ?t = "block_process now p (upd_mutex m (\<lambda>x. x\<lparr>waitingProcesses := waitingProcesses x @ [p]\<rparr>) s)"
  have "effective_priority (procs ?t q) = effective_priority (procs s q)" for q
    by (simp add: block_process_def process_setters)
  moreover have "mutex_lock now m p s = Ret (wake_scheduler (set_available True c (inherit_priority p owner ?t)))"
    using assms by (simp add: mutex_lock_def Let_def)
  ultimately show ?thesis
    using assms(4) by (simp add: inherit_priority_def min_def) (auto simp: less_le_not_le)
qed

theorem mutex_lock_inherits_witness:
  "\<exists>t. mutex_lock 0 1 2 three_processes = Ret t \<and> proc_state (procs t 2) = BLOCK"
  using mutex_lock_inherits [of three_processes 1 1 2 11 0] by (auto simp: create_process_def)

text \<open>What is handed over is the mutex and not the priority: when the process that becomes the
  owner has a worse priority than one that goes on waiting, it keeps it, and the invariant that an
  owner is at least as urgent as those who wait for it is broken.\<close>
theorem handed_over_without_priority:
  assumes "lockedBy (mutexes s m) = Some p" and "waitingProcesses (mutexes s m) = q # w # ws"
    and "p \<notin> {q, w}" and "effective_priority (procs s w) < effective_priority (procs s q)"
  shows "let t = mutex_unlock m p s in
     lockedBy (mutexes t m) = Some q \<and> w \<in> set (waitingProcesses (mutexes t m)) \<and>
     effective_priority (procs t w) < effective_priority (procs t q)"
  using assms by (simp add: Let_def mutex_unlock_owner mutex_unlock_effective handed_def)

theorem handed_over_without_priority_witness:
  "let s = upd_mutex 1 (\<lambda>x. x\<lparr>waitingProcesses := [2, 3]\<rparr>) three_processes; t = mutex_unlock 1 1 s in
     effective_priority (procs t 3) < effective_priority (procs t 2)"
  using handed_over_without_priority [of "upd_mutex 1 (\<lambda>x. x\<lparr>waitingProcesses := [2, 3]\<rparr>) three_processes" 1 1 2 3 "[]"]
  by (simp add: create_process_def Let_def)

end
