(* ===== verification/KS_Runs.thy ===== *)
theory KS_Runs
  imports KS_Locks
begin

text \<open>
  Kernel Scheduler as a whole: a step is a message handled to its end, a turn of one of the
  schedulers, a step of a waiting thread, or a connection that comes or goes. Every run keeps the
  lists, the mutexes and the clients in order.
\<close>

section \<open>Operations that do not concern the mutexes\<close>

definition awaits_mutex :: "ks_state \<Rightarrow> process \<Rightarrow> bool" where
  "awaits_mutex s p \<longleftrightarrow> (\<exists>m. waits_for s p m)"

text \<open>The mutexes, the processes and the clients are the same, and who waits for a mutex still does.\<close>

definition keeps_locks :: "ks_state \<Rightarrow> ks_state \<Rightarrow> bool" where
  "keeps_locks s t \<longleftrightarrow>
     mutexes t = mutexes s \<and> list_mutexes t = list_mutexes s \<and> list_processes t = list_processes s \<and>
     all_clients t = all_clients s \<and> (\<forall>p. owned_mutexes (procs t p) = owned_mutexes (procs s p)) \<and>
     (\<forall>p. awaits_mutex s p \<longrightarrow> proc_state (procs t p) \<in> {BLOCK, SUSP_BLOCK})"

lemma keeps_locks_refl: "mutexes_ok s \<Longrightarrow> keeps_locks s s"
  by (auto simp: keeps_locks_def awaits_mutex_def dest: waiting_state)

lemma keeps_locks_mutexes: "mutexes_ok s \<Longrightarrow> keeps_locks s t \<Longrightarrow> mutexes_ok t"
  by (rule mutexes_ok_frame) (auto simp: keeps_locks_def awaits_mutex_def)

lemma all_clients_frame [simp]:
  "all_clients (on_queue i f s) = all_clients s" "all_clients (add_process_to_ready_queue p s) = all_clients s"
  "all_clients (add_process_at_start_of_ready_queue p s) = all_clients s"
  "all_clients (remove_process_from_ready_queue p s) = all_clients s"
  "all_clients (exec_add p s) = all_clients s" "all_clients (block_add p s) = all_clients s"
  "all_clients (exec_remove p s) = all_clients s" "all_clients (block_remove p s) = all_clients s"
  "all_clients (free_cpu c s) = all_clients s" "all_clients (wake_scheduler s) = all_clients s"
  "all_clients (add_waiter w s) = all_clients s" "all_clients (send_process_end pid s) = all_clients s"
  "all_clients (upd_proc p h s) = all_clients s" "all_clients (upd_client c k s) = all_clients s"
  "all_clients (ks_send t pkg s) = all_clients s" "all_clients (send_pid_to_execute pid co s) = all_clients s"
  "all_clients (evict_process co reason b s) = all_clients s" "all_clients (upd_mutex m g s) = all_clients s"
  by (auto simp: all_clients_def on_queue_def add_process_to_ready_queue_def add_process_at_start_of_ready_queue_def
      remove_process_from_ready_queue_def exec_add_def block_add_def free_cpu_def store_defs exec_remove_def
      block_remove_def send_process_end_def send_pid_to_execute_def evict_process_def send_process_evict_def
      split: option.split)

lemma keeps_locks_steps [simp]:
  "keeps_locks s (add_process_to_ready_queue p t) = keeps_locks s t"
  "keeps_locks s (add_process_at_start_of_ready_queue p t) = keeps_locks s t"
  "keeps_locks s (remove_process_from_ready_queue p t) = keeps_locks s t"
  "keeps_locks s (exec_add p t) = keeps_locks s t" "keeps_locks s (block_add p t) = keeps_locks s t"
  "keeps_locks s (exec_remove p t) = keeps_locks s t" "keeps_locks s (block_remove p t) = keeps_locks s t"
  "keeps_locks s (free_cpu c t) = keeps_locks s t" "keeps_locks s (wake_scheduler t) = keeps_locks s t"
  "keeps_locks s (add_waiter w t) = keeps_locks s t" "keeps_locks s (send_process_end pid t) = keeps_locks s t"
  "keeps_locks s (upd_client c k t) = keeps_locks s t" "keeps_locks s (ks_send x pkg t) = keeps_locks s t"
  "keeps_locks s (send_pid_to_execute pid co t) = keeps_locks s t"
  "keeps_locks s (evict_process co reason b t) = keeps_locks s t"
  by (simp_all add: keeps_locks_def)

lemma keeps_locks_upd_proc:
  assumes "keeps_locks s t" and "\<And>r. owned_mutexes (f r) = owned_mutexes r"
    and "awaits_mutex s p \<Longrightarrow> proc_state (procs t p) \<in> {BLOCK, SUSP_BLOCK} \<Longrightarrow>
           proc_state (f (procs t p)) \<in> {BLOCK, SUSP_BLOCK}"
  shows "keeps_locks s (upd_proc p f t)"
  using assms by (auto simp: keeps_locks_def)

lemma keeps_locks_fields:
  assumes "mutexes t' = mutexes t" and "list_mutexes t' = list_mutexes t"
    and "list_processes t' = list_processes t" and "all_clients t' = all_clients t" and "procs t' = procs t"
  shows "keeps_locks s t' = keeps_locks s t"
  using assms by (simp add: keeps_locks_def)

lemma keeps_locks_trans: "keeps_locks s t \<Longrightarrow> keeps_locks t u \<Longrightarrow> keeps_locks s u"
  by (simp add: keeps_locks_def awaits_mutex_def waits_for_def)

text \<open>Who does not wait: a process in execution, a new one, a suspended one that is ready, and one
  that waits for a device.\<close>

lemma not_awaiting:
  assumes "mutexes_ok s" and "proc_state (procs s p) \<notin> {BLOCK, SUSP_BLOCK}"
  shows "\<not> awaits_mutex s p"
  using waiting_state(1) [OF assms(1)] assms(2) by (auto simp: awaits_mutex_def)

lemmas keeps_intros = keeps_locks_upd_proc keeps_locks_refl

lemma keep_dispatch_one:
  "keeps_locks s t \<Longrightarrow> \<not> awaits_mutex s p \<Longrightarrow> keeps_locks s (dispatch_one now p c t)"
  by (auto simp: dispatch_one_def Let_def process_setters intro!: keeps_locks_upd_proc)

lemma keep_preempt [simp]: "keeps_locks s (preempt p t) = keeps_locks s t"
  by (simp add: preempt_def split: option.split)

lemma keep_dispatch_loop:
  "pool_ok A t \<Longrightarrow> keeps_locks s t \<Longrightarrow> keeps_locks s (dispatch_loop now t)"
proof (induction now t rule: dispatch_loop.induct)
  case (1 now t)
  show ?case
  proof (cases "get_next_process_to_execute t")
    case None
    then show ?thesis using "1.prems" by (simp add: dispatch_loop.simps [of now t])
  next
    case (Some p)
    have "chosen t p" using Some "1.prems" by (simp add: next_process_chosen)
    note p = chosen_ready(1,2) [OF "1.prems"(1) this]
    have "\<not> awaits_mutex s p" using "1.prems"(2) p(2) by (auto simp: keeps_locks_def)
    then have "keeps_locks s (dispatch_one now p c t)" for c using "1.prems"(2) by (simp add: keep_dispatch_one)
    moreover have "pool_ok A (dispatch_one now p c t)" if "get_available_cpu t = Some c" for c
      using p available_cpu [OF that] "1.prems"(1) by (intro pool_dispatch_one) (simp_all add: cpu_free_def)
    ultimately show ?thesis
      using Some "1.IH" "1.prems" by (cases "get_available_cpu t") (simp_all add: dispatch_loop.simps [of now t])
  qed
qed

lemma keep_quantum_pass [simp]: "keeps_locks s (quantum_pass now t) = keeps_locks s t"
  by (induction now t rule: quantum_pass.induct)
    (subst quantum_pass.simps, simp split: option.split)

lemma keep_suspend_one: "keeps_locks s t \<Longrightarrow> keeps_locks s (suspend_one p t)"
  by (auto simp: suspend_one_def process_setters intro!: keeps_locks_upd_proc)

lemma keep_suspend_scan:
  "keeps_locks s t \<Longrightarrow> keeps_locks s (snd (suspend_scan now ps xs t))"
  by (induction now ps xs t rule: suspend_scan.induct)
    (simp_all add: keep_suspend_one)

lemma keep_fold_swap_out [simp]: "keeps_locks s (fold send_swap_out ps t) = keeps_locks s t"
  by (induction ps arbitrary: t) (simp_all add: send_swap_out_def)

lemma keep_suspension_manager_turn: "mutexes_ok s \<Longrightarrow> keeps_locks s (suspension_manager_turn now s)"
  using keep_suspend_scan [OF keeps_locks_refl, of s now "block_processes s" "[]"]
  by (auto simp: suspension_manager_turn_def keeps_locks_refl split: prod.split)

lemma keep_block_process:
  "keeps_locks s t \<Longrightarrow> keeps_locks s (block_process now p t)"
  by (auto simp: block_process_def process_setters intro!: keeps_locks_upd_proc)

lemma runs_not_awaiting:
  "sched_inv s \<Longrightarrow> mutexes_ok s \<Longrightarrow> runs_on (set (list_processes s)) s p c \<Longrightarrow> \<not> awaits_mutex s p"
  unfolding sched_inv_def by (rule not_awaiting) (auto dest: runs_onD(3))

lemma keep_confirmed:
  assumes "sched_inv s" and "mutexes_ok s"
  shows "keeps_locks s (confirmed_and_handle_state c s)" "keeps_locks s (confirmed c s)"
    and "keeps_locks s (evicted_one c s)"
proof -
  have "\<not> awaits_mutex s p" if "get_process_from_cpu s c = Some p" for p
    using that runs_not_awaiting [OF assms] by (simp add: from_cpu_iff assms(1))
  then show "keeps_locks s (confirmed_and_handle_state c s)" "keeps_locks s (confirmed c s)"
    and "keeps_locks s (evicted_one c s)"
    using keeps_locks_refl [OF assms(2)]
    by (auto simp: confirmed_and_handle_state_def confirmed_def evicted_one_def Let_def normal
        intro!: keeps_locks_upd_proc split: option.split)
qed

lemma keep_process_end_message:
  assumes "mutexes_ok s" and "\<And>p. get_process_from_pid s pid = Some p \<Longrightarrow> \<not> awaits_mutex s p"
  shows "keeps_locks s (process_end_message pid c s)"
  using assms keeps_locks_refl [OF assms(1)]
  by (auto simp: process_end_message_def Let_def normal intro!: keeps_locks_upd_proc split: option.split)

lemma keep_io_calls:
  assumes "mutexes_ok s"
  shows "keeps_locks s (sleep_syscall_manager now p c t s)" "keeps_locks s (stdout_syscall_manager now p c a n s)"
    and "n \<noteq> 0 \<Longrightarrow> keeps_locks s (stdin_syscall_manager now p c a n s)"
proof -
  let ?t = "set_available True c (block_process now p s)"
  have t: "keeps_locks s ?t" using assms by (simp add: keep_block_process keeps_locks_refl)
  have "keeps_locks s (?t\<lparr>pending_request_io_sleep := x\<rparr>)" "keeps_locks s (?t\<lparr>pending_io_stdin_reading := y\<rparr>)"
    "keeps_locks s (?t\<lparr>pending_io_stdin_reading := y, pending_request_io_stdin := z\<rparr>)" for x y z
    using t by (subst keeps_locks_fields [where t = ?t]; simp add: all_clients_def)+
  then show "keeps_locks s (sleep_syscall_manager now p c t s)" "keeps_locks s (stdout_syscall_manager now p c a n s)"
    and "n \<noteq> 0 \<Longrightarrow> keeps_locks s (stdin_syscall_manager now p c a n s)"
    using t by (auto simp: sleep_syscall_manager_def stdout_syscall_manager_def stdin_syscall_manager_def Let_def
        send_memory_read_def split: option.split)
qed

lemma keep_unblock_process:
  "keeps_locks s t \<Longrightarrow> \<not> awaits_mutex s p \<Longrightarrow> keeps_locks s (unblock_process p t)"
  by (auto simp: unblock_process_def Let_def process_setters intro!: keeps_locks_upd_proc)

lemma keep_handle_segment_result:
  assumes "mutexes_ok s" and "\<And>p. get_process_from_pid s pid = Some p \<Longrightarrow> \<not> awaits_mutex s p"
  shows "keeps_locks s (handle_segment_result pid result s)"
  using assms keeps_locks_refl [OF assms(1)]
  by (auto simp: handle_segment_result_def Let_def process_setters intro!: keeps_locks_upd_proc split: option.split)

lemma keep_pending_syscalls:
  assumes "mutexes_ok s"
  shows "keeps_locks s (mem_alloc_syscall_manager pid sid sz s)" "keeps_locks s (mem_free_syscall_manager pid sid s)"
  using keeps_locks_refl [OF assms]
  by (auto simp: mem_alloc_syscall_manager_def mem_free_syscall_manager_def process_setters
      intro!: keeps_locks_upd_proc split: option.split)

lemma sched_pending_syscalls:
  assumes "sched_inv s"
  shows "sched_inv (mem_alloc_syscall_manager pid sid sz s)" "sched_inv (mem_free_syscall_manager pid sid s)"
  using assms by (auto simp: mem_alloc_syscall_manager_def mem_free_syscall_manager_def process_setters
      sched_inv_def pool_ok_keep_proc split: option.split)

lemma keep_create_confirmation:
  assumes "mutexes_ok s" and "\<And>p. get_process_from_pid s pid = Some p \<Longrightarrow> \<not> awaits_mutex s p"
  shows "keeps_locks s (wait_process_create_confirmation pid s)"
  using assms keeps_locks_refl [OF assms(1)]
  by (auto simp: wait_process_create_confirmation_def process_setters intro!: keeps_locks_upd_proc split: option.split)

lemma keep_swap_out:
  assumes "mutexes_ok s" shows "keeps_locks s (wait_confirmation_swap_out now pid ok s)"
proof -
  have "keeps_locks s (s\<lparr>suspended_processes := x\<rparr>)" for x
    using keeps_locks_refl [OF assms] by (subst keeps_locks_fields [where t = s]) (simp_all add: all_clients_def)
  moreover have "\<not> awaits_mutex s p" if "proc_state (procs s p) = SUSP_READY" for p
    using that assms by (intro not_awaiting) simp_all
  ultimately show ?thesis using keeps_locks_refl [OF assms]
    by (auto simp: wait_confirmation_swap_out_def Let_def process_setters intro!: keeps_locks_upd_proc split: option.split)
qed

lemma keep_swapped_in:
  assumes "keeps_locks s (snd r)" shows "keeps_locks s (snd (swapped_in now pid r))"
proof -
  obtain b t where r: "r = (b, t)" by (cases r)
  have "keeps_locks s (t\<lparr>suspended_processes := x\<rparr>)" for x
    using assms by (subst keeps_locks_fields [where t = t]) (simp_all add: all_clients_def r)
  moreover have "\<not> awaits_mutex s p" if "proc_state (procs t p) = SUSP_READY" for p
    using that assms by (auto simp: keeps_locks_def r)
  ultimately show ?thesis using assms
    by (auto simp: swapped_in_def r Let_def process_setters intro!: keeps_locks_upd_proc split: option.split)
qed

lemma keep_swap_in:
  assumes "mutexes_ok s" shows "keeps_locks s (wait_confirmation_swap_in now pids s)"
proof -
  have "keeps_locks s (snd r) \<Longrightarrow> keeps_locks s (snd (fold (swapped_in now) pids r))" for r
    by (induction pids arbitrary: r) (simp_all add: keep_swapped_in)
  from this [of "(False, s)"] show ?thesis
    using keeps_locks_refl [OF assms] by (auto simp: wait_confirmation_swap_in_def split: prod.split)
qed

text \<open>The orders to evict everything.\<close>

lemma send_process_evict_same:
  "pool_ok A (snd (send_process_evict cpu reason s)) = pool_ok A s"
  "keeps_locks u (snd (send_process_evict cpu reason s)) = keeps_locks u s"
  "list_processes (snd (send_process_evict cpu reason s)) = list_processes s"
  by (auto simp: send_process_evict_def pool_ok_upd_client split: option.split)

lemma evict_each_same:
  "pool_ok A (snd (evict_each cpus reason s)) = pool_ok A s \<and>
   keeps_locks u (snd (evict_each cpus reason s)) = keeps_locks u s \<and>
   list_processes (snd (evict_each cpus reason s)) = list_processes s"
proof (induction cpus arbitrary: s)
  case (Cons c cpus)
  have "snd (evict_each (c # cpus) reason s) = snd (evict_each cpus reason (snd (send_process_evict c reason s)))"
    by (simp add: split_beta Let_def)
  then show ?case using Cons.IH by (simp only: send_process_evict_same)
qed simp

lemma evict_all_orders_same:
  "sched_inv (evict_all_orders reason s) = sched_inv s"
  "keeps_locks u (evict_all_orders reason s) = keeps_locks u s"
  using evict_each_same [of _ "map (\<lambda>p. proc_cpu (procs s p)) (exec_processes s)" reason s]
  by (auto simp: evict_all_orders_def Let_def sched_inv_def split: prod.split)

text \<open>The devices. Their clients are no CPUs.\<close>

lemma no_cpu_unused:
  "sched_inv s \<Longrightarrow> c \<notin> set (list_cpu s) \<Longrightarrow> \<not> runs_on (set (list_processes s)) s p c"
  by (auto simp: sched_inv_def dest: runs_onD(4))

lemma sched_available: "sched_inv s \<Longrightarrow> c \<notin> set (list_cpu s) \<Longrightarrow> sched_inv (set_available True c s)"
  using no_cpu_unused [of s c] by (simp add: sched_inv_def pool_ok_available)

lemma next_operation_keeps:
  "sched_inv s \<Longrightarrow> sched_inv (handle_next_operation io io_type s)"
proof -
  assume s: "sched_inv s"
  have "sched_inv (s\<lparr>pending_request_io_sleep := x\<rparr>)" "sched_inv (s\<lparr>pending_request_io_stdin := x\<rparr>)"
    "sched_inv (s\<lparr>pending_request_io_stdout := y\<rparr>)" for x y
    using s by (subst sched_inv_fields [where s = s]; simp)+
  with s show ?thesis
    by (auto simp: handle_next_operation_def sched_unavailable split: t_io_type.split list.split)
qed

lemma next_operation_same: "keeps_locks s (handle_next_operation io io_type t) = keeps_locks s t"
proof -
  have "keeps_locks s (t\<lparr>pending_request_io_sleep := x\<rparr>) = keeps_locks s t"
    "keeps_locks s (t\<lparr>pending_request_io_stdin := x\<rparr>) = keeps_locks s t"
    "keeps_locks s (t\<lparr>pending_request_io_stdout := y\<rparr>) = keeps_locks s t" for x y
    by (rule keeps_locks_fields; simp add: all_clients_def)+
  then show ?thesis by (auto simp: handle_next_operation_def split: t_io_type.split list.split)
qed

definition blocked_for_io :: "ks_state \<Rightarrow> process \<Rightarrow> bool" where
  "blocked_for_io s p \<longleftrightarrow>
     p \<in> set (list_processes s) \<and> proc_state (procs s p) \<in> {BLOCK, SUSP_BLOCK} \<and> \<not> awaits_mutex s p"

lemma unblock_frame [simp]: "list_processes (unblock_process p s) = list_processes s" "list_cpu (unblock_process p s) = list_cpu s"
  by (simp_all add: unblock_process_def Let_def process_setters)

lemma io_finish_process_keeps:
  assumes "sched_inv s" and "mutexes_ok s" and "io \<notin> set (list_cpu s)"
    and "\<And>p. get_process_from_pid s pid = Some p \<Longrightarrow> blocked_for_io s p"
  shows "sched_inv (io_finish_process pid io s)" and "keeps_locks s (io_finish_process pid io s)"
  using assms keeps_locks_refl [OF assms(2)]
  by (auto simp: io_finish_process_def blocked_for_io_def unblock_process_keeps keep_unblock_process
      intro!: sched_available split: option.split)

lemma memory_write_confirmed_keeps:
  assumes "sched_inv s" and "mutexes_ok s" and "blocked_for_io s p"
  shows "sched_inv (memory_write_confirmed p s)" and "keeps_locks s (memory_write_confirmed p s)"
proof -
  let ?t = "upd_proc p (\<lambda>r. r\<lparr>memory_request_sem := memory_request_sem r - 1\<rparr>) s"
  have "sched_inv ?t" using assms(1) by (simp add: sched_inv_def pool_ok_keep_proc)
  then show "sched_inv (memory_write_confirmed p s)"
    using assms(3) by (auto simp: memory_write_confirmed_def blocked_for_io_def intro!: unblock_process_keeps)
  have "keeps_locks s ?t" using keeps_locks_refl [OF assms(2)] by (auto intro: keeps_locks_upd_proc)
  then show "keeps_locks s (memory_write_confirmed p s)"
    using assms(3) by (simp add: memory_write_confirmed_def blocked_for_io_def keep_unblock_process)
qed

lemma stdout_wait_memory_read_keeps:
  assumes "sched_inv s" and "mutexes_ok s" and "value \<noteq> []"
  shows "yields (\<lambda>t. sched_inv t \<and> keeps_locks s t) (stdout_wait_memory_read pid value s)"
proof -
  have "sched_inv (s\<lparr>pending_request_io_stdout := x\<rparr>)" "keeps_locks s (s\<lparr>pending_request_io_stdout := x\<rparr>)" for x
    using assms(1) keeps_locks_refl [OF assms(2)]
    by (subst sched_inv_fields [where s = s], simp_all) (subst keeps_locks_fields [where t = s], simp_all add: all_clients_def)
  then show ?thesis
    using assms(1,3) keeps_locks_refl [OF assms(2)]
    by (auto simp: stdout_wait_memory_read_def Let_def sched_unavailable split: option.split)
qed

lemma stdin_answer_keeps:
  assumes "sched_inv s" and "mutexes_ok s" and "io \<notin> set (list_cpu s)"
  shows "yields (\<lambda>t. sched_inv t \<and> keeps_locks s t) (stdin_answer io io_type x s)"
proof -
  have p: "sched_inv (s\<lparr>pending_io_stdin_reading := y\<rparr>)" "keeps_locks s (s\<lparr>pending_io_stdin_reading := y\<rparr>)" for y
    using assms(1) keeps_locks_refl [OF assms(2)]
    by (subst sched_inv_fields [where s = s], simp_all) (subst keeps_locks_fields [where t = s], simp_all add: all_clients_def)
  then show ?thesis using assms(1,3) keeps_locks_refl [OF assms(2)]
    by (auto simp: stdin_answer_def Let_def send_memory_write_def next_operation_same
        intro!: yields_and_then next_operation_keeps sched_available split: option.split)
qed

lemma io_memory_write_answer_keeps:
  assumes "sched_inv s" and "mutexes_ok s"
  shows "yields (\<lambda>t. sched_inv t \<and> keeps_locks s t) (io_memory_write_answer pid True s)"
  using assms(1) keeps_locks_refl [OF assms(2)]
  by (auto simp: io_memory_write_answer_def sched_inv_def pool_ok_keep_proc
      intro!: yields_and_then keeps_locks_upd_proc)

text \<open>Processes and clients that are new or gone.\<close>

lemma long_term_scheduler_keeps_mutexes:
  assumes "mutexes_ok s" shows "mutexes_ok (long_term_scheduler path priority s)"
proof -
  let ?t = "long_term_scheduler path priority s" and ?p = "fresh (list_processes s)"
  have t: "mutexes ?t = mutexes s" "list_mutexes ?t = list_mutexes s" "list_processes ?t = list_processes s @ [?p]"
    "procs ?t = (procs s)(?p := create_process (current_max_pid s) (ucast priority))"
    by (simp_all add: long_term_defs Let_def send_process_create_info_def ks_send_def)
  have new: "?p \<notin> set (list_processes s)" by (rule fresh_not_in)
  have "waits_for ?t = waits_for s" by (simp add: waits_for_def fun_eq_iff t)
  moreover have "mutex_ok ?t (mutexes s m)" if "m \<in> set (list_mutexes s)" for m
    using mutexes_okD(1) [OF assms that] new by (auto simp: mutex_ok_def t)
  moreover have "lockedBy (mutexes s m) \<noteq> Some ?p" if "m \<in> set (list_mutexes s)" for m
    using mutexes_okD(1) [OF assms that] new by (auto simp: mutex_ok_def)
  ultimately show ?thesis using assms new by (auto simp: mutexes_ok_def t create_process_def)
qed

lemma mutexes_ok_clients:
  assumes "mutexes_ok s" and "mutexes t = mutexes s" and "list_mutexes t = list_mutexes s"
    and "list_processes t = list_processes s" and "procs t = procs s"
  shows "mutexes_ok t"
  using assms by (intro mutexes_ok_frame [OF assms(1-4)]) (auto dest: waiting_state)

lemma io_connected_keeps:
  assumes "sched_inv s" shows "sched_inv (snd (io_connected io_fd io_type s))"
proof -
  let ?io = "fresh (all_clients s)"
  obtain i nxt pkg where a: "id_assigner (next_io_id s) = (i, nxt, pkg)" by (metis prod_cases3)
  define t where "t = upd_client ?io (\<lambda>_. create_client_info io_fd i) s"
  have "?io \<notin> set (list_cpu s)" using fresh_not_in [of "all_clients s"] by (auto simp: all_clients_def)
  then have "\<not> runs_on (set (list_processes s)) s p ?io" for p by (rule no_cpu_unused [OF assms])
  then have t: "sched_inv t" unfolding t_def sched_inv_def using assms
    by (simp add: sched_inv_def) (rule pool_ok_clients, auto)
  have "sched_inv u" if "scheduler_algorithm u = scheduler_algorithm t" "queue_algorithms_count u = queue_algorithms_count t"
    "procs u = procs t" "ready_queue u = ready_queue t" "exec_processes u = exec_processes t"
    "block_processes u = block_processes t" "list_cpu u = list_cpu t" "clients u = clients t"
    "list_processes u = list_processes t" for u
    using t sched_inv_fields [OF that] by simp
  then show ?thesis
    by (auto simp: io_connected_def a Let_def t_def ks_send_def upd_client_def intro!: next_operation_keeps
        split: t_io_type.split)
qed

lemma io_connected_mutexes:
  assumes "mutexes_ok s" shows "mutexes_ok (snd (io_connected io_fd io_type s))"
proof -
  obtain i nxt pkg where a: "id_assigner (next_io_id s) = (i, nxt, pkg)" by (metis prod_cases3)
  have nextop: "mutexes (handle_next_operation io ty u) = mutexes u" "list_mutexes (handle_next_operation io ty u) = list_mutexes u"
    "list_processes (handle_next_operation io ty u) = list_processes u" "procs (handle_next_operation io ty u) = procs u" for io ty u
    by (simp_all add: handle_next_operation_def split: t_io_type.split list.split)
  show ?thesis
    by (rule mutexes_ok_clients [OF assms]) (simp_all add: io_connected_def a Let_def nextop split: t_io_type.split)
qed

lemma io_disconnected_keeps:
  "sched_inv s \<Longrightarrow> sched_inv (io_disconnected io io_type s)" "mutexes_ok s \<Longrightarrow> mutexes_ok (io_disconnected io io_type s)"
proof -
  show "sched_inv (io_disconnected io io_type s)" if "sched_inv s"
    using that by (subst sched_inv_fields [where s = s]) (simp_all add: io_disconnected_def split: t_io_type.split)
  show "mutexes_ok (io_disconnected io io_type s)" if "mutexes_ok s"
    by (rule mutexes_ok_clients [OF that]) (simp_all add: io_disconnected_def split: t_io_type.split)
qed

lemma connection_mutexes:
  assumes "mutexes_ok s"
  shows "mutexes_ok (ks_cpu_connected cpu_fd i s)"
  by (rule mutexes_ok_clients [OF assms])
    (simp_all add: ks_cpu_connected_def Let_def wake_scheduler_def)

lemma cpu_disconnection_mutexes:
  assumes "sched_inv s" and "mutexes_ok s"
  shows "mutexes_ok (handle_cpu_disconnection c s)"
proof -
  have "\<not> awaits_mutex s p" if "get_process_from_cpu s c = Some p" for p
    using that runs_not_awaiting [OF assms] by (simp add: from_cpu_iff assms(1))
  then have "keeps_locks s (case get_process_from_cpu s c of None \<Rightarrow> s
      | Some p \<Rightarrow> upd_proc p (\<lambda>r. r\<lparr>start_exec_time := 0\<rparr>) (exec_remove p (add_process_to_ready_queue p
          (process_set_cpu None p (process_set_state READY p s)))))"
    using keeps_locks_refl [OF assms(2)] by (auto simp: process_setters intro!: keeps_locks_upd_proc split: option.split)
  from keeps_locks_mutexes [OF assms(2) this] show ?thesis
    unfolding handle_cpu_disconnection_def Let_def by (rule mutexes_ok_clients) simp_all
qed

section \<open>Steps\<close>

definition ks_inv :: "ks_state \<Rightarrow> bool" where
  "ks_inv s \<longleftrightarrow> sched_inv s \<and> mutexes_ok s \<and> distinct (all_clients s)"

lemma ks_invD: "ks_inv s \<Longrightarrow> sched_inv s" "ks_inv s \<Longrightarrow> mutexes_ok s" "ks_inv s \<Longrightarrow> distinct (list_cpu s)"
  by (auto simp: ks_inv_def all_clients_def)

lemma ks_inv_keeps: "ks_inv s \<Longrightarrow> sched_inv t \<Longrightarrow> keeps_locks s t \<Longrightarrow> ks_inv t"
  by (auto simp: ks_inv_def keeps_locks_mutexes) (simp add: keeps_locks_def)

text \<open>The protocol. A CPU reports on the process it was given; \<open>MUTEX_LOCK\<close> and \<open>MUTEX_UNLOCK\<close> name
  a mutex that exists, \<open>STDIN\<close> reads at least a byte.\<close>

definition reports :: "ks_state \<Rightarrow> client \<Rightarrow> u32 \<Rightarrow> bool" where
  "reports s cpu pid \<longleftrightarrow> (\<exists>p. get_process_from_pid s pid = Some p \<and> proc_cpu (procs s p) = Some cpu)"

definition cpu_protocol :: "(string \<Rightarrow> string \<Rightarrow> bool) \<Rightarrow> client \<Rightarrow> op_code \<Rightarrow> byte list \<Rightarrow> ks_state \<Rightarrow> bool" where
  "cpu_protocol eq cpu op buffer s \<longleftrightarrow>
     (op \<in> {PROCESS_END, SEGMENTATION_FAULT} \<longrightarrow>
        (\<forall>pid b. uint32_deserialize buffer = Some (pid, b) \<longrightarrow> reports s cpu pid)) \<and>
     (op \<in> {MUTEX_LOCK, MUTEX_UNLOCK} \<longrightarrow>
        (\<forall>pid name. receive_pid_and_name buffer = Some (pid, name) \<longrightarrow>
           reports s cpu pid \<and> get_mutex_by_name eq s name \<noteq> None)) \<and>
     (op = SLEEP \<longrightarrow> (\<forall>pid t. receive_instruction_sleep buffer = Some (pid, t) \<longrightarrow> reports s cpu pid)) \<and>
     (op = STDOUT \<longrightarrow> (\<forall>pid a n. receive_instruction_std buffer = Some (pid, a, n) \<longrightarrow> reports s cpu pid)) \<and>
     (op = STDIN \<longrightarrow>
        (\<forall>pid a n. receive_instruction_std buffer = Some (pid, a, n) \<longrightarrow> reports s cpu pid \<and> n \<noteq> 0))"

text \<open>Kernel Memory confirms the creation of a process once, answers a segment request of a process
  that still waits for it, and the accesses for the devices succeed.\<close>

definition memory_protocol :: "op_code \<Rightarrow> byte list \<Rightarrow> ks_state \<Rightarrow> bool" where
  "memory_protocol op buffer s \<longleftrightarrow>
     (op = PROCESS_CREATE \<longrightarrow> (\<forall>pid b p. uint32_deserialize buffer = Some (pid, b) \<longrightarrow>
        get_process_from_pid s pid = Some p \<longrightarrow> proc_state (procs s p) = NEW)) \<and>
     (op = SEGMENT_RESULT \<longrightarrow> (\<forall>pid sid r p. receive_segment_result buffer = Some (pid, sid, r) \<longrightarrow>
        get_process_from_pid s pid = Some p \<longrightarrow> proc_state (procs s p) = EXEC)) \<and>
     (op = IO_MEMORY_READ \<longrightarrow> (\<forall>pid v. receive_read_value_io_memory_read buffer = Some (pid, v) \<longrightarrow> v \<noteq> [])) \<and>
     (op = IO_MEMORY_WRITE \<longrightarrow> (\<forall>pid ok. receive_confirmation_io_memory_write buffer = Some (pid, ok) \<longrightarrow> ok))"

text \<open>A device confirms the operation of a process that waits for it; a write to memory is
  confirmed for a process that waits for it.\<close>

definition io_protocol :: "client \<Rightarrow> op_code \<Rightarrow> byte list \<Rightarrow> ks_state \<Rightarrow> bool" where
  "io_protocol io op buffer s \<longleftrightarrow>
     io \<in> set (list_io_sleep s @ list_io_stdin s @ list_io_stdout s) \<and>
     (op = CONFIRMATION \<longrightarrow> (\<forall>pid b p. uint32_deserialize buffer = Some (pid, b) \<longrightarrow>
        get_process_from_pid s pid = Some p \<longrightarrow> blocked_for_io s p))"

definition waiter_protocol :: "waiter \<Rightarrow> ks_state \<Rightarrow> bool" where
  "waiter_protocol w s \<longleftrightarrow> (\<forall>p. w = Wait_memory_write p \<longrightarrow> blocked_for_io s p)"

inductive ks_step ::
  "(string \<Rightarrow> string \<Rightarrow> bool) \<Rightarrow> ((process \<Rightarrow> process \<Rightarrow> bool) \<Rightarrow> process list \<Rightarrow> process list) \<Rightarrow> ks_state \<Rightarrow> ks_state \<Rightarrow> bool"
  for eq list_sort where
  dispatch: "short_term_scheduler_turn now s = Some t \<Longrightarrow> ks_step eq list_sort s t"
| quantum: "ks_step eq list_sort s (quantum_manager_turn now s)"
| suspension: "ks_step eq list_sort s (suspension_manager_turn now s)"
| waiter: "waiter_turn w s = Some t \<Longrightarrow> waiter_protocol w s \<Longrightarrow> ks_step eq list_sort s t"
| creates: "ks_step eq list_sort s (long_term_scheduler path priority s)"
| cpu_connects: "ks_step eq list_sort s (ks_cpu_connected cpu_fd i s)"
| cpu_leaves: "ks_step eq list_sort s (handle_cpu_disconnection cpu s)"
| cpu_message: "ks_cpu_handler eq now cpu op buffer s = Ret t \<Longrightarrow> cpu_protocol eq cpu op buffer s \<Longrightarrow>
    ks_step eq list_sort s t"
| memory_message: "ks_kernel_memory_handler list_sort now op buffer s = Ret t \<Longrightarrow> memory_protocol op buffer s \<Longrightarrow>
    ks_step eq list_sort s t"
| io_connects: "ks_step eq list_sort s (snd (io_connected io_fd io_type s))"
| io_leaves: "ks_step eq list_sort s (io_disconnected io io_type s)"
| io_message: "ks_io_handler io io_type op buffer s = Ret t \<Longrightarrow> io_protocol io op buffer s \<Longrightarrow>
    ks_step eq list_sort s t"

lemma reports_process:
  assumes "ks_inv s" and "reports s cpu pid"
  obtains p where "get_process_from_pid s pid = Some p" "runs_on (set (list_processes s)) s p cpu"
    "p \<in> set (list_processes s)" "proc_state (procs s p) = EXEC" "\<not> awaits_mutex s p"
proof -
  obtain p where p: "get_process_from_pid s pid = Some p" "proc_cpu (procs s p) = Some cpu"
    using assms(2) by (auto simp: reports_def)
  then have r: "runs_on (set (list_processes s)) s p cpu" by (simp add: runs_on_def from_pid)
  moreover have "proc_state (procs s p) = EXEC"
    using runs_onD(3) [OF _ r] ks_invD(1) [OF assms(1)] by (simp add: sched_inv_def)
  moreover have "\<not> awaits_mutex s p" using runs_not_awaiting [OF ks_invD(1,2) r] assms(1) by simp
  ultimately show ?thesis using that p(1) by (simp add: from_pid)
qed

lemma priority_clients [simp]:
  "all_clients (change_priority pr p s) = all_clients s" "all_clients (inherit_priority p q s) = all_clients s"
  "all_clients (restore_priority p s) = all_clients s" "all_clients (block_process now p s) = all_clients s"
  by (simp_all add: change_priority_def inherit_priority_def restore_priority_def Let_def block_process_def
      process_setters)

text \<open>The mutex calls, for processes that are known to run.\<close>

lemma mutex_calls_keep:
  assumes "ks_inv s" and "runs_on (set (list_processes s)) s p c" and "m \<in> set (list_mutexes s)"
  shows "yields ks_inv (mutex_lock now m p s)" and "ks_inv (mutex_unlock m p s)"
proof -
  note inv = ks_invD [OF assms(1)]
  have p: "p \<in> set (list_processes s)" "proc_state (procs s p) = EXEC"
    using runs_onD [OF _ assms(2)] inv(1) by (simp_all add: sched_inv_def)
  have owner: "q \<in> set (list_processes s)" if "lockedBy (mutexes s m) = Some q" for q
    using mutexes_okD(1) [OF inv(2) assms(3)] that by (simp add: mutex_ok_def)
  have clients_same: "yields (\<lambda>t. all_clients t = all_clients s) (mutex_lock now m p s)"
    by (auto simp: mutex_lock_def Let_def and_then_eq_Ret split: if_splits intro!: yields_and_then)
  have "all_clients (mutex_unlock m p s) = all_clients s"
    by (simp add: mutex_unlock_def hand_over_def Let_def process_setters split: list.split)
  then show "ks_inv (mutex_unlock m p s)"
    using inv p assms by (simp add: ks_inv_def mutex_unlock_keeps_mutexes mutex_unlock_keeps_lists)
  show "yields ks_inv (mutex_lock now m p s)"
    using mutex_lock_keeps_mutexes [OF inv(2) assms(3) p, where now = now] clients_same
      mutex_lock_keeps_lists [OF inv(1) assms(2) owner, where now = now] assms(1)
    by (simp add: yields_def ks_inv_def)
qed

lemma mutex_named: "get_mutex_by_name eq s name = Some m \<Longrightarrow> m \<in> set (list_mutexes s)"
  unfolding get_mutex_by_name_def by (drule find_Some_iff_set) simp

section \<open>Every step keeps the invariant\<close>

lemma handle_process_end_keeps:
  assumes "ks_inv s" and "reports s cpu pid"
  shows "ks_inv (process_end_message pid cpu s)"
proof -
  obtain p where p: "get_process_from_pid s pid = Some p" "runs_on (set (list_processes s)) s p cpu" "\<not> awaits_mutex s p"
    using reports_process [OF assms] by metis
  then show ?thesis
    using process_end_message_keeps [OF ks_invD(1) [OF assms(1)] p(1,2)]
      keep_process_end_message [OF ks_invD(2) [OF assms(1)], of pid cpu]
    by (intro ks_inv_keeps [OF assms(1)]) auto
qed

lemma handle_mutex_keeps:
  assumes "ks_inv s" and "reports s cpu pid" and "get_mutex_by_name eq s name \<noteq> None"
  shows "yields ks_inv (mutex_message eq (mutex_lock now) pid name cpu s)"
    and "yields ks_inv (mutex_message eq (\<lambda>m p s. Ret (mutex_unlock m p s)) pid name cpu s)"
proof -
  obtain p where p: "get_process_from_pid s pid = Some p" "runs_on (set (list_processes s)) s p cpu"
    using reports_process [OF assms(1,2)] by metis
  obtain m where m: "get_mutex_by_name eq s name = Some m" using assms(3) by auto
  note keep = mutex_calls_keep [OF assms(1) p(2) mutex_named [OF m]]
  show "yields ks_inv (mutex_message eq (mutex_lock now) pid name cpu s)"
    and "yields ks_inv (mutex_message eq (\<lambda>m p s. Ret (mutex_unlock m p s)) pid name cpu s)"
    using keep by (simp_all add: mutex_message_def p m)
qed

lemma handle_io_call_keeps:
  assumes "ks_inv s" and "reports s cpu pid"
  shows "ks_inv (with_process pid (\<lambda>p. sleep_syscall_manager now p cpu t) s)"
    and "ks_inv (with_process pid (\<lambda>p. stdout_syscall_manager now p cpu a n) s)"
    and "n \<noteq> 0 \<Longrightarrow> ks_inv (with_process pid (\<lambda>p. stdin_syscall_manager now p cpu a n) s)"
proof -
  note inv = ks_invD [OF assms(1)]
  obtain p where p: "get_process_from_pid s pid = Some p" "runs_on (set (list_processes s)) s p cpu"
    using reports_process [OF assms] by metis
  show "ks_inv (with_process pid (\<lambda>p. sleep_syscall_manager now p cpu t) s)"
    and "ks_inv (with_process pid (\<lambda>p. stdout_syscall_manager now p cpu a n) s)"
    and "n \<noteq> 0 \<Longrightarrow> ks_inv (with_process pid (\<lambda>p. stdin_syscall_manager now p cpu a n) s)"
    using keep_io_calls [OF inv(2)] sleep_syscall_manager_keeps [OF inv(1) p(2)]
      stdout_syscall_manager_keeps [OF inv(1) p(2)] stdin_syscall_manager_keeps [OF inv(1) p(2)]
    by (auto simp: with_process_def p intro: ks_inv_keeps [OF assms(1)])
qed

lemma ks_inv_create:
  assumes "ks_inv s" shows "ks_inv (mutex_create eq name s)" "ks_inv (long_term_scheduler path priority s)"
proof -
  have "all_clients (mutex_create eq name s) = all_clients s"
    by (auto simp: mutex_create_def Let_def all_clients_def split: option.split)
  moreover have "all_clients (long_term_scheduler path priority s) = all_clients s"
    by (simp add: long_term_defs Let_def all_clients_def send_process_create_info_def ks_send_def)
  ultimately show "ks_inv (mutex_create eq name s)" "ks_inv (long_term_scheduler path priority s)"
    using assms by (simp_all add: ks_inv_def mutex_create_keeps mutex_create_keeps_lists long_term_scheduler_keeps
        long_term_scheduler_keeps_mutexes)
qed

lemma ks_inv_refl: "ks_inv s \<Longrightarrow> keeps_locks s s"
  by (rule keeps_locks_refl [OF ks_invD(2)])

lemma ks_inv_send_pid: "ks_inv s \<Longrightarrow> ks_inv (send_pid_to_execute pid co s)"
  by (rule ks_inv_keeps [of s]) (simp_all add: ks_invD ks_inv_refl)

lemma cpu_handler_keeps:
  assumes "ks_inv s" and "cpu_protocol eq cpu op buffer s"
  shows "yields ks_inv (ks_cpu_handler eq now cpu op buffer s)"
proof -
  note inv = ks_invD [OF assms(1)]
  have sem: "ks_inv (upd_client cpu (\<lambda>i. i\<lparr>response_sem := response_sem i + 1\<rparr>) s)"
    using inv keeps_locks_refl [OF inv(2)]
    by (intro ks_inv_keeps [OF assms(1)]) (simp_all add: sched_inv_def pool_ok_upd_client)
  have mem: "ks_inv (mem_alloc_syscall_manager pid sid sz s)" "ks_inv (mem_free_syscall_manager pid sid s)" for pid sid sz
    using keep_pending_syscalls [OF inv(2)] sched_pending_syscalls [OF inv(1)]
    by (auto intro: ks_inv_keeps [OF assms(1)])
  show ?thesis
  proof (cases op)
    case MUTEX_LOCK
    then show ?thesis using assms handle_mutex_keeps(1)
      by (auto simp: ks_cpu_handler_def cpu_protocol_def intro!: yields_and_then)
  next
    case MUTEX_UNLOCK
    then show ?thesis using assms handle_mutex_keeps(2)
      by (auto simp: ks_cpu_handler_def cpu_protocol_def intro!: yields_and_then)
  qed (use assms mem sem in \<open>auto simp: ks_cpu_handler_def cpu_message_defs cpu_protocol_def ks_inv_create ks_inv_send_pid
      intro!: yields_and_then handle_process_end_keeps handle_io_call_keeps\<close>)
qed

lemma state_not_awaiting:
  "ks_inv s \<Longrightarrow> proc_state (procs s p) \<in> {NEW, EXEC} \<Longrightarrow> \<not> awaits_mutex s p"
  by (rule not_awaiting [OF ks_invD(2)]) auto

lemma request_swap_in_keeps: "ks_inv s \<Longrightarrow> ks_inv (request_swap_in list_sort s)"
  by (rule ks_inv_keeps [of s]) (auto simp: request_swap_in_def Let_def ks_invD ks_inv_refl)

lemma can_schedule_keeps:
  assumes "ks_inv s" shows "sched_inv (s\<lparr>can_schedule := b\<rparr>)" "keeps_locks s (s\<lparr>can_schedule := b\<rparr>)"
  using ks_invD [OF assms] keeps_locks_refl [OF ks_invD(2) [OF assms]]
  by (subst sched_inv_fields [where s = s], simp_all) (subst keeps_locks_fields [where t = s], simp_all add: all_clients_def)

lemma compaction_keeps:
  assumes "ks_inv s" shows "ks_inv (compaction_requested s)" "ks_inv (memory_corrupted s)"
  using can_schedule_keeps [OF assms]
  by (auto simp: compaction_requested_def memory_corrupted_def evict_all_orders_same intro!: ks_inv_keeps [OF assms])

lemma memory_handler_keeps:
  assumes "ks_inv s" and "memory_protocol op buffer s"
  shows "yields ks_inv (ks_kernel_memory_handler list_sort now op buffer s)"
proof -
  note inv = ks_invD [OF assms(1)]
  have sem: "ks_inv (s\<lparr>compaction_finished_sem := n\<rparr>)" for n
    using inv keeps_locks_refl [OF inv(2)]
    by (intro ks_inv_keeps [OF assms(1)])
      (subst sched_inv_fields [where s = s], simp_all, subst keeps_locks_fields [where t = s], simp_all add: all_clients_def)
  have created: "ks_inv (wait_process_create_confirmation pid s)"
    if "\<forall>p. get_process_from_pid s pid = Some p \<longrightarrow> proc_state (procs s p) = NEW" for pid
    using that wait_process_create_confirmation_keeps [OF inv(1), of pid] keep_create_confirmation [OF inv(2), of pid]
      state_not_awaiting [OF assms(1)] by (intro ks_inv_keeps [OF assms(1)]) auto
  have segment: "ks_inv (handle_segment_result pid r s)"
    if "\<forall>p. get_process_from_pid s pid = Some p \<longrightarrow> proc_state (procs s p) = EXEC" for pid r
    using that handle_segment_result_keeps [OF inv(1), of pid r] keep_handle_segment_result [OF inv(2), of pid r]
      state_not_awaiting [OF assms(1)] by (intro ks_inv_keeps [OF assms(1)]) auto
  have swap: "ks_inv (wait_confirmation_swap_in now pids s)" "ks_inv (wait_confirmation_swap_out now pid ok s)" for pids pid ok
    using wait_confirmation_swap_in_keeps [OF inv(1)] keep_swap_in [OF inv(2)]
      wait_confirmation_swap_out_keeps [OF inv(1)] keep_swap_out [OF inv(2)]
    by (auto intro: ks_inv_keeps [OF assms(1)])
  have io: "yields ks_inv (stdout_wait_memory_read pid v s)" if "v \<noteq> []" for pid v
    using stdout_wait_memory_read_keeps [OF inv(1,2) that] by (rule yields_mono) (auto intro: ks_inv_keeps [OF assms(1)])
  have "yields ks_inv (io_memory_write_answer pid True s)" for pid
    using io_memory_write_answer_keeps [OF inv(1,2)] by (rule yields_mono) (auto intro: ks_inv_keeps [OF assms(1)])
  then have written: "yields ks_inv (io_memory_write_answer pid ok s)" if ok for pid ok
    using that by simp
  show ?thesis
    by (cases op) (use assms sem created segment swap io written in \<open>auto simp: ks_kernel_memory_handler_def memory_protocol_def
        compaction_keeps request_swap_in_keeps intro!: yields_and_then\<close>)
qed

lemma io_handler_keeps:
  assumes "ks_inv s" and "io_protocol io op buffer s"
  shows "yields ks_inv (ks_io_handler io io_type op buffer s)"
proof -
  note inv = ks_invD [OF assms(1)]
  have io: "io \<notin> set (list_cpu s)"
    using assms by (auto simp: ks_inv_def all_clients_def io_protocol_def)
  have finish: "ks_inv (handle_next_operation io io_type (io_finish_process pid io s))"
    if "\<forall>p. get_process_from_pid s pid = Some p \<longrightarrow> blocked_for_io s p" for pid
    using that io_finish_process_keeps [OF inv(1,2) io, of pid]
    by (auto simp: next_operation_same intro!: ks_inv_keeps [OF assms(1)] next_operation_keeps)
  have "yields ks_inv (stdin_answer io io_type x s)" for x
    using stdin_answer_keeps [OF inv(1,2) io] by (rule yields_mono) (auto intro: ks_inv_keeps [OF assms(1)])
  then show ?thesis
    by (cases op) (use assms finish in \<open>auto simp: ks_io_handler_def io_protocol_def
        intro!: yields_and_then split: option.split\<close>)
qed

lemma waiter_step_keeps:
  assumes "ks_inv s" and "waiter_protocol w s" and "waiter_step w s = Some (ws, t)"
  shows "ks_inv t"
proof -
  have take: "ks_inv (take_response c s)" for c
    unfolding take_response_def using ks_invD [OF assms(1)] ks_inv_refl [OF assms(1)]
    by (intro ks_inv_keeps [OF assms(1)]) (simp_all add: sched_inv_def pool_ok_upd_client)
  have confirmed: "ks_inv (confirmed_and_handle_state c u)" "ks_inv (confirmed c u)" "ks_inv (evicted_one c u)"
    if "ks_inv u" for c u
    using that keep_confirmed [OF ks_invD(1,2) [OF that]]
    by (auto intro!: ks_inv_keeps [OF that] confirmed_and_handle_state_keeps confirmed_keeps evicted_one_keeps dest: ks_invD)
  have plain: "ks_inv u" if "sched_inv u" "keeps_locks s u" for u using that by (rule ks_inv_keeps [OF assms(1)])
  show ?thesis
    using assms(3)
  proof (cases rule: waiter_step.elims)
    case (2 reason)
    have "sched_inv (s\<lparr>halted := True\<rparr>)" "keeps_locks s (s\<lparr>halted := True\<rparr>)"
      using ks_invD(1) [OF assms(1)] ks_inv_refl [OF assms(1)]
      by (subst sched_inv_fields [where s = s], simp_all) (subst keeps_locks_fields [where t = s], simp_all add: all_clients_def)
    then show ?thesis using 2 ks_invD(1) [OF assms(1)] ks_inv_refl [OF assms(1)]
      by (auto simp: all_evicted_def intro!: plain)
  next
    case 4
    let ?t = "s\<lparr>compaction_finished_sem := compaction_finished_sem s - 1, can_schedule := True\<rparr>"
    have "sched_inv ?t" "keeps_locks s ?t"
      using ks_invD(1) [OF assms(1)] ks_inv_refl [OF assms(1)]
      by (subst sched_inv_fields [where s = s], simp_all) (subst keeps_locks_fields [where t = s], simp_all add: all_clients_def)
    then show ?thesis using 4 by (auto simp: compaction_over_def split: if_splits intro!: plain)
  next
    case (5 p)
    then have "blocked_for_io s p" using assms(2) by (simp add: waiter_protocol_def)
    then show ?thesis using 5 memory_write_confirmed_keeps [OF ks_invD(1,2) [OF assms(1)]]
      by (auto split: if_splits intro!: plain)
  qed (use take confirmed in \<open>auto split: if_splits\<close>)
qed

lemma waiters_irrelevant:
  "sched_inv (s\<lparr>waiters := ws\<rparr>) = sched_inv s" "keeps_locks u (s\<lparr>waiters := ws\<rparr>) = keeps_locks u s"
  by (rule sched_inv_fields; simp) (rule keeps_locks_fields; simp add: all_clients_def)

lemma ks_inv_waiters [simp]: "ks_inv (s\<lparr>waiters := ws\<rparr>) = ks_inv s"
proof -
  have "mutexes_ok (s\<lparr>waiters := ws\<rparr>) = mutexes_ok s"
    by (simp add: mutexes_ok_def mutex_ok_def waits_for_def)
  then show ?thesis by (simp add: ks_inv_def waiters_irrelevant all_clients_def)
qed

lemma waiter_turn_keeps:
  assumes "ks_inv s" and "waiter_protocol w s" and "waiter_turn w s = Some t"
  shows "ks_inv t"
proof -
  let ?s = "s\<lparr>waiters := remove1 w (waiters s)\<rparr>"
  obtain ws u where u: "waiter_step w ?s = Some (ws, u)" "t = u\<lparr>waiters := waiters u @ ws\<rparr>"
    using assms(3) by (auto simp: waiter_turn_def split: if_splits option.splits)
  have "waiter_protocol w ?s"
    using assms(2) by (simp add: waiter_protocol_def blocked_for_io_def awaits_mutex_def waits_for_def)
  then have "ks_inv u" using assms(1) by (intro waiter_step_keeps [OF _ _ u(1)]) simp_all
  then show ?thesis by (simp add: u(2))
qed

lemma ks_inv_turns:
  assumes "ks_inv s"
  shows "short_term_scheduler_turn now s = Some t \<Longrightarrow> ks_inv t"
    and "ks_inv (quantum_manager_turn now s)" and "ks_inv (suspension_manager_turn now s)"
proof -
  note inv = ks_invD [OF assms]
  let ?s = "s\<lparr>short_term_scheduler_sem := short_term_scheduler_sem s - 1\<rparr>"
  have s: "sched_inv ?s" "keeps_locks s ?s"
    using inv ks_inv_refl [OF assms]
    by (subst sched_inv_fields [where s = s], simp_all) (subst keeps_locks_fields [where t = s], simp_all add: all_clients_def)
  have "list_processes (dispatch_loop now ?s) = list_processes s"
    using keep_dispatch_loop [OF _ s(2)] s(1) by (simp add: sched_inv_def keeps_locks_def)
  then have "sched_inv (dispatch_loop now ?s)" using s(1) by (simp add: sched_inv_def pool_dispatch_loop)
  moreover have "keeps_locks s (dispatch_loop now ?s)" using s by (intro keep_dispatch_loop) (simp_all add: sched_inv_def)
  ultimately show "ks_inv t" if "short_term_scheduler_turn now s = Some t"
    using that s by (auto simp: short_term_scheduler_turn_def Let_def split: if_splits intro: ks_inv_keeps [OF assms])
  have "pool_ok A (quantum_pass now u) = pool_ok A u" for A u
    by (induction now u rule: quantum_pass.induct) (subst quantum_pass.simps, simp split: option.split)
  moreover have "list_processes (quantum_pass now u) = list_processes u" for u
    by (induction now u rule: quantum_pass.induct) (subst quantum_pass.simps, simp split: option.split)
  ultimately show "ks_inv (quantum_manager_turn now s)"
    using inv ks_inv_refl [OF assms] by (intro ks_inv_keeps [OF assms]) (simp_all add: quantum_manager_turn_def sched_inv_def)
  show "ks_inv (suspension_manager_turn now s)"
    using inv by (intro ks_inv_keeps [OF assms] suspension_manager_turn_keeps keep_suspension_manager_turn)
qed

lemma ks_inv_clients:
  assumes "ks_inv s"
  shows "ks_inv (ks_cpu_connected cpu_fd i s)" "ks_inv (handle_cpu_disconnection c s)"
    and "ks_inv (snd (io_connected io_fd io_type s))" "ks_inv (io_disconnected io io_type s)"
proof -
  note inv = ks_invD [OF assms]
  have d: "distinct (all_clients s)" using assms by (simp add: ks_inv_def)
  have new: "fresh (all_clients s) \<notin> set (all_clients s)" by (rule fresh_not_in)
  have "distinct (all_clients (ks_cpu_connected cpu_fd i s))"
    using d new by (auto simp: ks_cpu_connected_def Let_def all_clients_def wake_scheduler_def)
  then show "ks_inv (ks_cpu_connected cpu_fd i s)"
    using inv by (simp add: ks_inv_def ks_cpu_connected_keeps connection_mutexes)
  have "distinct (all_clients (handle_cpu_disconnection c s))"
    using d by (auto simp: handle_cpu_disconnection_def Let_def all_clients_def process_setters
        add_process_to_ready_queue_def on_queue_def exec_remove_def store_defs
        set_remove1_eq split: option.split)
  then show "ks_inv (handle_cpu_disconnection c s)"
    using inv by (simp add: ks_inv_def handle_cpu_disconnection_keeps cpu_disconnection_mutexes)
  obtain i nxt pkg where a: "id_assigner (next_io_id s) = (i, nxt, pkg)" by (metis prod_cases3)
  have "all_clients (handle_next_operation io ty u) = all_clients u" for io ty u
    by (simp add: handle_next_operation_def all_clients_def store_defs split: t_io_type.split list.split)
  then have "distinct (all_clients (snd (io_connected io_fd io_type s)))"
    using d new by (cases io_type) (auto simp: io_connected_def a Let_def all_clients_def ks_send_def)
  then show "ks_inv (snd (io_connected io_fd io_type s))"
    using inv by (simp add: ks_inv_def io_connected_keeps io_connected_mutexes)
  have "distinct (all_clients (io_disconnected io io_type s))"
    using d by (cases io_type) (auto simp: io_disconnected_def all_clients_def set_remove1_eq)
  then show "ks_inv (io_disconnected io io_type s)"
    using inv by (simp add: ks_inv_def io_disconnected_keeps)
qed

section \<open>Properties\<close>

lemma ks_step_keeps:
  assumes "ks_step eq list_sort s t" and "ks_inv s"
  shows "ks_inv t"
  using assms
proof cases
  case (cpu_message now cpu op buffer)
  then show ?thesis using cpu_handler_keeps [OF assms(2)] yieldsD by metis
next
  case (memory_message now op buffer)
  then show ?thesis using memory_handler_keeps [OF assms(2)] yieldsD by metis
next
  case (io_message io io_type op buffer)
  then show ?thesis using io_handler_keeps [OF assms(2)] yieldsD by metis
qed (use assms(2) in \<open>auto intro: ks_inv_turns ks_inv_clients ks_inv_create waiter_turn_keeps\<close>)

lemma ks_setup_inv:
  assumes "ks_setup alg queues pre q time = Some s" and "alg = ''CMN'' \<Longrightarrow> queues \<noteq> []"
  shows "ks_inv s"
proof -
  have "scheduler_algorithm_from_string alg = CMN \<Longrightarrow> alg = ''CMN''"
    by (auto simp: scheduler_algorithm_from_string_def split: if_splits)
  with assms show ?thesis
    by (auto simp: ks_setup_def Let_def ks_inv_def sched_inv_def pool_ok_def queues_configured_def ready_ok_def
        lists_ok_def cpus_ok_def runs_on_def mutexes_ok_def waits_for_def all_clients_def split: if_splits)
qed

lemma run_keeps: "(ks_step eq list_sort)\<^sup>*\<^sup>* s t \<Longrightarrow> ks_inv s \<Longrightarrow> ks_inv t"
  by (induction rule: rtranclp_induct) (auto intro: ks_step_keeps)


text \<open>A CPU connects, the first process is created and confirmed, and the scheduler gives it to the CPU.\<close>

definition first_state :: ks_state where
  "first_state = the (ks_setup ''CMN'' [''FIFO'', ''RR'', ''RR''] ''TRUE'' 100 1000)"

definition started :: ks_state where
  "started = the (short_term_scheduler_turn 5 (wait_process_create_confirmation 0
     (long_term_scheduler ''init'' 1 (ks_cpu_connected 4 0 first_state))))"

lemma created_state:
  "let s = long_term_scheduler ''init'' 1 (ks_cpu_connected 4 0 first_state) in
     list_processes s = [1] \<and> procs s 1 = create_process 0 1 \<and> list_cpu s = [1] \<and>
     get_process_from_pid s 0 = Some 1"
  by (simp add: first_state_def ks_setup_def Let_def scheduler_algorithm_from_string_def ks_cpu_connected_def
      long_term_defs store_defs send_process_create_info_def fresh_def create_process_def
      all_clients_def get_process_from_pid_def)

lemma started_run: "(ks_step eq list_sort)\<^sup>*\<^sup>* first_state started"
proof -
  let ?a = "ks_cpu_connected 4 0 first_state"
  let ?b = "long_term_scheduler ''init'' 1 ?a"
  let ?c = "wait_process_create_confirmation 0 ?b"
  have "ks_step eq list_sort first_state ?a" by (rule cpu_connects)
  moreover have "ks_step eq list_sort ?a ?b" by (rule creates)
  moreover have "ks_kernel_memory_handler list_sort 0 PROCESS_CREATE (field (u32_bytes 0)) ?b = Ret ?c"
    by (simp add: ks_kernel_memory_handler_def)
  then have "ks_step eq list_sort ?b ?c"
    using created_state
    by (intro memory_message) (auto simp: memory_protocol_def Let_def create_process_def)
  moreover have "short_term_scheduler_turn 5 ?c = Some started"
    using created_state by (auto simp: started_def short_term_scheduler_turn_def wait_process_create_confirmation_def
        wake_scheduler_def Let_def)
  then have "ks_step eq list_sort ?c started" by (rule dispatch)
  ultimately show ?thesis by (meson converse_rtranclp_into_rtranclp r_into_rtranclp)
qed

lemma started_inv: "sched_inv started"
proof -
  obtain s where s: "ks_setup ''CMN'' [''FIFO'', ''RR'', ''RR''] ''TRUE'' 100 1000 = Some s"
    using setup_CMN by blast
  then have "(ks_step (=) sort_by)\<^sup>*\<^sup>* s started" using started_run by (simp add: first_state_def)
  from run_keeps [OF this ks_setup_inv [OF s]] show ?thesis by (simp add: ks_invD)
qed


text \<open>C17: the dispatcher always ends, and when it does no CPU is idle for nothing: there is no
  process left that is ready, or no CPU that is free.\<close>
theorem dispatch_work_conserving:
  assumes "sched_inv s"
  shows "(\<forall>p \<in> set (list_processes (dispatch_loop now s)). proc_state (procs (dispatch_loop now s) p) \<noteq> READY) \<or>
         (\<forall>c \<in> set (list_cpu (dispatch_loop now s)). \<not> cpu_free (dispatch_loop now s) c)"
  using assms
proof (induction now s rule: dispatch_loop.induct)
  case (1 now s)
  have inv: "pool_ok (set (list_processes s)) s" using "1.prems" by (simp add: sched_inv_def)
  have no_cpu: "\<not> cpu_free s c" if "get_available_cpu s = None" "c \<in> set (list_cpu s)" for c
    using that by (simp add: get_available_cpu_def find_None_iff_set)
  show ?case
  proof (cases "get_next_process_to_execute s")
    case None
    then have "proc_state (procs s p) \<noteq> READY" if "p \<in> set (list_processes s)" for p
      using some_chosen [OF inv that] next_process_chosen [OF inv] by auto
    then show ?thesis using None by (simp add: dispatch_loop.simps [of now s])
  next
    case (Some p)
    then have "chosen s p" using next_process_chosen [OF inv] by simp
    note p = chosen_ready(1,2) [OF inv this]
    show ?thesis
    proof (cases "get_available_cpu s")
      case None
      have "\<not> cpu_free (preempt p s) c" if "c \<in> set (list_cpu s)" for c
        using no_cpu [OF None that]
        by (auto simp: preempt_def evict_process_clients cpu_free_def split: option.splits)
      moreover have "list_cpu (preempt p s) = list_cpu s"
        by (auto simp: preempt_def evict_process_def send_process_evict_def add_waiter_def split: option.split)
      ultimately show ?thesis using Some None no_cpu by (simp add: dispatch_loop.simps [of now s])
    next
      case (Some c)
      then have "sched_inv (dispatch_one now p c s)"
        using p available_cpu [OF Some] inv pool_dispatch_one by (simp add: sched_inv_def cpu_free_def)
      from "1.IH" [OF refl \<open>get_next_process_to_execute s = Some p\<close> Some this]
      show ?thesis using Some \<open>get_next_process_to_execute s = Some p\<close> by (simp add: dispatch_loop.simps [of now s])
    qed
  qed
qed

theorem dispatch_work_conserving_witness:
  "(\<forall>p \<in> set (list_processes (dispatch_loop 9 started)). proc_state (procs (dispatch_loop 9 started) p) \<noteq> READY) \<or>
   (\<forall>c \<in> set (list_cpu (dispatch_loop 9 started)). \<not> cpu_free (dispatch_loop 9 started) c)"
  by (rule dispatch_work_conserving [OF started_inv])

text \<open>C26: the process that is given a CPU next is ready and the first of its queue, and no queue of
  a better priority has a process; when there is none, no process is ready.\<close>
theorem next_process_order:
  assumes "sched_inv s"
  shows "case get_next_process_to_execute s of
           None \<Rightarrow> \<forall>q \<in> set (list_processes s). proc_state (procs s q) \<noteq> READY
         | Some p \<Rightarrow> p \<in> set (list_processes s) \<and> proc_state (procs s p) = READY \<and>
             p = hd (ready_queue s ! queue_index s p) \<and>
             (\<forall>q \<in> set (list_processes s). proc_state (procs s q) = READY \<longrightarrow> queue_index s p \<le> queue_index s q)"
proof -
  have inv: "pool_ok (set (list_processes s)) s" using assms by (simp add: sched_inv_def)
  show ?thesis
  proof (cases "get_next_process_to_execute s")
    case None
    then show ?thesis using some_chosen [OF inv] next_process_chosen [OF inv] by auto
  next
    case (Some p)
    then have c: "chosen s p" using next_process_chosen [OF inv] by simp
    then obtain i where "i < length (ready_queue s)" "ready_queue s ! i \<noteq> []" "p = hd (ready_queue s ! i)"
      by (auto simp: chosen_def)
    then have "queue_index s p = i" by (intro in_queue(3) [OF inv]) simp_all
    then show ?thesis using Some chosen_ready [OF inv c] \<open>p = hd (ready_queue s ! i)\<close> by simp
  qed
qed

theorem next_process_order_witness:
  "case get_next_process_to_execute started of
     None \<Rightarrow> \<forall>q \<in> set (list_processes started). proc_state (procs started q) \<noteq> READY
   | Some p \<Rightarrow> proc_state (procs started p) = READY"
  using next_process_order [OF started_inv] by (auto split: option.splits)



end
