(* ===== verification/KS_Faults.thy ===== *)
theory KS_Faults
  imports KS_Runs
begin

text \<open>
  What the branches outside of the protocol of \<open>KS_Runs\<close> do: the process that is not resumed, the
  CPU that is never free again, the ended process that comes back, the queue that stalls.
\<close>

lemma running_pid:
  assumes "sched_inv s" and "runs_on (set (list_processes s)) s p c"
  shows "p \<in> set (list_processes s)" "proc_state (procs s p) = EXEC" "proc_cpu (procs s p) = Some c"
    and "\<not> is_available (clients s c)" "distinct (exec_processes s)" "c \<in> set (list_cpu s)"
proof -
  have inv: "pool_ok (set (list_processes s)) s" using assms(1) by (simp add: sched_inv_def)
  show "p \<in> set (list_processes s)" "proc_state (procs s p) = EXEC" "proc_cpu (procs s p) = Some c"
    "c \<in> set (list_cpu s)"
    using runs_onD [OF inv assms(2)] by simp_all
  show "\<not> is_available (clients s c)" using cpus_okD [OF pool_okD(4) [OF inv] assms(2)] by simp
  show "distinct (exec_processes s)" using lists_okD(1) [OF pool_okD(3) [OF inv]] .
qed

text \<open>A process that has a CPU and is not in execution contradicts the invariant.\<close>

lemma stray_process:
  assumes "p \<in> set (list_processes t)" and "proc_cpu (procs t p) = Some c" and "proc_state (procs t p) \<noteq> EXEC"
  shows "\<not> sched_inv t"
  using assms cpu_means_exec [of "set (list_processes t)" t p c] by (auto simp: sched_inv_def)

lemma send_frame_sem [simp]:
  "short_term_scheduler_sem (ks_send x pkg s) = short_term_scheduler_sem s"
  "short_term_scheduler_sem (send_process_end pid s) = short_term_scheduler_sem s"
  "short_term_scheduler_sem (upd_proc p f s) = short_term_scheduler_sem s"
  "short_term_scheduler_sem (exec_remove p s) = short_term_scheduler_sem s"
  "exec_processes (ks_send x pkg s) = exec_processes s" "exec_processes (upd_proc p f s) = exec_processes s"
  "exec_processes (send_process_end pid s) = exec_processes s"
  by (simp_all add: ks_send_def send_process_end_def upd_proc_def exec_remove_def)

text \<open>A \<open>STDIN\<close> of 0 bytes ends the process and forgets its CPU: it is in execution no more, its
  CPU stays unavailable, and the scheduler is not woken.\<close>
theorem stdin_of_nothing_loses_the_cpu:
  assumes "sched_inv s" and "runs_on (set (list_processes s)) s p c"
  shows "let t = stdin_syscall_manager now p c a 0 s in
     proc_state (procs t p) = EXIT \<and> p \<notin> set (exec_processes t) \<and> \<not> is_available (clients t c) \<and>
     short_term_scheduler_sem t = short_term_scheduler_sem s \<and> \<not> sched_inv t"
proof -
  note at = running_pid [OF assms]
  let ?t = "stdin_syscall_manager now p c a 0 s"
  have "\<not> sched_inv ?t"
    using at by (intro stray_process [of p _ c]) (simp_all add: stdin_syscall_manager_def process_setters)
  then show ?thesis
    using at by (simp add: stdin_syscall_manager_def Let_def process_setters)
qed

lemma three_processes_inv: "sched_inv three_processes"
  by (auto simp: sched_inv_def pool_ok_def queues_configured_def ready_ok_def lists_ok_def cpus_ok_def runs_on_def
      create_process_def create_client_info_def less_Suc_eq)

lemma three_processes_run: "runs_on (set (list_processes three_processes)) three_processes 2 11"
  by (simp add: runs_on_def)

theorem stdin_of_nothing_loses_the_cpu_witness:
  "let t = stdin_syscall_manager 0 2 11 64 0 three_processes in
     2 \<notin> set (exec_processes t) \<and> \<not> is_available (clients t 11)"
  using stdin_of_nothing_loses_the_cpu [OF three_processes_inv three_processes_run, of 0 64] by (simp add: Let_def)

text \<open>A process that names an unknown mutex is ended but keeps its CPU on paper: when that CPU
  confirms the next eviction, the ended process is made ready again and queued.\<close>
theorem unknown_mutex_comes_back:
  assumes "sched_inv s" and "runs_on (set (list_processes s)) s p c" and "\<not> pending_memory_syscall (procs s p)"
  shows "let t = unknown_mutex p c s; u = confirmed_and_handle_state c t in
     proc_state (procs t p) = EXIT \<and> is_available (clients t c) \<and> \<not> sched_inv t \<and>
     proc_state (procs u p) = READY \<and> p \<in> set (ready_queue u ! queue_index u p)"
proof -
  note at = running_pid [OF assms(1,2)]
  define t where "t = unknown_mutex p c s"
  have t: "proc_state (procs t p) = EXIT" "proc_cpu (procs t p) = Some c" "list_processes t = list_processes s"
    "is_available (clients t c)" "pending_memory_syscall (procs t p) = pending_memory_syscall (procs s p)"
    "\<And>q. proc_cpu (procs t q) = proc_cpu (procs s q)"
    "ready_queue t = ready_queue s" "queue_algorithms_count t = queue_algorithms_count s"
    using at by (simp_all add: t_def unknown_mutex_def process_setters store_defs send_process_end_def exec_remove_def)
  have "get_process_from_cpu t c = get_process_from_cpu s c" by (simp add: get_process_from_cpu_def t)
  then have cpu: "get_process_from_cpu t c = Some p" using assms(1,2) by (simp add: from_cpu_iff)
  let ?v = "upd_proc p (\<lambda>r. r\<lparr>proc_cpu := None, proc_state := READY\<rparr>) (free_cpu c (exec_remove p t))"
  have u: "confirmed_and_handle_state c t = wake_scheduler (add_process_to_ready_queue p ?v)"
    using assms(3) cpu t(5) by (simp add: confirmed_and_handle_state_def Let_def normal)
  have "queue_index ?v p < length (ready_queue ?v)"
    using pool_okD(1) assms(1) by (intro queue_index_in_range)
      (simp add: sched_inv_def queues_configured_def pool_ok_def upd_proc_def free_cpu_def upd_client_def exec_remove_def t)
  then have "p \<in> set (ready_queue (add_process_to_ready_queue p ?v) ! queue_index ?v p)"
    by (simp add: add_process_to_ready_queue_def on_queue_def)
  moreover have "queue_index (wake_scheduler (add_process_to_ready_queue p ?v)) p = queue_index ?v p"
    by (rule queue_index_cong) (simp_all add: wake_scheduler_def add_process_to_ready_queue_def on_queue_def)
  moreover have "\<not> sched_inv t" using at t by (intro stray_process [of p _ c]) simp_all
  ultimately show ?thesis
    using t by (simp add: Let_def u flip: t_def) (simp add: wake_scheduler_def)
qed

theorem unknown_mutex_comes_back_witness:
  "let u = confirmed_and_handle_state 11 (unknown_mutex 2 11 three_processes) in
     proc_state (procs u 2) = READY \<and> 2 \<in> set (ready_queue u ! queue_index u 2)"
  using unknown_mutex_comes_back [OF three_processes_inv three_processes_run]
  by (simp add: Let_def create_process_def)

text \<open>A process that unlocks a mutex it does not own gets no answer: nothing is sent and nothing
  changes, so its CPU waits and the process stays in execution.\<close>
theorem unlock_without_owning_hangs:
  assumes "get_process_from_pid s pid = Some p" and "get_mutex_by_name eq s name = Some m"
    and "lockedBy (mutexes s m) \<noteq> Some p" and "receive_pid_and_name buffer = Some (pid, name)"
  shows "ks_cpu_handler eq now cpu MUTEX_UNLOCK buffer s = Ret s"
  using assms by (simp add: ks_cpu_handler_def mutex_message_def mutex_unlock_def)

theorem unlock_without_owning_hangs_witness:
  "ks_cpu_handler (=) 0 11 MUTEX_UNLOCK (field (u32_bytes 2) @ field (string_bytes ''M'')) three_processes = Ret three_processes"
proof -
  have p: "get_process_from_pid three_processes 2 = Some 2"
    by (simp add: get_process_from_pid_def create_process_def)
  have m: "get_mutex_by_name (=) three_processes ''M'' = Some 1" by (simp add: get_mutex_by_name_def)
  have "sendable ''M''" by (simp add: sendable_def c_str_def byte_of_char_def)
  then have r: "receive_pid_and_name (field (u32_bytes 2) @ field (string_bytes ''M'')) = Some (2, ''M'')"
    by (simp add: receive_pid_and_name_def)
  show ?thesis by (rule unlock_without_owning_hangs [OF p m _ r]) simp
qed

text \<open>The end of a process does not release its mutexes: the mutex stays with the process that
  has ended, and those that wait for it wait for ever.\<close>
theorem ended_owner_keeps_the_mutex:
  assumes "get_process_from_pid s pid = Some p" and "lockedBy (mutexes s m) = Some p"
  shows "let t = process_end_message pid cpu s in
     proc_state (procs t p) = EXIT \<and> lock_view m t = lock_view m s \<and> waits_for t = waits_for s"
  using assms by (simp add: Let_def process_end_message_def process_setters lock_view_def waits_for_def fun_eq_iff)

theorem ended_owner_keeps_the_mutex_witness:
  "let t = process_end_message 1 10 three_processes in proc_state (procs t 1) = EXIT \<and> waits_for t 3 1"
proof -
  have "get_process_from_pid three_processes 1 = Some 1"
    by (simp add: get_process_from_pid_def create_process_def)
  moreover have "waits_for three_processes 3 1" by (simp add: waits_for_def)
  ultimately show ?thesis using ended_owner_keeps_the_mutex [of three_processes 1 1 1 10] by (simp add: Let_def)
qed

text \<open>When the process of a CPU leaves it by itself between the order to evict everything and the
  confirmation, \<open>evict_all_processes\<close> finds nobody and forgets the CPU: it stays marked as being
  evicted and is never given a process again.\<close>
theorem evicted_cpu_forgotten:
  assumes "sched_inv s" and "runs_on (set (list_processes s)) s p c" and "\<not> is_evicting (clients s c)"
    and "\<forall>io \<in> set (list_io_sleep s). io \<noteq> c"
  shows "let s\<^sub>1 = snd (send_process_evict (Some c) reason s);
             s\<^sub>2 = sleep_syscall_manager now p c ms s\<^sub>1;
             s\<^sub>3 = evicted_one c s\<^sub>2
         in get_process_from_cpu s\<^sub>2 c = None \<and> is_evicting (clients s\<^sub>3 c) \<and> get_available_cpu s\<^sub>3 \<noteq> Some c"
proof -
  define s1 where "s1 = snd (send_process_evict (Some c) reason s)"
  define s2 where "s2 = sleep_syscall_manager now p c ms s1"
  have s1: "procs s1 = procs s" "list_processes s1 = list_processes s" "is_evicting (clients s1 c)"
    "list_io_sleep s1 = list_io_sleep s"
    using assms(3) by (simp_all add: s1_def send_process_evict_def) (simp add: upd_client_def ks_send_def)
  have io: "get_available_io_type u (list_io_sleep u) = Some io \<Longrightarrow> io \<in> set (list_io_sleep u)" for u io
    using find_Some_iff_set by (fastforce simp: get_available_io_type_def)
  have "list_io_sleep (set_available True c (block_process now p s1)) = list_io_sleep s"
    using s1(4) by (simp add: upd_client_def block_process_def process_setters block_add_def exec_remove_def upd_proc_def)
  with io [of "set_available True c (block_process now p s1)"] assms(4)
  have s2: "is_evicting (clients s2 c)" "list_processes s2 = list_processes s"
    "procs s2 = procs (block_process now p s1)"
    using s1 by (auto simp: s2_def sleep_syscall_manager_def Let_def block_process_def process_setters
        wake_scheduler_def split: option.split)
  have "\<not> runs_on (set (list_processes s)) s2 q c" for q
    using runs_alone [of "set (list_processes s)" s p c q] assms(1,2) s1
    by (auto simp: s2 runs_on_def block_process_def process_setters sched_inv_def)
  then have none: "get_process_from_cpu s2 c = None"
    by (auto simp: get_process_from_cpu_def find_None_iff_set runs_on_def s2(2))
  then have "evicted_one c s2 = s2" by (simp add: evicted_one_def)
  moreover have "get_available_cpu s2 \<noteq> Some c"
    using available_cpu [of s2 c] s2(1) by (auto simp: cpu_free_def)
  ultimately show ?thesis using none s2(1) by (simp add: Let_def flip: s1_def s2_def)
qed

theorem evicted_cpu_forgotten_witness:
  "let s = evicted_one 11 (sleep_syscall_manager 0 2 11 5 (snd (send_process_evict (Some 11) COMPACTION three_processes)))
   in is_evicting (clients s 11)"
proof -
  have "list_io_sleep three_processes = []"
    by (simp add: three_processes_def ks_setup_def Let_def scheduler_algorithm_from_string_def)
  then show ?thesis
    using evicted_cpu_forgotten [OF three_processes_inv three_processes_run, of COMPACTION 0 5]
    by (simp add: Let_def create_client_info_def)
qed

text \<open>A read for \<open>STDOUT\<close> that fails ends the process and goes on with an empty string: when
  the device confirms, the ended process is made ready again.\<close>
theorem failed_stdout_comes_back:
  assumes "get_process_from_pid s pid = Some p" and "get_available_io_type s (list_io_stdout s) = Some io"
  shows "\<exists>t. stdout_wait_memory_read pid [] s = Ret t \<and> proc_state (procs t p) = EXIT \<and>
     (Kernel_Memory, uint32_send_with_op_code pid PROCESS_END) \<in> set (outbox t) \<and>
     proc_state (procs (io_finish_process pid io t) p) = READY"
proof -
  let ?t = "wake_scheduler (ks_send (Client io)
    (io_string_process_send (t_io_string_process_create pid [] IO_TYPE_STDOUT) STDOUT)
    (set_available False io (send_process_end pid (process_set_state EXIT p s))))"
  have "proc_pid (procs s q) = proc_pid (procs ?t q)" for q by (simp add: process_setters)
  then have "get_process_from_pid ?t pid = Some p"
    using assms(1) by (simp add: get_process_from_pid_def process_setters)
  moreover have "get_available_io_type (send_process_end pid (process_set_state EXIT p s))
      (list_io_stdout (send_process_end pid (process_set_state EXIT p s))) = Some io"
    using assms(2) by (simp add: get_available_io_type_def process_setters send_process_end_def ks_send_def upd_proc_def)
  then have "stdout_wait_memory_read pid [] s = Ret ?t"
    using assms(1) by (simp add: stdout_wait_memory_read_def Let_def)
  moreover have "proc_state (procs ?t p) = EXIT" by (simp add: process_setters)
  moreover have "(Kernel_Memory, uint32_send_with_op_code pid PROCESS_END) \<in> set (outbox ?t)"
    by (simp add: send_process_end_def store_defs)
  ultimately show ?thesis by (auto simp: io_finish_process_def unblock_process_def Let_def process_setters)
qed

theorem failed_stdout_comes_back_witness:
  "\<exists>t. stdout_wait_memory_read 3 [] (three_processes\<lparr>list_io_stdout := [20], clients := \<lambda>_. create_client_info 0 0\<rparr>) = Ret t \<and>
     proc_state (procs (io_finish_process 3 20 t) 3) = READY"
proof -
  let ?s = "three_processes\<lparr>list_io_stdout := [20], clients := \<lambda>_. create_client_info 0 0\<rparr>"
  have "get_process_from_pid ?s 3 = Some 3" "get_available_io_type ?s (list_io_stdout ?s) = Some 20"
    by (simp_all add: get_process_from_pid_def create_process_def get_available_io_type_def create_client_info_def)
  from failed_stdout_comes_back [OF this] show ?thesis by auto
qed

text \<open>An allocation that fails for a process that is back in the only ready queue, because its
  CPU has gone meanwhile, ends the process where it is: at the head of the queue it stops the
  dispatching of everything behind it.\<close>
theorem ended_process_stalls_the_queue:
  assumes "scheduler_algorithm s \<noteq> CMN" and "get_process_from_pid s pid = Some p"
    and "ready_queue s ! 0 = p # ps" and "proc_cpu (procs s p) = None" and "result \<noteq> SEGMENT_OK"
  shows "let t = handle_segment_result pid result s in
     proc_state (procs t p) = EXIT \<and> ready_queue t ! 0 = p # ps \<and> get_next_process_to_execute t = None"
proof -
  let ?t = "handle_segment_result pid result s"
  have t: "procs ?t p = (procs s p)\<lparr>pending_memory_syscall := False, proc_state := EXIT\<rparr>" "ready_queue ?t = ready_queue s"
    "scheduler_algorithm ?t = scheduler_algorithm s"
    using assms by (simp_all add: handle_segment_result_def Let_def process_setters send_process_end_def store_defs exec_remove_def)
  then show ?thesis using assms by (simp add: Let_def get_next_process_to_execute_def ready_queue_size_def)
qed

theorem ended_process_stalls_the_queue_witness:
  "get_next_process_to_execute (handle_segment_result 3 SEGMENT_NO_SPACE
     (three_processes\<lparr>scheduler_algorithm := FIFO, ready_queue := [[3, 2]]\<rparr>)) = None"
proof -
  let ?s = "three_processes\<lparr>scheduler_algorithm := FIFO, ready_queue := [[3, 2]]\<rparr>"
  have "get_process_from_pid ?s 3 = Some 3" by (simp add: get_process_from_pid_def create_process_def)
  from ended_process_stalls_the_queue [OF _ this, of "[2]" SEGMENT_NO_SPACE] show ?thesis
    by (simp add: Let_def create_process_def)
qed

text \<open>What \<open>INIT_PROC\<close> gives as the priority is cut to 8 bits: 256 is the best priority there is.\<close>

lemma init_proc_priority_cut:
  "base_priority (procs (long_term_scheduler path 256 s) (fresh (list_processes s))) = 0"
  by (simp add: long_term_defs Let_def create_process_def send_process_create_info_def ks_send_def)

text \<open>Outside of the multi-queue algorithm, a process that is taken off its CPU for a compaction
  goes to the end of the queue.\<close>

lemma start_of_queue_is_end:
  "scheduler_algorithm s \<noteq> CMN \<Longrightarrow> add_process_at_start_of_ready_queue p s = add_process_to_ready_queue p s"
  by (simp add: add_process_at_start_of_ready_queue_def add_process_to_ready_queue_def queue_index_def)

text \<open>\<open>MEM_ALLOC\<close> of 0 bytes: no answer.\<close>

lemma empty_allocation_hangs:
  "receive_instruction_mem_alloc buffer = Some (pid, sid, 0) \<Longrightarrow> ks_cpu_handler eq now cpu MEM_ALLOC buffer s = Ret s"
  by (auto simp: ks_cpu_handler_def mem_alloc_message_def mem_alloc_syscall_manager_def split: option.split)

text \<open>The answer of Kernel Memory to the creation of a process, when it is handled before the process
  has been put in the list, is dropped: the process stays \<open>NEW\<close>, and the scheduler is not woken.\<close>

lemma creation_confirmed_too_early:
  assumes "\<forall>p \<in> set (list_processes s). proc_pid (procs s p) \<noteq> current_max_pid s"
  shows "let pid = current_max_pid s;
             t = process_registered pid priority (wait_process_create_confirmation pid (process_requested path s))
         in \<exists>p. get_process_from_pid t pid = Some p \<and> proc_state (procs t p) = NEW \<and>
              short_term_scheduler_sem t = short_term_scheduler_sem s"
proof -
  let ?p = "fresh (list_processes s)"
  let ?s = "process_requested path s"
  have s: "list_processes ?s = list_processes s" "procs ?s = procs s"
    "short_term_scheduler_sem ?s = short_term_scheduler_sem s"
    by (simp_all add: process_requested_def send_process_create_info_def ks_send_def)
  have "get_process_from_pid ?s (current_max_pid s) = None"
    using assms by (simp add: get_process_from_pid_def find_None_iff_set s)
  then have early: "wait_process_create_confirmation (current_max_pid s) ?s = ?s"
    by (simp add: wait_process_create_confirmation_def)
  let ?t = "process_registered (current_max_pid s) priority ?s"
  have t: "list_processes ?t = list_processes s @ [?p]"
    "procs ?t = (procs s)(?p := create_process (current_max_pid s) (ucast priority))"
    by (simp_all add: process_registered_def Let_def s)
  have "List.find Q (xs @ [y]) = Some y" if "\<forall>x \<in> set xs. \<not> Q x" "Q y" for Q xs and y :: process
    using that by (induction xs) auto
  moreover have "\<forall>q \<in> set (list_processes s). q \<noteq> ?p" using fresh_not_in by metis
  ultimately have "get_process_from_pid ?t (current_max_pid s) = Some ?p"
    using assms by (simp add: get_process_from_pid_def t create_process_def)
  then show ?thesis
    by (simp add: Let_def early t create_process_def) (simp add: process_registered_def Let_def s)
qed

end
