(* ===== verification/KS_Start.thy ===== *)
theory KS_Start
  imports KS_Faults Module_Start
begin

text \<open>
  Kernel Scheduler from its \<open>main\<close> on (\<open>kernel_scheduler/src/main.c\<close>, the connection to Kernel
  Memory in \<open>kernel_memory_handler.c\<close>): configuration, the first process, and
  \<open>client_handler_selector\<close>, which a thread of its own runs for every CPU and every device.
\<close>

section \<open>The main function\<close>

text \<open>The values of the configuration go to \<open>ks_setup\<close>; comparing a NULL is undefined.\<close>

definition configured_setup :: "(string \<Rightarrow> t_config option) \<Rightarrow> string \<Rightarrow> (ks_state \<times> t_config) start run" where
  "configured_setup config_create config_path =
     (case config_create config_path of
        None \<Rightarrow> Ret Exit_failure
      | Some cfg \<Rightarrow>
          and_then (of_option (config_get_string_value cfg ''PLANIFICATION_ALGORITHM'')) (\<lambda>algorithm.
            and_then (of_option (config_get_string_value cfg ''QUEUE_PREEMPTION'')) (\<lambda>preemption.
              case ks_setup algorithm (config_get_array_value cfg ''QUEUES_ALGORITHMS'') preemption
                     (of_int (config_get_int_value cfg ''RR_QUANTUM''))
                     (of_int (config_get_int_value cfg ''SUSPENSION_TIMEOUT'')) of
                None \<Rightarrow> Ret Exit_failure
              | Some s \<Rightarrow> Ret (Running (s, cfg)))))"

definition kernel_memory_connection :: "connector \<Rightarrow> t_config \<Rightarrow> string \<Rightarrow> ks_state \<Rightarrow> ks_state start" where
  "kernel_memory_connection connect cfg process0 s =
     (if connect (config_get_string_value cfg ''KERNEL_MEMORY_IP'')
           (config_get_string_value cfg ''KERNEL_MEMORY_PORT'') = - 1 then Exit_failure
      else Running (long_term_scheduler process0 0
             (ks_send Kernel_Memory (t_module_id_send MODULE_KERNEL_SCHEDULER) s)))"

definition ks_main ::
  "t_os \<Rightarrow> connector \<Rightarrow> (string \<Rightarrow> t_config option) \<Rightarrow> string list \<Rightarrow> (ks_state \<times> fd) start run" where
  "ks_main os connect config_create argv =
     (if length argv < 3 then Ret Exit_failure
      else and_runs (configured_setup config_create (argv ! 1)) (\<lambda>(s, cfg).
        and_runs (Ret (kernel_memory_connection connect cfg (argv ! 2) s)) (\<lambda>s.
          let server_fd = server_start os (config_get_string_value cfg ''KERNEL_SCHEDULER_PORT'') in
          if server_fd = - 1 then Ret Exit_failure else Ret (Running (s, server_fd)))))"

section \<open>A client connects\<close>

text \<open>A device whose type is unknown has got its id by then, and is closed.\<close>

definition client_handler_selector :: "fd \<Rightarrow> byte list \<Rightarrow> ks_state \<Rightarrow> (ks_state \<times> byte list) run" where
  "client_handler_selector client_fd input s =
     and_then (handshake_receiver input) (\<lambda>(module_id, rest).
       if module_id = Some (module_id_int MODULE_CPU)
       then and_then (uint32_receive rest) (\<lambda>(i, rest). Ret (ks_cpu_connected client_fd i s, rest))
       else if module_id = Some (module_id_int MODULE_IO)
       then and_then (t_io_type_receive rest) (\<lambda>(ty, rest).
              case io_type_of ty of
                Some io_type \<Rightarrow> Ret (snd (io_connected client_fd io_type s), rest)
              | None \<Rightarrow> (case id_assigner (next_io_id s) of (i, next, pkg) \<Rightarrow> Ret (s\<lparr>next_io_id := next\<rparr>, rest)))
       else Ret (s, rest))"

lemma module_id_eq [simp]: "module_id_int a = module_id_int b \<longleftrightarrow> a = b"
  by (cases a; cases b) simp_all

lemma cpu_joins_scheduler:
  "client_handler_selector client_fd (cpu_hello cpu_id) s = Ret (ks_cpu_connected client_fd cpu_id s, [])"
  using uint32_received [of cpu_id "[]"]
  by (simp add: client_handler_selector_def cpu_hello_def package_send_def handshake_received)

text \<open>A device and Kernel Scheduler: each reads what the other sends, and the device is in the list of
  its type under the id it was given.\<close>

lemma device_joins:
  assumes "length argv \<ge> 3" and "config_create (argv ! 1) = Some cfg" and "io_type_from_string (argv ! 2) = Some io_type"
    and "connect (config_get_string_value cfg ''KERNEL_SCHEDULER_IP'')
           (config_get_string_value cfg ''KERNEL_SCHEDULER_PORT'') \<noteq> - 1"
  shows "\<exists>bytes. io_main connect config_create argv (package_serialize (snd (snd (id_assigner (next_io_id s)))) @ rest) =
      Ret (Running ((io_type, next_io_id s), bytes, rest)) \<and>
    client_handler_selector io_fd bytes s = Ret (snd (io_connected io_fd io_type s), [])"
proof -
  have "io_type_of (io_type_int io_type) = Some io_type" by (cases io_type) (simp_all add: io_type_of_def)
  then show ?thesis
    using assms io_type_received [of io_type "[]"]
    by (simp add: io_main_def not_less id_assigner_def uint32_received client_handler_selector_def package_send_def
        handshake_received)
qed

text \<open>The state \<open>main\<close> leaves is the start of the runs of \<open>KS_Runs\<close>, and their invariant holds.\<close>

lemma ks_inv_send: "ks_inv s \<Longrightarrow> ks_inv (ks_send t pkg s)"
proof (rule ks_inv_keeps [of s])
  assume s: "ks_inv s"
  then show "sched_inv (ks_send t pkg s)" by (simp add: ks_inv_def sched_inv_def)
  show "keeps_locks s (ks_send t pkg s)" using keeps_locks_refl [of s] s by (simp add: ks_invD)
qed

lemma ks_main_steps:
  assumes "ks_main os connect config_create argv = Ret (Running (s, server_fd))"
  obtains cfg s\<^sub>0 alg pre q time where "config_create (argv ! 1) = Some cfg"
    "ks_setup alg (config_get_array_value cfg ''QUEUES_ALGORITHMS'') pre q time = Some s\<^sub>0"
    "s = long_term_scheduler (argv ! 2) 0 (ks_send Kernel_Memory (t_module_id_send MODULE_KERNEL_SCHEDULER) s\<^sub>0)"
  using assms by (auto simp: ks_main_def and_runs_Running and_then_eq_Ret Let_def configured_setup_def
      kernel_memory_connection_def split: if_splits option.splits)

lemma ks_main_inv:
  assumes "ks_main os connect config_create argv = Ret (Running (s, server_fd))"
    and "\<And>cfg. config_create (argv ! 1) = Some cfg \<Longrightarrow> config_get_array_value cfg ''QUEUES_ALGORITHMS'' \<noteq> []"
  shows "ks_inv s"
proof -
  obtain cfg s\<^sub>0 alg pre q time where c: "config_create (argv ! 1) = Some cfg"
    "ks_setup alg (config_get_array_value cfg ''QUEUES_ALGORITHMS'') pre q time = Some s\<^sub>0"
    "s = long_term_scheduler (argv ! 2) 0 (ks_send Kernel_Memory (t_module_id_send MODULE_KERNEL_SCHEDULER) s\<^sub>0)"
    using assms(1) by (rule ks_main_steps)
  have "ks_inv (ks_send Kernel_Memory (t_module_id_send MODULE_KERNEL_SCHEDULER) s\<^sub>0)"
    using ks_setup_inv [OF c(2)] assms(2) [OF c(1)] by (simp add: ks_inv_send)
  then show ?thesis
    unfolding c(3) by (rule ks_step_keeps [OF creates [where eq = "(=)" and list_sort = "\<lambda>_ xs. xs"]])
qed

end
