(* ===== verification/Boot.thy ===== *)
theory Boot
  imports KM_Connections KS_Start
begin

text \<open>
  From the \<open>main\<close> functions to the first instruction: the start of Kernel Scheduler asks for the
  first process, Kernel Memory creates it, the scheduler gives it to the first CPU that connects,
  and the CPU gets its context and the first line of its program.
\<close>

section \<open>Kernel Scheduler\<close>

definition create_request :: "string \<Rightarrow> t_package" where
  "create_request path = package_string_add path (package_add (u32_bytes 0) (package_with PROCESS_CREATE))"

lemma ks_main_state:
  assumes "ks_main os connect config_create argv = Ret (Running (s, server_fd))"
  shows "outbox s = [(Kernel_Memory, t_module_id_send MODULE_KERNEL_SCHEDULER), (Kernel_Memory, create_request (argv ! 2))]"
    and "ks_state.list_processes s = [1]" and "procs s 1 = create_process 0 0" and "ks_state.list_cpu s = []"
    and "list_io_sleep s = []" "list_io_stdin s = []" "list_io_stdout s = []" and "can_schedule s"
proof -
  obtain s\<^sub>0 queues alg pre q time where c: "ks_setup alg queues pre q time = Some s\<^sub>0"
    "s = long_term_scheduler (argv ! 2) 0 (ks_send Kernel_Memory (t_module_id_send MODULE_KERNEL_SCHEDULER) s\<^sub>0)"
    using assms by (rule ks_main_steps)
  have "outbox s\<^sub>0 = []" "ks_state.list_processes s\<^sub>0 = []" "ks_state.list_cpu s\<^sub>0 = []" "list_io_sleep s\<^sub>0 = []"
    "list_io_stdin s\<^sub>0 = []" "list_io_stdout s\<^sub>0 = []" "can_schedule s\<^sub>0" "current_max_pid s\<^sub>0 = 0"
    using c(1) by (auto simp: ks_setup_def Let_def split: if_splits)
  then show "outbox s = [(Kernel_Memory, t_module_id_send MODULE_KERNEL_SCHEDULER), (Kernel_Memory, create_request (argv ! 2))]"
    "ks_state.list_processes s = [1]" "procs s 1 = create_process 0 0" "ks_state.list_cpu s = []"
    "list_io_sleep s = []" "list_io_stdin s = []" "list_io_stdout s = []" "can_schedule s"
    by (simp_all add: c(2) long_term_defs send_process_create_info_def ks_send_def create_request_def fresh_def Let_def)
qed

lemma only_process:
  assumes "ks_state.list_processes s = [1]" and "proc_pid (procs s 1) = 0"
  shows "get_process_from_pid s 0 = Some 1"
  using assms by (simp add: get_process_from_pid_def)

text \<open>With one process, which is ready, and one CPU, which is free, a turn of the dispatcher gives the
  process to the CPU and does nothing else.\<close>

lemma dispatch_only:
  assumes "sched_inv s" and "ks_state.list_processes s = [p]" and "proc_state (procs s p) = READY"
    and "ks_state.list_cpu s = [c]" and "cpu_free s c"
  shows "dispatch_loop now s = dispatch_one now p c s"
proof -
  have inv: "pool_ok {p} s" using assms(1,2) by (simp add: sched_inv_def)
  have "get_next_process_to_execute s = Some p"
    using some_chosen [OF inv _ assms(3)] chosen_ready(1) [OF inv] next_process_chosen [OF inv] by auto
  moreover have "get_available_cpu s = Some c" using assms(4,5) by (simp add: get_available_cpu_def)
  moreover have "get_next_process_to_execute (dispatch_one now p c s) = None"
  proof (rule ccontr)
    have inv': "pool_ok {p} (dispatch_one now p c s)"
      using inv assms(3-5) by (intro pool_dispatch_one) (simp_all add: cpu_free_def)
    assume "get_next_process_to_execute (dispatch_one now p c s) \<noteq> None"
    then obtain q where "chosen (dispatch_one now p c s) q" using next_process_chosen [OF inv'] by auto
    then have "proc_state (procs (dispatch_one now p c s) p) = READY"
      using chosen_ready(1,2) [OF inv', of q] by auto
    moreover have "proc_state (procs (dispatch_one now p c s) p) = EXEC"
      by (simp add: dispatch_one_def Let_def process_setters process_set_state_def process_set_cpu_def)
    ultimately show False by simp
  qed
  ultimately show ?thesis
    by (simp add: dispatch_loop.simps [of now s] dispatch_loop.simps [of now "dispatch_one now p c s"])
qed

lemma dispatch_one_sent:
  assumes "\<not> is_evicting (clients s c)"
  shows "outbox (dispatch_one now p c s) =
      outbox s @ [(Client c, package_add (u32_bytes (proc_pid (procs s p))) (package_with PROCESS_EXECUTE))]"
    and "proc_state (procs (dispatch_one now p c s) p) = EXEC"
proof -
  have "outbox (remove_process_from_ready_queue p s) = outbox s" "clients (remove_process_from_ready_queue p s) = clients s"
    by (simp_all add: remove_process_from_ready_queue_def on_queue_def)
  then show "outbox (dispatch_one now p c s) =
      outbox s @ [(Client c, package_add (u32_bytes (proc_pid (procs s p))) (package_with PROCESS_EXECUTE))]"
    and "proc_state (procs (dispatch_one now p c s) p) = EXEC"
    using assms by (simp_all add: dispatch_one_def Let_def process_set_state_def process_set_cpu_def upd_proc_def
        upd_client_def send_pid_to_execute_def ks_send_def exec_add_def)
qed

lemma first_dispatched:
  assumes "ks_inv s" and "ks_state.list_processes s = [1]" and "procs s 1 = create_process 0 0"
    and "all_clients s = []" and "can_schedule s"
  shows "\<exists>s1 s2 s3.
     ks_kernel_memory_handler list_sort now PROCESS_CREATE (stream (uint32_send_with_op_code 0 PROCESS_CREATE)) s = Ret s1 \<and>
     client_handler_selector cpu_fd (cpu_hello cpu_id) s1 = Ret (s2, []) \<and>
     short_term_scheduler_turn now s2 = Some s3 \<and>
     outbox s3 = outbox s @ [(Client 1, package_add (u32_bytes 0) (package_with PROCESS_EXECUTE))] \<and>
     ci_fd (clients s3 1) = cpu_fd \<and> proc_state (procs s3 1) = EXEC"
proof -
  let ?s1 = "wake_scheduler (add_process_to_ready_queue 1 (process_set_state READY 1 s))"
  let ?s2 = "ks_cpu_connected cpu_fd cpu_id ?s1"
  let ?s3 = "dispatch_one now 1 1 (?s2\<lparr>short_term_scheduler_sem := short_term_scheduler_sem ?s2 - 1\<rparr>)"
  have p: "get_process_from_pid s 0 = Some 1" using assms(2,3) by (simp add: get_process_from_pid_def create_process_def)
  then have 1: "ks_kernel_memory_handler list_sort now PROCESS_CREATE (stream (uint32_send_with_op_code 0 PROCESS_CREATE)) s = Ret ?s1"
    by (simp add: ks_kernel_memory_handler_def uint32_send_with_op_code_def wait_process_create_confirmation_def)
  then have "ks_step (=) list_sort s ?s1"
    using p assms(3) by (intro memory_message) (auto simp: memory_protocol_def uint32_send_with_op_code_def create_process_def)
  then have "ks_inv ?s2" using assms(1) by (intro ks_step_keeps [OF cpu_connects]) (rule ks_step_keeps)
  then have inv: "sched_inv (?s2\<lparr>short_term_scheduler_sem := short_term_scheduler_sem ?s2 - 1\<rparr>)"
    by (subst sched_inv_fields [where s = ?s2]) (simp_all add: ks_invD)
  have s2: "ks_state.list_processes ?s2 = [1]" "ks_state.list_cpu ?s2 = [1]" "proc_state (procs ?s2 1) = READY"
    "clients ?s2 1 = create_client_info cpu_fd cpu_id" "outbox ?s2 = outbox s" "can_schedule ?s2" "short_term_scheduler_sem ?s2 \<noteq> 0"
    "proc_pid (procs ?s2 1) = 0"
    using assms(2-5) by (auto simp: ks_cpu_connected_def Let_def all_clients_def fresh_def wake_scheduler_def
        add_process_to_ready_queue_def on_queue_def process_set_state_def upd_proc_def create_process_def)
  have "short_term_scheduler_turn now ?s2 = Some ?s3"
    using s2 dispatch_only [OF inv, of 1 1 now]
    by (simp add: short_term_scheduler_turn_def cpu_free_def create_client_info_def)
  moreover have "outbox ?s3 = outbox s @ [(Client 1, package_add (u32_bytes 0) (package_with PROCESS_EXECUTE))]"
    "ci_fd (clients ?s3 1) = cpu_fd" "proc_state (procs ?s3 1) = EXEC"
    using s2 dispatch_one_sent [where now = now and p = 1 and c = 1 and
        s = "?s2\<lparr>short_term_scheduler_sem := short_term_scheduler_sem ?s2 - 1\<rparr>"]
    by (simp_all add: create_client_info_def)
  ultimately show ?thesis using 1 cpu_joins_scheduler by blast
qed

section \<open>Kernel Memory and the CPU\<close>

lemma first_created:
  assumes "boot_ok srv" and "get_instructions_from_file files string_split (base @ ''/'' @ path) = Some (line # lines)"
    and "sendable path"
  shows "kernel_scheduler_handler files string_split base hole_sort PROCESS_CREATE (stream (create_request path)) srv =
    Ret (srv\<lparr>km := send_to_scheduler (uint32_send_with_op_code 0 PROCESS_CREATE)
      ((km srv)\<lparr>km_state.list_processes := [create_pcb files string_split 0 (base @ ''/'' @ path)]\<rparr>)\<rparr>)"
  using assms
  by (simp add: kernel_scheduler_handler_def on_km_run_def km_process_create_def create_request_def package_string_add_def
      create_pcb_def boot_ok_def Let_def)

definition context_request :: "u32 \<Rightarrow> t_package" where
  "context_request pid = package_add (u32_bytes pid) (package_with CONTEXT_SEEK)"

lemma cpu_asks_context:
  assumes "cpu_started c"
  shows "\<exists>c1. cpu_steps [Recv_execute pid, Handler, Handler, Handler] c = Some c1 \<and>
    hdl c1 = H_wait_context pid \<and> exe c1 = E_none \<and> \<not> should_exit (cpu c1) \<and> \<not> should_stop (cpu c1) \<and>
    sent (cpu c1) = sent (cpu c) @ [(To_memory, context_request pid)]"
  using assms by (auto simp: cpu_started_def cpu_step_def send_to_def context_request_def)

lemma cpu_asks_instruction:
  assumes "hdl c = H_wait_context pid" and "\<not> should_exit (cpu c)" and "\<not> should_stop (cpu c)"
  shows "\<exists>c'. cpu_steps [Recv_context ctx tbl, Executor, Executor, Executor, Executor] c = Some c' \<and>
    exe c' = E_response \<and> sent (cpu c') = sent (cpu c) @ [(To_memory, fetch_package pid (pc ctx))]"
  using assms by (auto simp: cpu_step_def send_to_def)

section \<open>From main to the first instruction\<close>

text \<open>C6: the system boots: after the \<open>main\<close> functions of Kernel Scheduler, Kernel Memory and a CPU the
  first process is created in Kernel Memory, becomes ready when that is confirmed, is given to the
  CPU as soon as it has connected, and the CPU, with the zeroed context and the empty segment table
  it asks for, fetches instruction 0 and is sent the first line of the program.\<close>
theorem first_process_starts:
  assumes "ks_main ks_os ks_connect ks_config ks_argv = Ret (Running (s, ks_fd))"
    and "\<forall>cfg. ks_config (ks_argv ! 1) = Some cfg \<longrightarrow> config_get_array_value cfg ''QUEUES_ALGORITHMS'' \<noteq> []"
    and "km_boot srv"
    and "cpu_main cpu_connect cpu_config cpu_argv net input = Ret (Running (c, to_ks, to_km, rest))"
    and "get_instructions_from_file files string_split (base @ ''/'' @ ks_argv ! 2) = Some (line # lines)"
    and "sendable (ks_argv ! 2)"
  shows "\<exists>srv1 s1 s2 s3 c1 srv2 ctx c2 srv3.
     outbox s = [(Kernel_Memory, t_module_id_send MODULE_KERNEL_SCHEDULER), (Kernel_Memory, create_request (ks_argv ! 2))] \<and>
     kernel_scheduler_handler files string_split base hole_sort PROCESS_CREATE (stream (create_request (ks_argv ! 2))) srv = Ret srv1 \<and>
     to_scheduler (km srv1) = to_scheduler (km srv) @ [uint32_send_with_op_code 0 PROCESS_CREATE] \<and>
     ks_kernel_memory_handler list_sort now PROCESS_CREATE (stream (uint32_send_with_op_code 0 PROCESS_CREATE)) s = Ret s1 \<and>
     client_handler_selector cpu_fd to_ks s1 = Ret (s2, []) \<and>
     short_term_scheduler_turn now s2 = Some s3 \<and> proc_state (procs s3 1) = EXEC \<and>
     outbox s3 = outbox s @ [(Client 1, package_add (u32_bytes 0) (package_with PROCESS_EXECUTE))] \<and> ci_fd (clients s3 1) = cpu_fd \<and>
     cpu_steps [Recv_execute 0, Handler, Handler, Handler] c = Some c1 \<and>
     sent (cpu c1) = sent (cpu c) @ [(To_memory, context_request 0)] \<and>
     km_cpu_handler peer CONTEXT_SEEK (stream (context_request 0)) srv1 = Ret srv2 \<and>
     outgoing srv2 = outgoing srv1 @ [(ci_fd peer, context_send_from_pcb ctx [])] \<and>
     context_receive (stream (context_send_from_pcb ctx [])) = Ret (Some (ctx, [])) \<and>
     cpu_steps [Recv_context ctx [], Executor, Executor, Executor, Executor] c1 = Some c2 \<and>
     sent (cpu c2) = sent (cpu c1) @ [(To_memory, fetch_package 0 0)] \<and>
     km_cpu_handler peer INSTRUCTION_FETCH (stream (fetch_package 0 0)) srv2 = Ret srv3 \<and>
     outgoing srv3 = outgoing srv2 @ [(ci_fd peer, instruction_message line)]"
proof -
  note start = ks_main_state [OF assms(1)]
  obtain cpu_id where hello: "to_ks = cpu_hello cpu_id"
    using assms(4) by (auto simp: cpu_main_def and_runs_Running and_then_eq_Ret Let_def connect_kernel_scheduler_def
        split: if_splits option.splits)
  have "ks_inv s" using assms(2) by (intro ks_main_inv [OF assms(1)]) simp
  then obtain s1 s2 s3 where ks:
    "ks_kernel_memory_handler list_sort now PROCESS_CREATE (stream (uint32_send_with_op_code 0 PROCESS_CREATE)) s = Ret s1"
    "client_handler_selector cpu_fd to_ks s1 = Ret (s2, [])" "short_term_scheduler_turn now s2 = Some s3"
    "outbox s3 = outbox s @ [(Client 1, package_add (u32_bytes 0) (package_with PROCESS_EXECUTE))]"
    "ci_fd (clients s3 1) = cpu_fd" "proc_state (procs s3 1) = EXEC"
    using first_dispatched [of s list_sort now cpu_fd cpu_id] start by (auto simp: all_clients_def hello)
  let ?pcb = "create_pcb files string_split 0 (base @ ''/'' @ ks_argv ! 2)"
  let ?ctx = "pcb_context ?pcb"
  let ?srv1 = "srv\<lparr>km := send_to_scheduler (uint32_send_with_op_code 0 PROCESS_CREATE)
      ((km srv)\<lparr>km_state.list_processes := [?pcb]\<rparr>)\<rparr>"
  let ?srv2 = "send_on (ci_fd peer) (context_send_from_pcb ?ctx []) ?srv1"
  let ?srv3 = "send_on (ci_fd peer) (instruction_message line) ?srv2"
  have pcb: "List.find (find_by_pid 0) (km_state.list_processes (km ?srv1)) = Some ?pcb"
    "pcb_instructions ?pcb = Some (line # lines)" "segment_table ?pcb = []" "pc ?ctx = 0"
    using assms(5) by (simp_all add: send_to_scheduler_def find_by_pid_def create_pcb_def)
  have created: "kernel_scheduler_handler files string_split base hole_sort PROCESS_CREATE (stream (create_request (ks_argv ! 2))) srv = Ret ?srv1"
    by (rule first_created [OF boot_keeps [OF assms(3)] assms(5,6)])
  have seek: "km_cpu_handler peer CONTEXT_SEEK (stream (context_request 0)) ?srv1 = Ret ?srv2"
    using pcb(1,3) by (simp add: km_cpu_handler_def cpu_context_seek_def context_request_def)
  have fetch: "km_cpu_handler peer INSTRUCTION_FETCH (stream (fetch_package 0 0)) ?srv2 = Ret ?srv3"
    using pcb by (simp add: km_cpu_handler_def cpu_instruction_fetch_def fetch_package_def send_on_def)
  obtain c1 where c1: "cpu_steps [Recv_execute 0, Handler, Handler, Handler] c = Some c1" "hdl c1 = H_wait_context 0"
    "\<not> should_exit (cpu c1)" "\<not> should_stop (cpu c1)" "sent (cpu c1) = sent (cpu c) @ [(To_memory, context_request 0)]"
    using cpu_asks_context [OF cpu_main_started [OF assms(4)], of 0] by blast
  obtain c2 where c2: "cpu_steps [Recv_context ?ctx [], Executor, Executor, Executor, Executor] c1 = Some c2"
    "sent (cpu c2) = sent (cpu c1) @ [(To_memory, fetch_package 0 0)]"
    using cpu_asks_instruction [OF c1(2-4), of ?ctx "[]"] pcb(4) by auto
  have ctx: "context_receive (stream (context_send_from_pcb ?ctx [])) = Ret (Some (?ctx, []))"
    using context_load_roundtrip [of "[]" ?ctx] by simp
  show ?thesis
    by (rule exI [of _ ?srv1], rule exI [of _ s1], rule exI [of _ s2], rule exI [of _ s3], rule exI [of _ c1],
        rule exI [of _ ?srv2], rule exI [of _ ?ctx], rule exI [of _ c2], rule exI [of _ ?srv3])
      (intro conjI start(1) created ks seek fetch c1(1,5) c2 ctx; simp add: send_to_scheduler_def send_on_def)
qed

definition example_scheduler_config :: t_config where
  "example_scheduler_config = \<lparr>config_get_string_value = \<lambda>key. Some (if key = ''QUEUE_PREEMPTION'' then ''TRUE'' else ''CMN''),
     config_get_int_value = \<lambda>key. 100, config_get_array_value = \<lambda>key. [''FIFO'', ''RR'']\<rparr>"

definition example_program :: "string \<rightharpoonup> string" where
  "example_program = [''scripts/init'' \<mapsto> ''NOOP'']"

theorem first_process_starts_witness:
  "\<exists>s srv1 srv2 srv3.
     ks_main example_os (\<lambda>_ _. 5) (\<lambda>_. Some example_scheduler_config) [''scheduler'', ''scheduler.config'', ''init''] =
       Ret (Running (s, 3)) \<and>
     kernel_scheduler_handler example_program (\<lambda>x _. [x]) ''scripts'' sort_by PROCESS_CREATE (stream (create_request ''init'')) example_boot =
       Ret srv1 \<and>
     km_cpu_handler (create_client_info 9 1) CONTEXT_SEEK (stream (context_request 0)) srv1 = Ret srv2 \<and>
     km_cpu_handler (create_client_info 9 1) INSTRUCTION_FETCH (stream (fetch_package 0 0)) srv2 = Ret srv3 \<and>
     outgoing srv3 = outgoing srv2 @ [(9, instruction_message ''NOOP'')]"
proof -
  obtain s\<^sub>0 where "ks_setup ''CMN'' [''FIFO'', ''RR''] ''TRUE'' 100 100 = Some s\<^sub>0"
    by (simp add: ks_setup_def Let_def scheduler_algorithm_from_string_def)
  moreover have "server_start example_os p = 3" for p by (simp add: server_start_def example_os_def Let_def)
  ultimately obtain s where s: "ks_main example_os (\<lambda>_ _. 5) (\<lambda>_. Some example_scheduler_config)
      [''scheduler'', ''scheduler.config'', ''init''] = Ret (Running (s, 3))"
    by (simp add: ks_main_def configured_setup_def kernel_memory_connection_def example_scheduler_config_def)
  have "atoi ''1'' = 1" by (simp add: atoi_def atoi_int_def is_space_def digit_of_def)
  moreover have "receive_credentials_list (package_serialize (send_credentials_list []) @ rest) = Ret (Some [], rest)" for rest
    by (rule credentials_list_roundtrip) (simp_all add: send_credentials_list_def)
  ultimately obtain c to_ks to_km where c: "cpu_main (\<lambda>_ _. 5) (\<lambda>_. Some example_config) [''cpu'', ''cpu.config'', ''1''] Map.empty
      (package_serialize (send_credentials_list []) @ package_serialize (uint32_send 64) @ []) = Ret (Running (c, to_ks, to_km, []))"
    by (simp add: cpu_main_def connect_kernel_scheduler_def connect_kernel_memory_def uint32_received del: append_Nil2)
  have "get_instructions_from_file example_program (\<lambda>x _. [x]) (''scripts'' @ ''/'' @ ''init'') = Some [''NOOP'']"
    by (simp add: get_instructions_from_file_def example_program_def)
  moreover have "sendable ''init''" by (simp add: sendable_def c_str_def byte_of_char_def)
  ultimately show ?thesis
    using first_process_starts [OF s _ example_boot c, of example_program "\<lambda>x _. [x]" "''scripts''" "''NOOP''" "[]"
        sort_by "\<lambda>_ xs. xs" 0 9 "create_client_info 9 1"] s
    by (simp add: example_scheduler_config_def create_client_info_def del: append.simps) blast
qed

end
