(* ===== verification/Preemption.thy ===== *)
theory Preemption
  imports Boot
begin

text \<open>
  A preemption from end to end: Kernel Scheduler orders a process off its CPU, the two threads of
  the CPU evict it, Kernel Memory keeps its context, and the waiting thread of Kernel Scheduler
  puts it back and frees the CPU.
\<close>

definition evict_order :: "t_interrupt_reason \<Rightarrow> t_package" where
  "evict_order reason = package_add (u32_bytes (reason_int reason)) (package_with PROCESS_EVICT)"

definition interruption :: "u32 \<Rightarrow> t_interrupt_reason \<Rightarrow> t_package" where
  "interruption pid reason =
     package_add (u32_bytes (reason_int reason)) (package_add (u32_bytes pid) (package_with PROCESS_INTERRUPTED))"

section \<open>Kernel Scheduler\<close>

lemma eviction_ordered:
  assumes "\<not> is_evicting (clients s k)"
  shows "evict_process (Some k) reason True s =
    add_waiter (Wait_confirmation k True) (ks_send (Client k) (evict_order reason) (upd_client k (\<lambda>i. i\<lparr>is_evicting := True\<rparr>) s))"
  using assms by (simp add: evict_process_def send_process_evict_def evict_order_def)

text \<open>The waiting thread: the process goes to the end of its queue, the CPU is free.\<close>

lemma eviction_handled:
  assumes "get_process_from_cpu s k = Some p" and "\<not> pending_memory_syscall (procs s p)"
    and "Wait_confirmation k True \<in> set (waiters s)"
  shows "\<exists>t. waiter_turn (Wait_confirmation k True) (upd_client k (\<lambda>i. i\<lparr>response_sem := response_sem i + 1\<rparr>) s) = Some t \<and>
    procs t = (procs s)(p := (procs s p)\<lparr>proc_cpu := None, proc_state := READY\<rparr>) \<and>
    ready_queue t = (ready_queue s)[queue_index s p := ready_queue s ! queue_index s p @ [p]] \<and> cpu_free t k"
proof -
  define u where "u = take_response k ((upd_client k (\<lambda>i. i\<lparr>response_sem := response_sem i + 1\<rparr>) s)
      \<lparr>waiters := remove1 (Wait_confirmation k True) (waiters s)\<rparr>)"
  have u: "procs u = procs s" "ready_queue u = ready_queue s" "ks_state.list_processes u = ks_state.list_processes s"
    "scheduler_algorithm u = scheduler_algorithm s" "queue_algorithms_count u = queue_algorithms_count s"
    by (simp_all add: u_def take_response_def upd_client_def)
  have "get_process_from_cpu u k = Some p" using assms(1) by (simp add: get_process_from_cpu_def u)
  moreover have "queue_index (process_set_state READY p (process_set_cpu None p (exec_remove p (free_cpu k u)))) p = queue_index s p"
    by (simp add: queue_index_def process_set_state_def process_set_cpu_def exec_remove_def free_cpu_def upd_proc_def
        upd_client_def u)
  ultimately have c: "procs (confirmed_and_handle_state k u) = (procs s)(p := (procs s p)\<lparr>proc_cpu := None, proc_state := READY\<rparr>)"
    "ready_queue (confirmed_and_handle_state k u) = (ready_queue s)[queue_index s p := ready_queue s ! queue_index s p @ [p]]"
    "cpu_free (confirmed_and_handle_state k u) k"
    using assms(2) by (simp_all add: confirmed_and_handle_state_def Let_def wake_scheduler_def add_process_to_ready_queue_def
        on_queue_def u) (simp_all add: process_set_state_def process_set_cpu_def exec_remove_def free_cpu_def upd_proc_def
        upd_client_def u cpu_free_def)
  have "waiter_turn (Wait_confirmation k True) (upd_client k (\<lambda>i. i\<lparr>response_sem := response_sem i + 1\<rparr>) s) =
      Some ((confirmed_and_handle_state k u)\<lparr>waiters := waiters (confirmed_and_handle_state k u) @ []\<rparr>)"
    using assms(3) by (simp add: waiter_turn_def u_def) (simp add: upd_client_def)
  then show ?thesis using c by (simp add: cpu_free_def)
qed

section \<open>The CPU\<close>

lemma evicts_at_poll:
  assumes "exe c = E_poll" "hdl c = H_listen" "is_executing c" "sem_eviction_ready c = 0" "sem_execution_finished c = 0"
    and "\<not> should_exit (cpu c)" "\<not> should_stop (cpu c)"
    and "cpu_steps (Recv_evict reason # Handler # evs) c = Some c'" and "set evs \<subseteq> {Executor, Handler}"
    and "cpu_step Executor c' = None" and "cpu_step Handler c' = None"
  shows "sent (cpu c') = sent (cpu c) @ [(To_memory, context_send (exec_context c) (exec_pid c)),
      (To_scheduler, interruption (exec_pid c) reason), (To_scheduler, send_confirmation (current_pid c))]"
    and "exe c' = E_none" and "hdl c' = H_listen"
proof -
  let ?c = "c\<lparr>cpu := (cpu c)\<lparr>interrupt_pending := True, interrupt_reason := reason\<rparr>, hdl := H_wait_ready\<rparr>"
  have "cpu_steps evs ?c = Some c'"
    using assms(1-3,8) by (simp add: cpu_step_def)
  then have "sent (cpu c') = eviction_log ?c @ [(To_scheduler, send_confirmation (current_pid ?c))] \<and>
      exe c' = E_none \<and> hdl c' = H_listen"
    using eviction_rests [of ?c evs c'] assms by simp
  then show "sent (cpu c') = sent (cpu c) @ [(To_memory, context_send (exec_context c) (exec_pid c)),
      (To_scheduler, interruption (exec_pid c) reason), (To_scheduler, send_confirmation (current_pid c))]"
    "exe c' = E_none" "hdl c' = H_listen"
    by (simp_all add: eviction_log_def interruption_def)
qed

section \<open>From the order to the queue\<close>

lemma context_transfer_stores:
  assumes "List.find (find_by_pid pid) (km_state.list_processes k) = Some pcb"
  shows "\<exists>k'. cpu_context_transfer (stream (context_send c pid)) k = Ret k' \<and>
    List.find (find_by_pid pid) (km_state.list_processes k') = Some (pcb\<lparr>pcb_context := c\<rparr>)"
proof -
  let ?k = "k\<lparr>km_state.list_processes := update_first (find_by_pid pid) (\<lambda>pcb. pcb\<lparr>pcb_context := c\<rparr>) (km_state.list_processes k)\<rparr>"
  have "find_by_pid pid pcb" using find_Some_iff_set [OF assms(1)] by simp
  have "List.find (find_by_pid pid) (update_first (find_by_pid pid) (\<lambda>pcb. pcb\<lparr>pcb_context := c\<rparr>) xs) =
      map_option (\<lambda>pcb. pcb\<lparr>pcb_context := c\<rparr>) (List.find (find_by_pid pid) xs)" for xs
    by (induction xs) (auto simp: find_by_pid_def)
  then have "List.find (find_by_pid pid) (km_state.list_processes ?k) = Some (pcb\<lparr>pcb_context := c\<rparr>)"
    using assms by simp
  moreover have "cpu_context_transfer (stream (context_send c pid)) k = Ret ?k"
    by (simp add: cpu_context_transfer_def context_save_roundtrip)
  ultimately show ?thesis by blast
qed

lemma eviction_messages:
  "ks_cpu_handler eq now k PROCESS_INTERRUPTED (stream (interruption pid reason)) s = Ret s"
  "ks_cpu_handler eq now k CONFIRMATION (stream (send_confirmation pid)) s =
     Ret (upd_client k (\<lambda>i. i\<lparr>response_sem := response_sem i + 1\<rparr>) s)"
  by (simp_all add: ks_cpu_handler_def interruption_message_def receive_interruption_def read_u32_pair_def interruption_def
      eviction_confirmed_def send_confirmation_def)



end
