(* ===== verification/Suspension.thy ===== *)
theory Suspension
  imports Preemption
begin

text \<open>
  When a suspended process comes back: Kernel Scheduler asks for it with \<open>SWAP_IN\<close>, and does so in
  \<open>memory_update\<close> only; Kernel Memory sends \<open>MEMORY_UPDATE\<close> when Kernel Scheduler or a Memory
  Stick connects, and at no other time.
\<close>

section \<open>Kernel Scheduler\<close>

text \<open>The requests for suspended processes among what was sent.\<close>

definition swap_in_requests :: "ks_state \<Rightarrow> t_package list" where
  "swap_in_requests s = map snd (filter (\<lambda>(t, pkg). t = Kernel_Memory \<and> pkg_op pkg = SWAP_IN) (outbox s))"

lemma swap_in_requests_fields: "outbox t = outbox s \<Longrightarrow> swap_in_requests t = swap_in_requests s"
  by (simp add: swap_in_requests_def)

lemma outbox_frame [simp]:
  "outbox (upd_proc p f s) = outbox s" "outbox (upd_client c g s) = outbox s" "outbox (upd_mutex m h s) = outbox s"
  "outbox (wake_scheduler s) = outbox s" "outbox (add_waiter w s) = outbox s" "outbox (on_queue i k s) = outbox s"
  "outbox (add_process_to_ready_queue p s) = outbox s" "outbox (add_process_at_start_of_ready_queue p s) = outbox s"
  "outbox (remove_process_from_ready_queue p s) = outbox s" "outbox (exec_add p s) = outbox s"
  "outbox (exec_remove p s) = outbox s" "outbox (block_add p s) = outbox s" "outbox (block_remove p s) = outbox s"
  "outbox (process_set_state st p s) = outbox s" "outbox (process_set_cpu co p s) = outbox s"
  "outbox (process_set_priority pr p s) = outbox s" "outbox (process_set_ready p s) = outbox s"
  "outbox (set_block_time now p s) = outbox s" "outbox (set_pending b p s) = outbox s" "outbox (free_cpu c s) = outbox s"
  "outbox (take_response c s) = outbox s" "outbox (suspend_one p s) = outbox s"
  by (simp_all add: upd_proc_def upd_client_def upd_mutex_def wake_scheduler_def add_waiter_def on_queue_def
      add_process_to_ready_queue_def add_process_at_start_of_ready_queue_def remove_process_from_ready_queue_def
      exec_add_def exec_remove_def block_add_def block_remove_def process_set_state_def process_set_cpu_def
      process_set_priority_def process_set_ready_def set_block_time_def set_pending_def free_cpu_def take_response_def
      suspend_one_def)

lemma outbox_calls [simp]:
  "outbox (change_priority pr p s) = outbox s" "outbox (inherit_priority p q s) = outbox s"
  "outbox (restore_priority p s) = outbox s" "outbox (hand_over m s) = outbox s" "outbox (block_process now p s) = outbox s"
  "outbox (unblock_process p s) = outbox s" "outbox (memory_write_confirmed p s) = outbox s"
  "outbox (io_finish_process pid io s) = outbox s" "outbox (mutex_create eq name s) = outbox s"
  "outbox (confirmed_and_handle_state c s) = outbox s" "outbox (confirmed c s) = outbox s" "outbox (evicted_one c s) = outbox s"
  "outbox (compaction_over s) = outbox s" "outbox (wait_process_create_confirmation pid s) = outbox s"
  "outbox (wait_confirmation_swap_out now pid ok s) = outbox s"
  by (simp_all add: change_priority_def inherit_priority_def restore_priority_def hand_over_def block_process_def
      unblock_process_def memory_write_confirmed_def io_finish_process_def mutex_create_def confirmed_and_handle_state_def
      confirmed_def evicted_one_def compaction_over_def wait_process_create_confirmation_def
      wait_confirmation_swap_out_def Let_def split: list.split option.split)

lemma requests_send [simp]:
  "swap_in_requests (ks_send t pkg s) =
     swap_in_requests s @ (if t = Kernel_Memory \<and> pkg_op pkg = SWAP_IN then [pkg] else [])"
  by (simp add: swap_in_requests_def ks_send_def)

lemmas requests_frame [simp] = outbox_frame [THEN swap_in_requests_fields] outbox_calls [THEN swap_in_requests_fields]

lemma requests_record [simp]:
  "swap_in_requests (s\<lparr>procs := x\<rparr>) = swap_in_requests s" "swap_in_requests (s\<lparr>clients := k\<rparr>) = swap_in_requests s"
  "swap_in_requests (s\<lparr>ks_state.list_processes := y\<rparr>) = swap_in_requests s"
  "swap_in_requests (s\<lparr>suspended_processes := y\<rparr>) = swap_in_requests s"
  "swap_in_requests (s\<lparr>ks_state.list_cpu := z\<rparr>) = swap_in_requests s" "swap_in_requests (s\<lparr>list_io_sleep := z\<rparr>) = swap_in_requests s"
  "swap_in_requests (s\<lparr>list_io_stdin := z\<rparr>) = swap_in_requests s" "swap_in_requests (s\<lparr>list_io_stdout := z\<rparr>) = swap_in_requests s"
  "swap_in_requests (s\<lparr>pending_request_io_sleep := a\<rparr>) = swap_in_requests s"
  "swap_in_requests (s\<lparr>pending_request_io_stdin := a\<rparr>) = swap_in_requests s"
  "swap_in_requests (s\<lparr>pending_request_io_stdout := b\<rparr>) = swap_in_requests s"
  "swap_in_requests (s\<lparr>pending_io_stdin_reading := c\<rparr>) = swap_in_requests s"
  "swap_in_requests (s\<lparr>short_term_scheduler_sem := n\<rparr>) = swap_in_requests s"
  "swap_in_requests (s\<lparr>compaction_finished_sem := n\<rparr>) = swap_in_requests s"
  "swap_in_requests (s\<lparr>current_max_pid := i\<rparr>) = swap_in_requests s" "swap_in_requests (s\<lparr>next_io_id := i\<rparr>) = swap_in_requests s"
  "swap_in_requests (s\<lparr>waiters := w\<rparr>) = swap_in_requests s" "swap_in_requests (s\<lparr>can_schedule := t\<rparr>) = swap_in_requests s"
  "swap_in_requests (s\<lparr>halted := t\<rparr>) = swap_in_requests s"
  by (simp_all add: swap_in_requests_def)

lemma requests_messages [simp]:
  "swap_in_requests (send_process_create_info pid path s) = swap_in_requests s"
  "swap_in_requests (send_memory_write pid a n text s) = swap_in_requests s"
  "swap_in_requests (send_memory_read pid a n s) = swap_in_requests s"
  "swap_in_requests (send_process_end pid s) = swap_in_requests s"
  "swap_in_requests (send_pid_to_execute pid co s) = swap_in_requests s"
  "swap_in_requests (evict_process co reason b s) = swap_in_requests s"
  "swap_in_requests (snd (send_process_evict co reason s)) = swap_in_requests s"
  "swap_in_requests (send_swap_out p s) = swap_in_requests s"
  by (simp_all add: send_process_create_info_def send_memory_write_def send_memory_read_def send_process_end_def
      send_pid_to_execute_def evict_process_def send_process_evict_def send_swap_out_def uint32_send_with_op_code_def
      split: option.split)

lemma requests_schedulers [simp]:
  "swap_in_requests (dispatch_one now p c s) = swap_in_requests s" "swap_in_requests (preempt p s) = swap_in_requests s"
  "swap_in_requests (long_term_scheduler path priority s) = swap_in_requests s"
  "swap_in_requests (snd (suspend_scan now ps l s)) = swap_in_requests s"
  "swap_in_requests (fold send_swap_out ps s) = swap_in_requests s"
  "swap_in_requests (suspension_manager_turn now s) = swap_in_requests s"
proof -
  show scan: "swap_in_requests (snd (suspend_scan now ps l s)) = swap_in_requests s" for ps l s
    by (induction now ps l s rule: suspend_scan.induct) simp_all
  show out: "swap_in_requests (fold send_swap_out ps s) = swap_in_requests s" for ps s
    by (induction ps arbitrary: s) simp_all
  show "swap_in_requests (suspension_manager_turn now s) = swap_in_requests s"
    using scan [of "block_processes s" "[]" s]
    by (cases "suspend_scan now (block_processes s) [] s") (simp add: suspension_manager_turn_def out)
qed (simp_all add: dispatch_one_def preempt_def long_term_defs Let_def split: option.split)

lemma requests_dispatch [simp]: "swap_in_requests (dispatch_loop now s) = swap_in_requests s"
  by (induction now s rule: dispatch_loop.induct) (subst dispatch_loop.simps, auto split: option.splits)

lemma requests_quantum [simp]: "swap_in_requests (quantum_pass now s) = swap_in_requests s"
  by (induction now s rule: quantum_pass.induct) (subst quantum_pass.simps, auto split: option.splits)

lemma requests_evictions [simp]: "swap_in_requests (evict_all_orders reason s) = swap_in_requests s"
proof -
  have "swap_in_requests (snd (evict_each cs reason s)) = swap_in_requests s" for cs
  proof (induction cs arbitrary: s)
    case (Cons co cs)
    have "swap_in_requests (snd (send_process_evict co reason s)) = swap_in_requests s" by simp
    then show ?case using Cons.IH [of "snd (send_process_evict co reason s)"] by (auto split: prod.splits)
  qed simp
  then show ?thesis by (simp add: evict_all_orders_def split: prod.split) (metis snd_conv)
qed

lemma requests_managers [simp]:
  "swap_in_requests (mem_alloc_syscall_manager pid sid sz s) = swap_in_requests s"
  "swap_in_requests (mem_free_syscall_manager pid sid s) = swap_in_requests s"
  "swap_in_requests (handle_segment_result pid result s) = swap_in_requests s"
  "swap_in_requests (compaction_requested s) = swap_in_requests s" "swap_in_requests (memory_corrupted s) = swap_in_requests s"
  "swap_in_requests (all_evicted reason s) = swap_in_requests s"
  "swap_in_requests (sleep_syscall_manager now p c n s) = swap_in_requests s"
  "swap_in_requests (stdin_syscall_manager now p c a n s) = swap_in_requests s"
  "swap_in_requests (stdout_syscall_manager now p c a n s) = swap_in_requests s"
  "swap_in_requests (handle_next_operation io ty s) = swap_in_requests s"
  "swap_in_requests (mutex_unlock m p s) = swap_in_requests s"
  "swap_in_requests (process_end_message pid c s) = swap_in_requests s" "swap_in_requests (unknown_mutex p c s) = swap_in_requests s"
  "swap_in_requests (wait_confirmation_swap_in now pids s) = swap_in_requests s"
proof -
  have "swap_in_requests (snd (swapped_in now pid r)) = swap_in_requests (snd r)" for pid r
    by (cases r) (simp add: swapped_in_def Let_def split: option.split)
  then have "swap_in_requests (snd (fold (swapped_in now) pids r)) = swap_in_requests (snd r)" for r
    by (induction pids arbitrary: r) simp_all
  from this [of "(False, s)"] show "swap_in_requests (wait_confirmation_swap_in now pids s) = swap_in_requests s"
    by (auto simp: wait_confirmation_swap_in_def split: prod.split)
qed (simp_all add: mem_alloc_syscall_manager_def mem_free_syscall_manager_def handle_segment_result_def compaction_requested_def
    memory_corrupted_def all_evicted_def sleep_syscall_manager_def stdin_syscall_manager_def stdout_syscall_manager_def
    handle_next_operation_def mutex_unlock_def process_end_message_def unknown_mutex_def Let_def
    split: option.split t_io_type.split list.split)

text \<open>The messages of Kernel Memory, all but one, and those of the others.\<close>

lemma requests_waiter: "waiter_turn w s = Some t \<Longrightarrow> swap_in_requests t = swap_in_requests s"
proof -
  have "waiter_step w u = Some (ws, v) \<Longrightarrow> swap_in_requests v = swap_in_requests u" for u v ws
    by (induction w u rule: waiter_step.induct) (auto split: if_splits)
  then show "waiter_turn w s = Some t \<Longrightarrow> swap_in_requests t = swap_in_requests s"
    by (fastforce simp: waiter_turn_def split: if_splits option.splits)
qed

lemma requests_mutex_lock: "mutex_lock now m p s = Ret t \<Longrightarrow> swap_in_requests t = swap_in_requests s"
  by (auto simp: mutex_lock_def Let_def and_then_eq_Ret split: if_splits)

lemma requests_mutex_message:
  assumes "\<And>m p u v. f m p u = Ret v \<Longrightarrow> swap_in_requests v = swap_in_requests u"
  shows "mutex_message eq f pid name c s = Ret t \<Longrightarrow> swap_in_requests t = swap_in_requests s"
  using assms by (auto simp: mutex_message_def split: option.splits)

lemma requests_cpu: "ks_cpu_handler eq now c op buffer s = Ret t \<Longrightarrow> swap_in_requests t = swap_in_requests s"
  by (cases op) (auto simp: ks_cpu_handler_def cpu_message_defs and_then_eq_Ret with_process_def split: option.splits
      dest!: requests_mutex_message [rotated] requests_mutex_lock)

lemma requests_memory:
  "ks_kernel_memory_handler list_sort now op buffer s = Ret t \<Longrightarrow> op \<noteq> MEMORY_UPDATE \<Longrightarrow>
   swap_in_requests t = swap_in_requests s"
  by (cases op) (auto simp: ks_kernel_memory_handler_def and_then_eq_Ret io_memory_write_answer_def
      stdout_wait_memory_read_def Let_def split: if_splits option.splits)

lemma requests_stdin: "stdin_answer io ty r s = Ret t \<Longrightarrow> swap_in_requests t = swap_in_requests s"
  by (auto simp: stdin_answer_def Let_def and_then_eq_Ret split: option.splits)

lemma requests_io: "ks_io_handler io ty op buffer s = Ret t \<Longrightarrow> swap_in_requests t = swap_in_requests s"
  by (cases op) (auto simp: ks_io_handler_def and_then_eq_Ret split: option.splits dest: requests_stdin)

lemma requests_step:
  assumes "ks_step eq list_sort s t"
  shows "swap_in_requests t = swap_in_requests s \<or>
    (\<exists>now buffer. ks_kernel_memory_handler list_sort now MEMORY_UPDATE buffer s = Ret t)"
  using assms
proof cases
  case (memory_message now op buffer)
  then show ?thesis using requests_memory [of list_sort now op buffer s t] by (cases "op = MEMORY_UPDATE") auto
qed (auto simp: short_term_scheduler_turn_def quantum_manager_turn_def ks_cpu_connected_def handle_cpu_disconnection_def
    io_connected_def io_disconnected_def id_assigner_def Let_def dest: requests_waiter requests_cpu requests_io
    split: if_splits option.split t_io_type.split)

section \<open>Kernel Memory\<close>

definition memory_updates :: "km_state \<Rightarrow> t_package list" where
  "memory_updates s = filter (\<lambda>pkg. pkg_op pkg = MEMORY_UPDATE) (to_scheduler s)"

lemma updates_send [simp]:
  "memory_updates (send_to_scheduler pkg s) = memory_updates s @ (if pkg_op pkg = MEMORY_UPDATE then [pkg] else [])"
  by (simp add: memory_updates_def send_to_scheduler_def)

lemma updates_record [simp]:
  "memory_updates (s\<lparr>km_state.list_processes := ps\<rparr>) = memory_updates s"
  "memory_updates (s\<lparr>list_suspended_processes := sps\<rparr>) = memory_updates s"
  "memory_updates (s\<lparr>km_memory := m\<rparr>) = memory_updates s" "memory_updates (s\<lparr>swap_dev := d\<rparr>) = memory_updates s"
  "memory_updates (s\<lparr>total_memory_size := n'\<rparr>) = memory_updates s"
  "memory_updates (s\<lparr>compaction_sem := n\<rparr>) = memory_updates s" "memory_updates (s\<lparr>compaction_waiters := w\<rparr>) = memory_updates s"
  by (simp_all add: memory_updates_def)

lemma updates_suspend:
  "suspend_segments segs acc s = Ret (r, t) \<Longrightarrow> memory_updates t = memory_updates s"
  by (induction segs acc s arbitrary: r t rule: suspend_segments.induct)
    (fastforce simp: and_then_eq_Ret write_segment_to_swap_def Let_def split: if_splits option.splits)+

lemma updates_process_suspend: "process_suspend pid s = Ret (ok, t) \<Longrightarrow> memory_updates t = memory_updates s"
  by (auto simp: process_suspend_def and_then_eq_Ret split: option.splits dest!: updates_suspend)

lemma updates_restore:
  "restore_segments list_sort sss acc s = Ret (r, t) \<Longrightarrow> memory_updates t = memory_updates s"
  by (induction list_sort sss acc s arbitrary: r t rule: restore_segments.induct)
    (fastforce simp: and_then_eq_Ret Let_def split: if_splits option.splits)+

lemma updates_desuspend: "process_desuspend list_sort pid s = Ret (ok, t) \<Longrightarrow> memory_updates t = memory_updates s"
  by (auto simp: process_desuspend_def and_then_eq_Ret split: option.splits dest!: updates_restore)

lemma updates_desuspend_all: "desuspend_all list_sort pids acc s = Ret (r, t) \<Longrightarrow> memory_updates t = memory_updates s"
  by (induction list_sort pids acc s arbitrary: r t rule: desuspend_all.induct)
    (fastforce simp: and_then_eq_Ret dest: updates_desuspend)+

lemma updates_scheduler:
  "kernel_scheduler_handler files split base hole_sort op buffer srv = Ret srv' \<Longrightarrow>
   memory_updates (km srv') = memory_updates (km srv)"
  by (cases op) (auto simp: kernel_scheduler_handler_def on_km_run_def on_km_def and_then_eq_Ret km_process_create_def
      km_process_end_def km_segment_delete_def segment_delete_def send_segment_result_def km_io_memory_read_def
      km_io_memory_write_def km_swap_out_def km_swap_in_def uint32_send_with_op_code_def
      uint32_list_send_def Let_def split: if_splits option.splits prod.splits t_segment_result.splits
      dest!: updates_process_suspend updates_desuspend_all)

lemma updates_cpu: "km_cpu_handler c op buffer srv = Ret srv' \<Longrightarrow> memory_updates (km srv') = memory_updates (km srv)"
  by (cases op) (auto simp: km_cpu_handler_def on_km_run_def cpu_context_transfer_def and_then_eq_Ret send_on_def Let_def
      split: option.splits)

lemma updates_place: "place_segment pid sid sz h s = (r, t) \<Longrightarrow> memory_updates t = memory_updates s"
  by (auto simp: place_segment_def Let_def split: option.splits)

lemma updates_create:
  "memory_updates (segment_create_thread hole_sort pid sid sz s) = memory_updates s"
  by (auto simp: segment_create_thread_def segment_create_def send_segment_result_def Let_def
      split: option.splits prod.splits if_splits dest: updates_place)

lemma updates_resume:
  assumes "segment_create_thread_resume seg_sort hole_sort args s = Ret t"
  shows "memory_updates t = memory_updates s"
proof -
  have compact: "compact_memory seg_sort u = Ret v \<Longrightarrow> memory_updates v = memory_updates u" for u v
    by (auto simp: compact_memory_def and_then_eq_Ret Let_def)
  show ?thesis
    using assms by (auto simp: segment_create_thread_resume_def segment_create_resume_def finish_compaction_def
        and_then_eq_Ret send_segment_result_def split: prod.splits option.splits dest!: compact updates_place)
qed

lemma updates_run:
  "km_run files split base seg_sort hole_sort srv es srv' \<Longrightarrow> memory_updates (km srv') = memory_updates (km srv)"
proof (induction rule: km_run.induct)
  case (more srv e srv' es srv'')
  from more.hyps(1) have "memory_updates (km srv') = memory_updates (km srv)"
    by cases (simp_all add: updates_scheduler updates_cpu updates_create updates_resume)
  then show ?case using more.IH by simp
qed simp

section \<open>Both\<close>

text \<open>C29: freed memory brings no suspended process back: in every run of Kernel Scheduler a request for
  suspended processes goes out only in the handling of a \<open>MEMORY_UPDATE\<close>, and in every run of Kernel
  Memory over its messages and threads, whatever segments are deleted, processes end or memory is
  compacted, no \<open>MEMORY_UPDATE\<close> is sent; a Memory Stick that connects is what sends one.\<close>
theorem resumed_for_new_sticks_only:
  assumes "(ks_step eq list_sort)\<^sup>*\<^sup>* s t" and "km_run files split base seg_sort hole_sort srv es srv'"
  shows "(swap_in_requests t \<noteq> swap_in_requests s \<longrightarrow>
      (\<exists>u v now buffer. (ks_step eq list_sort)\<^sup>*\<^sup>* s u \<and>
         ks_kernel_memory_handler list_sort now MEMORY_UPDATE buffer u = Ret v \<and> (ks_step eq list_sort)\<^sup>*\<^sup>* v t)) \<and>
    memory_updates (km srv') = memory_updates (km srv) \<and>
    (kernel_scheduler srv' \<noteq> None \<longrightarrow>
      memory_updates (km (snd (memory_stick_announce stick_fd sz srv'))) =
        memory_updates (km srv') @ [package_add (u32_bytes (total_memory_size (km srv') + sz)) (package_with MEMORY_UPDATE)])"
proof -
  have "swap_in_requests t = swap_in_requests s \<or>
      (\<exists>u v now buffer. (ks_step eq list_sort)\<^sup>*\<^sup>* s u \<and>
         ks_kernel_memory_handler list_sort now MEMORY_UPDATE buffer u = Ret v \<and> (ks_step eq list_sort)\<^sup>*\<^sup>* v t)"
    using assms(1)
  proof (induction rule: rtranclp_induct)
    case (step t t')
    show ?case using requests_step [OF step.hyps(2)]
    proof
      assume "\<exists>now buffer. ks_kernel_memory_handler list_sort now MEMORY_UPDATE buffer t = Ret t'"
      then show ?thesis using step.hyps(1) by blast
    next
      assume same: "swap_in_requests t' = swap_in_requests t"
      show ?thesis using step.IH same step.hyps(2) by (metis rtranclp.rtrancl_into_rtrancl)
    qed
  qed simp
  moreover have "memory_updates (km (snd (memory_stick_announce stick_fd sz srv'))) =
        memory_updates (km srv') @ [package_add (u32_bytes (total_memory_size (km srv') + sz)) (package_with MEMORY_UPDATE)]"
    if "kernel_scheduler srv' \<noteq> None"
    using that by (auto simp: memory_stick_announce_def on_km_def send_on_def send_memory_update_def Let_def)
  ultimately show ?thesis using updates_run [OF assms(2)] by blast
qed

text \<open>Process 3, suspended and ready, and a \<open>MEMORY_UPDATE\<close>; in Kernel Memory the end of a process.\<close>

theorem resumed_for_new_sticks_only_witness:
  "\<exists>s t u v now buffer (srv :: km_server). swap_in_requests t \<noteq> swap_in_requests s \<and> (ks_step (=) sort_by)\<^sup>*\<^sup>* s u \<and>
     ks_kernel_memory_handler sort_by now MEMORY_UPDATE buffer u = Ret v \<and> (ks_step (=) sort_by)\<^sup>*\<^sup>* v t \<and>
     memory_updates (km srv) = memory_updates km_example"
proof -
  let ?s = "three_processes\<lparr>suspended_processes := [3], procs := (procs three_processes)(3 := (create_process 3 0)\<lparr>proc_state := SUSP_READY\<rparr>)\<rparr>"
  let ?t = "request_swap_in sort_by ?s"
  have h: "ks_kernel_memory_handler sort_by 0 MEMORY_UPDATE (field (u32_bytes 8)) ?s = Ret ?t"
    by (simp add: ks_kernel_memory_handler_def)
  have "ks_step (=) sort_by ?s ?t" by (rule memory_message [OF h]) (simp add: memory_protocol_def)
  then have run: "(ks_step (=) sort_by)\<^sup>*\<^sup>* ?s ?t" by simp
  have asked: "swap_in_requests ?t \<noteq> swap_in_requests ?s"
    by (simp add: request_swap_in_def sort_processes_by_priority_def process_list_to_pid_list_def uint32_list_send_def)
  let ?srv = "km_server_example\<lparr>km := km_process_end 2 km_example\<rparr>"
  have "km_step Map.empty (\<lambda>x _. [x]) [] sort_by sort_by km_server_example (Scheduler_message PROCESS_END (field (u32_bytes 2))) ?srv"
    by (intro km_step.scheduler) (simp add: kernel_scheduler_handler_def on_km_def km_server_example_def)
  then have "km_run Map.empty (\<lambda>x _. [x]) [] sort_by sort_by km_server_example [Scheduler_message PROCESS_END (field (u32_bytes 2))] ?srv"
    by (rule km_run.more [OF _ km_run.idle])
  note r = resumed_for_new_sticks_only [OF run this]
  have "memory_updates (km ?srv) = memory_updates (km km_server_example)" using r by blast
  then have same: "memory_updates (km ?srv) = memory_updates km_example" by (simp only: km_server_example_def km_server.simps)
  obtain u v now buffer where "(ks_step (=) sort_by)\<^sup>*\<^sup>* ?s u" "ks_kernel_memory_handler sort_by now MEMORY_UPDATE buffer u = Ret v"
    "(ks_step (=) sort_by)\<^sup>*\<^sup>* v ?t"
    using mp [OF conjunct1 [OF r] asked] by blast
  with asked same show ?thesis by blast
qed

end
