(* ===== verification/KM_Refinement.thy ===== *)
theory KM_Refinement
  imports KM_System
begin

text \<open>
  What Kernel Memory promises, and that its runs keep the promise. The abstract machine
  \<open>memory_step\<close> has no addresses, holes, sticks, compactions or threads: its state is the view of
  the processes (\<open>user_view\<close>: pid, context, instructions and, for each segment, identifier, size
  and content), and a step takes a message to the answers for Kernel Scheduler and to the next
  view. \<open>total\<close> is the size of the memory, \<open>program\<close> the instructions of a path. Kernel
  Memory refines it: every step of \<open>km_step\<close>, whatever the placement, the strategy and the
  moment of a compaction, is one of \<open>memory_step\<close>. The CPUs change the bytes of the sticks over
  their own connections, which is no step of Kernel Memory (see \<open>CPU_Cycle\<close>).
\<close>

section \<open>The abstract memory\<close>

type_synonym view =
  "(u32 \<times> t_cpu_context \<times> string list option \<times> (u32 \<times> u32 \<times> byte list) list) list"

definition space :: "view \<Rightarrow> nat" where
  "space v = sum_list (map (\<lambda>(p, c, i, segs). sum_list (map (\<lambda>(sid, sz, bs). unat sz) segs)) v)"

definition has_segment :: "u32 \<Rightarrow> u32 \<Rightarrow> view \<Rightarrow> bool" where
  "has_segment pid sid v \<longleftrightarrow>
     (case List.find (\<lambda>p. fst p = pid) v of
        None \<Rightarrow> False
      | Some (p, c, i, segs) \<Rightarrow> \<exists>seg \<in> set segs. fst seg = sid)"

definition start_context :: t_cpu_context where
  "start_context = \<lparr>pc = 0, ax = 0, bx = 0, cx = 0, dx = 0, eax = 0, ebx = 0, ecx = 0, edx = 0,
     si = 0, di = 0\<rparr>"

text \<open>The same processes with the same segments, whose bytes are as they were or from \<open>data\<close>.\<close>

definition seg_written :: "byte set \<Rightarrow> u32 \<times> u32 \<times> byte list \<Rightarrow> u32 \<times> u32 \<times> byte list \<Rightarrow> bool" where
  "seg_written data = (\<lambda>(sid, sz, bs) (sid', sz', bs').
     sid' = sid \<and> sz' = sz \<and> list_all2 (\<lambda>b b'. b' = b \<or> b' \<in> data) bs bs')"

definition written :: "byte set \<Rightarrow> view \<Rightarrow> view \<Rightarrow> bool" where
  "written data = list_all2 (\<lambda>(p, c, i, segs) (p', c', i', segs').
     p' = p \<and> c' = c \<and> i' = i \<and> list_all2 (seg_written data) segs segs')"

text \<open>The messages that neither change anything nor are answered to Kernel Scheduler.\<close>

definition quiet :: "km_event \<Rightarrow> bool" where
  "quiet e \<longleftrightarrow>
     (case e of
        Scheduler_message op buffer \<Rightarrow>
          op \<notin> {PROCESS_CREATE, PROCESS_END, SEGMENT_DELETE, IO_MEMORY_READ, IO_MEMORY_WRITE, SWAP_OUT, SWAP_IN} \<or>
          buffer = [] \<and> op \<in> {PROCESS_CREATE, SEGMENT_DELETE, IO_MEMORY_READ, IO_MEMORY_WRITE}
      | Cpu_message cpu op buffer \<Rightarrow> op \<noteq> CONTEXT_TRANSFER
      | _ \<Rightarrow> False)"

definition segment_answer :: "u32 \<Rightarrow> u32 \<Rightarrow> t_segment_result \<Rightarrow> t_package" where
  "segment_answer pid sid result =
     package_add (u32_bytes (segment_result_int result))
       (package_add (u32_bytes sid) (package_add (u32_bytes pid) (package_with SEGMENT_RESULT)))"

definition create_args :: "byte list \<Rightarrow> (u32 \<times> string) option" where
  "create_args buffer = do {
     (pid, b) \<leftarrow> uint32_deserialize buffer;
     (relative_path, b) \<leftarrow> string_deserialize b;
     Some (pid, relative_path) }"

definition delete_args :: "byte list \<Rightarrow> (u32 \<times> u32) option" where
  "delete_args buffer = do {
     (pid, b) \<leftarrow> uint32_deserialize buffer;
     (sid, b) \<leftarrow> uint32_deserialize b;
     Some (pid, sid) }"

definition read_args :: "byte list \<Rightarrow> (u32 \<times> u32 \<times> u32) option" where
  "read_args buffer = do {
     (pid, b) \<leftarrow> uint32_deserialize buffer;
     (physical_address, b) \<leftarrow> uint32_deserialize b;
     (size_to_read, b) \<leftarrow> uint32_deserialize b;
     Some (pid, physical_address, size_to_read) }"

definition write_args :: "byte list \<Rightarrow> (u32 \<times> u32 \<times> u32 \<times> string) option" where
  "write_args buffer = do {
     (pid, b) \<leftarrow> uint32_deserialize buffer;
     (physical_address, b) \<leftarrow> uint32_deserialize b;
     (size_to_write, b) \<leftarrow> uint32_deserialize b;
     (raw_data, b) \<leftarrow> string_deserialize b;
     Some (pid, physical_address, size_to_write, raw_data) }"

inductive memory_step ::
  "(string \<Rightarrow> string list option) \<Rightarrow> nat \<Rightarrow> view \<Rightarrow> km_event \<Rightarrow> t_package list \<Rightarrow> view \<Rightarrow> bool"
  for program total where
  nothing: "quiet e \<Longrightarrow> memory_step program total v e [] v"
| process_created:
    "create_args buffer = Some (pid, path) \<Longrightarrow> program path = Some instructions \<Longrightarrow>
     memory_step program total v (Scheduler_message PROCESS_CREATE buffer)
       [uint32_send_with_op_code pid PROCESS_CREATE]
       (v @ [(pid, start_context, Some instructions, [])])"
| no_program:
    "create_args buffer = Some (pid, path) \<Longrightarrow> program path = None \<Longrightarrow>
     memory_step program total v (Scheduler_message PROCESS_CREATE buffer) [] v"
| process_ended:
    "uint32_deserialize buffer = Some (pid, rest) \<Longrightarrow>
     memory_step program total v (Scheduler_message PROCESS_END buffer) []
       (remove_first (\<lambda>p. fst p = pid) v)"
| segment_deleted:
    "delete_args buffer = Some (pid, sid) \<Longrightarrow> has_segment pid sid v \<Longrightarrow>
     memory_step program total v (Scheduler_message SEGMENT_DELETE buffer)
       [segment_answer pid sid SEGMENT_OK] (remove_from_view pid sid v)"
| segment_unknown:
    "delete_args buffer = Some (pid, sid) \<Longrightarrow> \<not> has_segment pid sid v \<Longrightarrow>
     memory_step program total v (Scheduler_message SEGMENT_DELETE buffer)
       [segment_answer pid sid SEGMENT_ERROR] v"
| bytes_read:
    "read_args buffer = Some (pid, a, n) \<Longrightarrow> 0 \<notin> set bytes \<Longrightarrow>
     memory_step program total v (Scheduler_message IO_MEMORY_READ buffer)
       [package_add (bytes @ [0]) (package_add (u32_bytes pid) (package_with IO_MEMORY_READ))] v"
| bytes_written:
    "write_args buffer = Some (pid, a, n, raw) \<Longrightarrow> written (set (padded raw n)) v v' \<Longrightarrow>
     memory_step program total v (Scheduler_message IO_MEMORY_WRITE buffer)
       [package_add [bool_byte ok] (package_add (u32_bytes pid) (package_with IO_MEMORY_WRITE))] v'"
| suspended:
    "uint32_deserialize buffer = Some (pid, rest) \<Longrightarrow> pid \<in> fst ` set v \<Longrightarrow>
     memory_step program total v (Scheduler_message SWAP_OUT buffer)
       [package_add [bool_byte True] (package_add (u32_bytes pid) (package_with SWAP_OUT))]
       (update_first (\<lambda>p. fst p = pid) (\<lambda>(p, c, i, segs). (p, c, i, [])) v)"
| not_suspended:
    "uint32_deserialize buffer = Some (pid, rest) \<Longrightarrow>
     memory_step program total v (Scheduler_message SWAP_OUT buffer)
       [package_add [bool_byte False] (package_add (u32_bytes pid) (package_with SWAP_OUT))] v"
| context_saved:
    "context_transfer_receive buffer = Ret (pid, ctx) \<Longrightarrow>
     memory_step program total v (Cpu_message cpu CONTEXT_TRANSFER buffer) []
       (update_first (\<lambda>p. fst p = pid) (\<lambda>(p, c, i, segs). (p, ctx, i, segs)) v)"
| segment_created:
    "pid \<in> fst ` set v \<Longrightarrow> space v + unat sz \<le> total \<Longrightarrow> length bytes = unat sz \<Longrightarrow>
     memory_step program total v (Thread_start (pid, sid, sz))
       [segment_answer pid sid SEGMENT_OK] (add_to_view pid (sid, sz, bytes) v)"
| no_space:
    "total < space v + unat sz \<Longrightarrow>
     memory_step program total v (Thread_start (pid, sid, sz))
       [segment_answer pid sid SEGMENT_NO_SPACE] v"
| no_process:
    "pid \<notin> fst ` set v \<Longrightarrow> space v + unat sz \<le> total \<Longrightarrow>
     memory_step program total v (Thread_start (pid, sid, sz))
       [segment_answer pid sid SEGMENT_ERROR] v"
| waits:
    "space v + unat sz \<le> total \<Longrightarrow>
     memory_step program total v (Thread_start (pid, sid, sz))
       [package_with COMPACTION_REQUEST] v"
| segment_created_late:
    "pid \<in> fst ` set v \<Longrightarrow> space v + unat sz \<le> total \<Longrightarrow> length bytes = unat sz \<Longrightarrow>
     memory_step program total v (Thread_resume (pid, sid, sz))
       [package_with COMPACTION_FINISHED, segment_answer pid sid SEGMENT_OK]
       (add_to_view pid (sid, sz, bytes) v)"
| not_created_late:
    "pid \<notin> fst ` set v \<or> total < space v + unat sz \<Longrightarrow>
     memory_step program total v (Thread_resume (pid, sid, sz))
       [package_with COMPACTION_FINISHED, segment_answer pid sid SEGMENT_ERROR] v"

inductive memory_run ::
  "(string \<Rightarrow> string list option) \<Rightarrow> nat \<Rightarrow> view \<Rightarrow> km_event list \<Rightarrow> t_package list \<Rightarrow> view \<Rightarrow> bool"
  for program total where
  idle: "memory_run program total v [] [] v"
| more: "memory_step program total v e out v' \<Longrightarrow> memory_run program total v' es outs v'' \<Longrightarrow>
    memory_run program total v (e # es) (out @ outs) v''"

section \<open>One message\<close>

text \<open>The step of Kernel Memory from \<open>s\<close> to \<open>s'\<close> is one of the abstract memory, with the answers
  Kernel Scheduler gets.\<close>

definition simulated :: "(string \<Rightarrow> string list option) \<Rightarrow> km_state \<Rightarrow> km_event \<Rightarrow> km_state \<Rightarrow> bool" where
  "simulated program s e s' \<longleftrightarrow>
     (\<exists>out. memory_step program (unat (total_memory_size s)) (user_view s) e out (user_view s') \<and>
        to_scheduler s' = to_scheduler s @ out \<and> total_memory_size s' = total_memory_size s)"

lemma simulatedI:
  "memory_step program (unat (total_memory_size s)) (user_view s) e out (user_view s') \<Longrightarrow>
   to_scheduler s' = to_scheduler s @ out \<Longrightarrow> total_memory_size s' = total_memory_size s \<Longrightarrow>
   simulated program s e s'"
  by (auto simp: simulated_def)

lemma simulated_same: "quiet e \<Longrightarrow> simulated program s e s"
  by (rule simulatedI [of _ _ _ "[]"]) (auto intro: memory_step.nothing)

lemma send_fields [simp]:
  "user_view (send_to_scheduler pkg s) = user_view s"
  "to_scheduler (send_to_scheduler pkg s) = to_scheduler s @ [pkg]"
  "total_memory_size (send_to_scheduler pkg s) = total_memory_size s"
  by (simp_all add: send_to_scheduler_def user_view_def)

lemma send_segment_result_fields [simp]:
  "user_view (send_segment_result pid sid r s) = user_view s"
  "to_scheduler (send_segment_result pid sid r s) = to_scheduler s @ [segment_answer pid sid r]"
  "total_memory_size (send_segment_result pid sid r s) = total_memory_size s"
  by (simp_all add: send_segment_result_def segment_answer_def)

lemma user_view_frame [simp]:
  "user_view (s\<lparr>swap_dev := dev\<rparr>) = user_view s" "user_view (s\<lparr>list_suspended_processes := sps\<rparr>) = user_view s"
  "user_view (s\<lparr>compaction_sem := n\<rparr>) = user_view s" "user_view (s\<lparr>compaction_waiters := w\<rparr>) = user_view s"
  by (simp_all add: user_view_def)

text \<open>What the view says of the tables.\<close>

lemma fst_process_view [simp]: "fst (process_view m p) = pcb_pid p"
  by (simp add: process_view_def)

lemma pids_view: "fst ` set (user_view s) = pcb_pid ` set (list_processes s)"
  by (auto simp: user_view_def image_iff)

lemma space_view: "space (user_view s) = sizes (occupied s)"
proof -
  have "space (map (process_view m) ps) = sizes (map seg_hole (all_segments ps))" for m ps
    by (induction ps) (auto simp: space_def process_view_def all_segments_def sizes_def seg_hole_def comp_def)
  then show ?thesis by (simp add: user_view_def occupied_def)
qed

lemma find_view:
  "List.find (\<lambda>p. fst p = pid) (user_view s) =
   map_option (process_view (km_memory s)) (List.find (find_by_pid pid) (list_processes s))"
proof -
  have "List.find (\<lambda>p. fst p = pid) (map (process_view m) ps) =
      map_option (process_view m) (List.find (find_by_pid pid) ps)" for m ps
    by (induction ps) (simp_all add: find_by_pid_def)
  then show ?thesis by (simp add: user_view_def)
qed

lemma has_segment_view:
  "has_segment pid sid (user_view s) \<longleftrightarrow>
   (\<exists>pcb seg. List.find (find_by_pid pid) (list_processes s) = Some pcb \<and>
      List.find (find_by_segment_id sid) (segment_table pcb) = Some seg)"
proof -
  have "(\<exists>seg. List.find (find_by_segment_id sid) t = Some seg) \<longleftrightarrow> sid \<in> segment_id ` set t" for t
    by (induction t) (auto simp: find_by_segment_id_def)
  then show ?thesis
    unfolding has_segment_def find_view
    by (cases "List.find (find_by_pid pid) (list_processes s)") (auto simp: process_view_def image_iff)
qed

lemma remove_first_none: "List.find P xs = None \<Longrightarrow> remove_first P xs = xs"
  by (induction xs) (auto split: if_splits)

lemma find_pid_None: "List.find (find_by_pid pid) ps = None \<longleftrightarrow> pid \<notin> pcb_pid ` set ps"
  by (auto simp: find_None_iff find_by_pid_def)

text \<open>A field of one process is replaced, in the state and in its view.\<close>

lemma update_view:
  assumes "\<And>pcb. f' (process_view (km_memory s) pcb) = process_view (km_memory s) (f pcb)"
  shows "user_view (s\<lparr>list_processes := update_first (find_by_pid pid) f (list_processes s)\<rparr>) =
    update_first (\<lambda>p. fst p = pid) f' (user_view s)"
  unfolding user_view_def km_state.select_convs km_state.update_convs
  by (simp, rule map_update_first_conv) (simp_all add: assms find_by_pid_def)

definition program_of ::
  "(string \<rightharpoonup> string) \<Rightarrow> (string \<Rightarrow> string \<Rightarrow> string list) \<Rightarrow> string \<Rightarrow> string \<Rightarrow> string list option" where
  "program_of files string_split base_path path =
     get_instructions_from_file files string_split (base_path @ ''/'' @ path)"

lemma km_process_create_simulated:
  assumes "km_process_create files string_split base_path buffer s = Ret s'"
  shows "simulated (program_of files string_split base_path) s (Scheduler_message PROCESS_CREATE buffer) s'"
proof (cases "buffer = []")
  case True
  with assms show ?thesis by (auto simp: km_process_create_def quiet_def intro: simulated_same)
next
  case False
  let ?program = "program_of files string_split base_path"
  have "pcb_instructions (create_pcb files string_split pid path) =
      get_instructions_from_file files string_split path" for pid path by (simp add: create_pcb_def)
  with assms False obtain pid path where a: "create_args buffer = Some (pid, path)"
    and s': "(case ?program path of None \<Rightarrow> Ret s
      | Some _ \<Rightarrow> Ret (send_to_scheduler (uint32_send_with_op_code pid PROCESS_CREATE)
          (s\<lparr>list_processes := list_processes s @
             [create_pcb files string_split pid (base_path @ CHR 0x2F # path)]\<rparr>))) = Ret s'"
    by (auto simp: km_process_create_def create_args_def [symmetric] and_then_eq_Ret Let_def program_of_def)
  show ?thesis
  proof (cases "?program path")
    case None
    with s' memory_step.no_program [OF a, of ?program] show ?thesis
      by (intro simulatedI [of _ _ _ "[]"]) auto
  next
    case (Some instructions)
    let ?pcb = "create_pcb files string_split pid (base_path @ ''/'' @ path)"
    from Some s' have t: "s' = send_to_scheduler (uint32_send_with_op_code pid PROCESS_CREATE)
        (s\<lparr>list_processes := list_processes s @ [?pcb]\<rparr>)" by simp
    have "process_view (km_memory s) ?pcb = (pid, start_context, Some instructions, [])"
      using Some by (simp add: process_view_def create_pcb_def start_context_def program_of_def)
    then have "user_view s' = user_view s @ [(pid, start_context, Some instructions, [])]"
      unfolding t send_fields by (simp add: user_view_def)
    with memory_step.process_created [where program = ?program, OF a Some] t show ?thesis
      by (intro simulatedI [of _ _ _ "[uint32_send_with_op_code pid PROCESS_CREATE]"]) simp_all
  qed
qed

lemma km_process_end_simulated:
  assumes "uint32_deserialize buffer = Some (pid, rest)"
  shows "simulated program s (Scheduler_message PROCESS_END buffer) (km_process_end pid s)"
proof (rule simulatedI [of _ _ _ "[]"])
  have "user_view (km_process_end pid s) = remove_first (\<lambda>p. fst p = pid) (user_view s)"
    by (simp add: km_process_end_def user_view_def map_remove_first [where Q = "\<lambda>p. fst p = pid"]
        find_by_pid_def)
  then show "memory_step program (unat (total_memory_size s)) (user_view s)
      (Scheduler_message PROCESS_END buffer) [] (user_view (km_process_end pid s))"
    using memory_step.process_ended [OF assms] by simp
qed (simp_all add: km_process_end_def)

lemma km_segment_delete_simulated:
  assumes "km_segment_delete buffer s = Ret s'" and "km_inv s"
  shows "simulated program s (Scheduler_message SEGMENT_DELETE buffer) s'"
proof (cases "buffer = []")
  case True
  with assms show ?thesis by (auto simp: km_segment_delete_def quiet_def intro: simulated_same)
next
  case False
  with assms(1) obtain pid sid where a: "delete_args buffer = Some (pid, sid)"
    and d: "(case segment_delete pid sid s of
          (SEGMENT_OK, s') \<Rightarrow> Ret (send_segment_result pid sid SEGMENT_OK s')
        | (_, s') \<Rightarrow> Ret (send_segment_result pid sid SEGMENT_ERROR s')) = Ret s'"
    by (auto simp: km_segment_delete_def delete_args_def [symmetric] and_then_eq_Ret)
  show ?thesis
  proof (cases "has_segment pid sid (user_view s)")
    case True
    then obtain pcb seg where f: "List.find (find_by_pid pid) (list_processes s) = Some pcb"
      "List.find (find_by_segment_id sid) (segment_table pcb) = Some seg"
      by (auto simp: has_segment_view)
    from find_split [OF f(1)] obtain ps1 ps2 where ps: "list_processes s = ps1 @ pcb # ps2"
      "find_by_pid pid pcb" "\<forall>p \<in> set ps1. \<not> find_by_pid pid p" by blast
    from find_split [OF f(2)] obtain t1 t2 where tb: "segment_table pcb = t1 @ seg # t2"
      "find_by_segment_id sid seg" "\<forall>x \<in> set t1. \<not> find_by_segment_id sid x" by blast
    from segment_delete [OF assms(2) ps tb] obtain t where
      t: "segment_delete pid sid s = (SEGMENT_OK, t)" "user_view t = remove_from_view pid sid (user_view s)"
      by blast
    from t(1) f have "to_scheduler t = to_scheduler s" "total_memory_size t = total_memory_size s"
      by (auto simp: segment_delete_def)
    with t d True memory_step.segment_deleted [OF a True] show ?thesis
      by (intro simulatedI [of _ _ _ "[segment_answer pid sid SEGMENT_OK]"]) auto
  next
    case False
    then have "segment_delete pid sid s = (SEGMENT_ERROR, s)"
      by (auto simp: has_segment_view segment_delete_def split: option.splits)
    with d False memory_step.segment_unknown [OF a False] show ?thesis
      by (intro simulatedI [of _ _ _ "[segment_answer pid sid SEGMENT_ERROR]"]) auto
  qed
qed

lemma written_view:
  assumes "km_inv s" and "length (memory_content m) = length (memory_content (km_memory s))"
    and "\<And>i. i < length (memory_content (km_memory s)) \<Longrightarrow>
      memory_content m ! i = memory_content (km_memory s) ! i \<or> memory_content m ! i \<in> data"
  shows "written data (user_view s) (user_view (s\<lparr>km_memory := m\<rparr>))"
proof -
  have seg: "seg_written data (segment_id seg, seg_size seg, seg_bytes (km_memory s) seg)
      (segment_id seg, seg_size seg, seg_bytes m seg)"
    if "pcb \<in> set (list_processes s)" "seg \<in> set (segment_table pcb)" for pcb seg
  proof -
    have r: "unat (seg_base seg) + unat (seg_size seg) \<le> length (memory_content (km_memory s))"
      using km_inv_seg_ok(1) [OF assms(1) that] by (simp add: seg_ok_def)
    then have "\<forall>i < unat (seg_size seg). seg_bytes m seg ! i = seg_bytes (km_memory s) seg ! i \<or>
        seg_bytes m seg ! i \<in> data"
      using assms(2,3) by (simp add: seg_bytes_def)
    with r show ?thesis
      by (simp add: seg_written_def seg_bytes_def list_all2_conv_all_nth assms(2))
  qed
  then have "list_all2 (seg_written data)
      (map (\<lambda>seg. (segment_id seg, seg_size seg, seg_bytes (km_memory s) seg)) (segment_table pcb))
      (map (\<lambda>seg. (segment_id seg, seg_size seg, seg_bytes m seg)) (segment_table pcb))"
    if "pcb \<in> set (list_processes s)" for pcb
    using that unfolding list.rel_map by (intro list.rel_refl_strong) auto
  moreover have e: "user_view s = map (process_view (km_memory s)) (list_processes s)"
    "user_view (s\<lparr>km_memory := m\<rparr>) = map (process_view m) (list_processes s)"
    by (simp_all add: user_view_def)
  ultimately show ?thesis
    unfolding written_def e list.rel_map
    by (intro list.rel_refl_strong) (simp add: process_view_def list.rel_map)
qed

lemma km_io_memory_read_simulated:
  assumes "km_io_memory_read buffer s = Ret s'" and "km_inv s"
  shows "simulated program s (Scheduler_message IO_MEMORY_READ buffer) s'"
proof (cases "buffer = []")
  case True
  with assms show ?thesis by (auto simp: km_io_memory_read_def quiet_def intro: simulated_same)
next
  case False
  with assms(1) obtain pid a n data m where b: "read_args buffer = Some (pid, a, n)"
    and r: "memory_read (km_memory s) a n = Ret (data, m)"
    and d: "(case data of
        None \<Rightarrow> Ret (send_to_scheduler (package_add [0]
          (package_add (u32_bytes pid) (package_with IO_MEMORY_READ))) (s\<lparr>km_memory := m\<rparr>))
      | Some d \<Rightarrow> and_then (of_option (c_string_prefix d)) (\<lambda>text. Ret (send_to_scheduler (package_add text
          (package_add (u32_bytes pid) (package_with IO_MEMORY_READ))) (s\<lparr>km_memory := m\<rparr>)))) = Ret s'"
    by (auto simp: km_io_memory_read_def read_args_def and_then_eq_Ret Let_def)
  have "m = km_memory s"
    using r km_read_returns [of "km_memory s" a n] assms(2) by (auto simp: km_inv_def)
  with d obtain bytes where s': "s' = send_to_scheduler (package_add (bytes @ [0])
      (package_add (u32_bytes pid) (package_with IO_MEMORY_READ))) s" and z: "0 \<notin> set bytes"
  proof (cases data)
    case None
    with d \<open>m = km_memory s\<close> show ?thesis by (intro that [of "[]"]) auto
  next
    case (Some d')
    with d \<open>m = km_memory s\<close> show ?thesis
      by (intro that [of "takeWhile (\<lambda>b. b \<noteq> 0) d'"])
        (auto simp: and_then_eq_Ret c_string_prefix_def dest: set_takeWhileD split: if_splits)
  qed
  show ?thesis
    using memory_step.bytes_read [OF b z, of program _ "user_view s"] s'
    by (intro simulatedI [of _ _ _ "[package_add (bytes @ [0]) (package_add (u32_bytes pid) (package_with IO_MEMORY_READ))]"])
      simp_all
qed

lemma km_io_memory_write_simulated:
  assumes "km_io_memory_write buffer s = Ret s'" and "km_inv s"
  shows "simulated program s (Scheduler_message IO_MEMORY_WRITE buffer) s'"
proof (cases "buffer = []")
  case True
  with assms show ?thesis by (auto simp: km_io_memory_write_def quiet_def intro: simulated_same)
next
  case False
  with assms(1) obtain pid a n raw ok m where w: "write_args buffer = Some (pid, a, n, raw)"
    and r: "memory_write (km_memory s) a (padded raw n) n = Ret (ok, m)"
    and s': "s' = send_to_scheduler (package_add [bool_byte ok]
        (package_add (u32_bytes pid) (package_with IO_MEMORY_WRITE))) (s\<lparr>km_memory := m\<rparr>)"
    by (auto simp: km_io_memory_write_def write_args_def [symmetric] and_then_eq_Ret)
  from km_write_bytes [of "km_memory s" n "padded raw n" a] r assms(2)
  have m: "length (memory_content m) = length (memory_content (km_memory s))"
    "\<forall>i < length (memory_content (km_memory s)). memory_content m ! i = memory_content (km_memory s) ! i \<or>
       (unat a \<le> i \<and> i < unat a + unat n \<and> memory_content m ! i = padded raw n ! (i - unat a))"
    by (auto simp: km_inv_def)
  have "memory_content m ! i = memory_content (km_memory s) ! i \<or> memory_content m ! i \<in> set (padded raw n)"
    if "i < length (memory_content (km_memory s))" for i
    using m(2) that by (auto intro!: nth_mem)
  from written_view [OF assms(2) m(1) this] memory_step.bytes_written [OF w] s'
  show ?thesis
    by (intro simulatedI [of _ _ _ "[package_add [bool_byte ok]
        (package_add (u32_bytes pid) (package_with IO_MEMORY_WRITE))]"]) simp_all
qed

lemma cpu_context_transfer_simulated:
  assumes "cpu_context_transfer buffer s = Ret s'"
  shows "simulated program s (Cpu_message cpu CONTEXT_TRANSFER buffer) s'"
proof -
  from assms obtain pid ctx where c: "context_transfer_receive buffer = Ret (pid, ctx)"
    and s': "s' = s\<lparr>list_processes :=
         update_first (find_by_pid pid) (\<lambda>pcb. pcb\<lparr>pcb_context := ctx\<rparr>) (list_processes s)\<rparr>"
    by (auto simp: cpu_context_transfer_def and_then_eq_Ret)
  have "user_view s' = update_first (\<lambda>p. fst p = pid) (\<lambda>(p, c, i, segs). (p, ctx, i, segs)) (user_view s)"
    unfolding s' by (rule update_view) (simp add: process_view_def)
  with memory_step.context_saved [OF c] s' show ?thesis
    by (intro simulatedI [of _ _ _ "[]"]) simp_all
qed

lemma km_swap_out_simulated:
  assumes "km_swap_out pid s = Ret s'" and "km_inv s" and "swap_ok s"
    and "uint32_deserialize buffer = Some (pid, rest)"
  shows "simulated program s (Scheduler_message SWAP_OUT buffer) s'"
proof -
  let ?out = "\<lambda>ok. [package_add [bool_byte ok] (package_add (u32_bytes pid) (package_with SWAP_OUT))]"
  have no: "simulated program s (Scheduler_message SWAP_OUT buffer) t"
    if "user_view t = user_view s" "to_scheduler t = to_scheduler s @ ?out False"
      "total_memory_size t = total_memory_size s" for t
    using memory_step.not_suspended [OF assms(4)] that by (intro simulatedI [of _ _ _ "?out False"]) simp_all
  show ?thesis
  proof (cases "List.find (find_by_pid pid) (list_processes s)")
    case None
    with assms(1) show ?thesis by (intro no) (auto simp: km_swap_out_def process_suspend_def)
  next
    case (Some pcb)
    let ?ps = "update_first (find_by_pid pid) (\<lambda>pcb. pcb\<lparr>segment_table := []\<rparr>) (list_processes s)"
    from process_suspend [OF assms(2,3) Some] obtain dev sps fits where
      su: "process_suspend pid s = Ret (fits, if fits then s\<lparr>swap_dev := dev, list_processes := ?ps,
          list_suspended_processes := sps\<rparr> else s\<lparr>swap_dev := dev\<rparr>)" by blast
    show ?thesis
    proof (cases fits)
      case False
      with su assms(1) show ?thesis by (intro no) (auto simp: km_swap_out_def)
    next
      case True
      have "pid \<in> fst ` set (user_view s)"
        using Some find_pid_None [of pid "list_processes s"] by (simp add: pids_view)
      from memory_step.suspended [OF assms(4) this]
      have st: "memory_step program (unat (total_memory_size s)) (user_view s)
          (Scheduler_message SWAP_OUT buffer) (?out True) (user_view (s\<lparr>list_processes := ?ps\<rparr>))"
        by (subst update_view [where f' = "\<lambda>(p, c, i, segs). (p, c, i, [])"]) (simp_all add: process_view_def)
      have "user_view (s\<lparr>swap_dev := dev, list_processes := ?ps, list_suspended_processes := sps\<rparr>) =
          user_view (s\<lparr>list_processes := ?ps\<rparr>)" by (simp add: user_view_def)
      with st su True assms(1) show ?thesis
        by (intro simulatedI [of _ _ _ "?out True"]) (auto simp: km_swap_out_def)
    qed
  qed
qed

section \<open>The threads that create segments\<close>

lemma space_and_sizes:
  assumes "km_inv s" and "sorts_by list_sort compare_by_base"
  shows "sum_list (map hole_size (get_free_holes list_sort s)) < sz \<longleftrightarrow>
    unat (total_memory_size s) < space (user_view s) + unat sz"
  using total_free_space [OF assms] km_inv_sizes [OF assms(1)]
  by (auto simp: u32_less_iff space_view)

text \<open>The segment goes to a free hole: the process has it, with the bytes that are there.\<close>

lemma place_segment_view:
  assumes "km_inv s" and "sorts_by list_sort compare_by_base" and "sz \<noteq> 0"
    and "chosen \<in> set (get_free_holes list_sort s)" and "sz \<le> hole_size chosen"
    and "place_segment pid sid sz chosen s = (r, t)"
  shows "(pid \<in> fst ` set (user_view s) \<and> r = SEGMENT_OK \<and>
      (\<exists>bytes. length bytes = unat sz \<and> user_view t = add_to_view pid (sid, sz, bytes) (user_view s)) \<or>
     pid \<notin> fst ` set (user_view s) \<and> r = SEGMENT_ERROR \<and> t = s) \<and>
    space (user_view s) + unat sz \<le> unat (total_memory_size s) \<and>
    to_scheduler t = to_scheduler s \<and> total_memory_size t = total_memory_size s"
proof -
  have ex: "exact_holes 0 (unat (total_memory_size s)) (occupied s) (get_free_holes list_sort s)"
    using get_free_holes_exact [OF assms(2)] assms(1) by (simp add: km_inv_def)
  then have "hole_end chosen \<le> unat (total_memory_size s)" using assms(4) by (simp add: exact_holes_def)
  then have len: "length (slice (unat (hole_base chosen)) (unat sz) (memory_content (km_memory s))) = unat sz"
    using assms(1,5) by (intro length_slice) (simp add: km_inv_def hole_end_def u32_le_iff)
  have "unat (hole_size chosen) \<le> sizes (get_free_holes list_sort s)"
    using assms(4) unfolding sizes_def by (intro member_le_sum_list) auto
  then have fits: "space (user_view s) + unat sz \<le> unat (total_memory_size s)"
    using ex assms(5) by (simp add: exact_holes_def space_view u32_le_iff)
  show ?thesis
  proof (cases "pid \<in> pcb_pid ` set (list_processes s)")
    case True
    from place_segment [OF assms(1-5) True, of sid] assms(6) have
      "r = SEGMENT_OK" "user_view t = add_to_view pid (sid, sz, slice (unat (hole_base chosen)) (unat sz)
        (memory_content (km_memory s))) (user_view s)" "to_scheduler t = to_scheduler s" by auto
    moreover have "total_memory_size t = total_memory_size s"
      using assms(6) by (auto simp: place_segment_def Let_def split: option.splits)
    ultimately show ?thesis using True len fits by (auto simp: pids_view)
  next
    case False
    with assms(6) fits show ?thesis
      by (simp add: find_pid_None [symmetric] pids_view place_segment_def Let_def)
  qed
qed

lemma segment_create_thread_simulated:
  assumes inv: "km_inv s" and srt: "sorts_by list_sort compare_by_base" and "sz \<noteq> 0"
  shows "simulated program s (Thread_start (pid, sid, sz)) (segment_create_thread list_sort pid sid sz s)"
proof (cases "sum_list (map hole_size (get_free_holes list_sort s)) < sz")
  case True
  then have "unat (total_memory_size s) < space (user_view s) + unat sz"
    using space_and_sizes [OF inv srt] by blast
  from memory_step.no_space [OF this, of program pid sid] True show ?thesis
    by (intro simulatedI [of _ _ _ "[segment_answer pid sid SEGMENT_NO_SPACE]"])
      (simp_all add: segment_create_thread_def segment_create_def Let_def)
next
  case False
  then have fits: "space (user_view s) + unat sz \<le> unat (total_memory_size s)"
    using space_and_sizes [OF inv srt, of sz] by simp
  show ?thesis
  proof (cases "select_hole (allocation_strategy s) (get_free_holes list_sort s) sz")
    case None
    with False memory_step.waits [OF fits, of program pid sid] show ?thesis
      by (intro simulatedI [of _ _ _ "[package_with COMPACTION_REQUEST]"])
        (simp_all add: segment_create_thread_def segment_create_def Let_def)
  next
    case (Some c)
    then have c: "c \<in> set (get_free_holes list_sort s)" "sz \<le> hole_size c"
      using select_hole_Some by blast+
    obtain r t where rt: "place_segment pid sid sz c s = (r, t)" by (cases "place_segment pid sid sz c s")
    note p = place_segment_view [OF inv srt assms(3) c rt]
    have e: "segment_create_thread list_sort pid sid sz s = send_segment_result pid sid r t"
      using False Some rt by (simp add: segment_create_thread_def segment_create_def Let_def)
    have "memory_step program (unat (total_memory_size s)) (user_view s) (Thread_start (pid, sid, sz))
        [segment_answer pid sid r] (user_view t)"
      using p fits memory_step.segment_created [of pid "user_view s"]
        memory_step.no_process [of pid "user_view s"] by (elim conjE disjE exE) simp_all
    with p show ?thesis
      unfolding e by (intro simulatedI [of _ _ _ "[segment_answer pid sid r]"]) simp_all
  qed
qed

lemma segment_create_thread_resume_simulated:
  assumes step: "segment_create_thread_resume seg_sort list_sort (pid, sid, sz) s = Ret s'"
    and inv: "km_inv s" and srt: "sorts_by list_sort compare_by_base"
    and seg: "sorts_by seg_sort compare_segment_by_base" and "sz \<noteq> 0"
  shows "simulated program s (Thread_resume (pid, sid, sz)) s'"
proof -
  let ?s = "s\<lparr>compaction_waiters := remove1 (pid, sid, sz) (compaction_waiters s)\<rparr>"
  from step obtain r t where t: "segment_create_resume seg_sort list_sort pid sid sz ?s = Ret (r, t)"
    "s' = send_segment_result pid sid r t"
    by (auto simp: segment_create_thread_resume_def and_then_eq_Ret)
  have "km_inv ?s" using inv by simp
  from finish_compaction [OF this seg] obtain u where u: "finish_compaction seg_sort ?s = Ret u" "km_inv u"
    "user_view u = user_view s" "sizes (occupied u) = sizes (occupied ?s)"
    "area (occupied u) = {0 ..< sizes (occupied ?s)}"
    "total_memory_size u = total_memory_size s"
    "to_scheduler u = to_scheduler s @ [package_with COMPACTION_FINISHED]" by auto
  have d: "(case select_hole (allocation_strategy u) (get_free_holes list_sort u) sz of
         None \<Rightarrow> Ret (SEGMENT_ERROR, u)
       | Some chosen \<Rightarrow> Ret (place_segment pid sid sz chosen u)) = Ret (r, t)"
    using t(1) u(1) by (simp add: segment_create_resume_def)
  have "memory_step program (unat (total_memory_size s)) (user_view s) (Thread_resume (pid, sid, sz))
        [package_with COMPACTION_FINISHED, segment_answer pid sid r] (user_view t) \<and>
      to_scheduler t = to_scheduler u \<and> total_memory_size t = total_memory_size u"
  proof (cases "select_hole (allocation_strategy u) (get_free_holes list_sort u) sz")
    case None
    have "\<not> unat (total_memory_size s) \<ge> space (user_view s) + unat sz"
    proof
      assume fits: "space (user_view s) + unat sz \<le> unat (total_memory_size s)"
      have pos: "0 < unat sz" using assms(5) by (simp add: unat_gt_0)
      have sz_u: "sizes (occupied u) = space (user_view s)" using space_view [of u] u(3) by simp
      then have a: "area (occupied u) = {0 ..< sizes (occupied u)}" using u(4,5) by simp
      from holes_after_compaction [OF u(2) a srt] fits pos u(6) sz_u
      have "get_free_holes list_sort u = [\<lparr>hole_base = of_nat (space (user_view s)),
          hole_size = of_nat (unat (total_memory_size s) - space (user_view s))\<rparr>]" by simp
      moreover have "unat (total_memory_size s) - space (user_view s) < 4294967296"
        using u32_bound [of "total_memory_size s"] by linarith
      ultimately show False
        using None fits by (simp add: select_hole_None u32_less_iff del: of_nat_diff)
    qed
    moreover from None d have "t = u" "r = SEGMENT_ERROR" by simp_all
    ultimately show ?thesis
      using memory_step.not_created_late [of pid "user_view s" "unat (total_memory_size s)" sz program sid]
      by (simp add: u(3))
  next
    case (Some c)
    then have c: "c \<in> set (get_free_holes list_sort u)" "sz \<le> hole_size c"
      using select_hole_Some by blast+
    from d Some have rt: "place_segment pid sid sz c u = (r, t)" by simp
    from place_segment_view [OF u(2) srt assms(5) c rt, unfolded u(3,6)] show ?thesis
      using memory_step.segment_created_late [of pid "user_view s"]
        memory_step.not_created_late [of pid "user_view s"] by (elim conjE disjE exE) (simp_all add: u(3,6))
  qed
  with u show ?thesis
    by (intro simulatedI [of _ _ _ "[package_with COMPACTION_FINISHED, segment_answer pid sid r]"])
      (simp_all add: t(2))
qed

section \<open>Refinement\<close>

lemma on_km_run_simulated:
  assumes "on_km_run f srv = Ret srv'" and "\<And>s'. f (km srv) = Ret s' \<Longrightarrow> simulated program (km srv) e s'"
  shows "simulated program (km srv) e (km srv')"
  using assms by (auto simp: on_km_run_def and_then_eq_Ret)

lemma scheduler_message_simulated:
  assumes "kernel_scheduler_handler files string_split base_path list_sort op buffer srv = Ret srv'"
    and "km_inv (km srv)" and "swap_ok (km srv)" and "op \<noteq> SWAP_IN"
  shows "simulated (program_of files string_split base_path) (km srv) (Scheduler_message op buffer) (km srv')"
proof -
  have quiet: "simulated program (km srv) (Scheduler_message op buffer) (km srv')"
    if "quiet (Scheduler_message op buffer)" "user_view (km srv') = user_view (km srv)"
      "to_scheduler (km srv') = to_scheduler (km srv)"
      "total_memory_size (km srv') = total_memory_size (km srv)" for program
    using that by (intro simulatedI [of _ _ _ "[]"]) (auto intro: memory_step.nothing)
  consider "op = PROCESS_CREATE" | "op = PROCESS_END" | "op = SEGMENT_DELETE"
    | "op = IO_MEMORY_READ" | "op = IO_MEMORY_WRITE" | "op = SWAP_OUT"
    | "op \<notin> {PROCESS_CREATE, PROCESS_END, SEGMENT_DELETE, IO_MEMORY_READ, IO_MEMORY_WRITE, SWAP_OUT, SWAP_IN}"
    using assms(4) by auto
  then show ?thesis
  proof cases
    case 1
    with assms(1) show ?thesis
      by (auto simp: kernel_scheduler_handler_def intro: on_km_run_simulated km_process_create_simulated)
  next
    case 2
    with assms(1) show ?thesis
      by (auto simp: kernel_scheduler_handler_def and_then_eq_Ret on_km_def intro: km_process_end_simulated)
  next
    case 3
    with assms(1,2) show ?thesis
      by (auto simp: kernel_scheduler_handler_def intro: on_km_run_simulated km_segment_delete_simulated)
  next
    case 4
    with assms(1,2) show ?thesis
      by (auto simp: kernel_scheduler_handler_def intro: on_km_run_simulated km_io_memory_read_simulated)
  next
    case 5
    with assms(1,2) show ?thesis
      by (auto simp: kernel_scheduler_handler_def intro: on_km_run_simulated km_io_memory_write_simulated)
  next
    case 6
    with assms(1-3) show ?thesis
      by (auto simp: kernel_scheduler_handler_def and_then_eq_Ret
          intro!: on_km_run_simulated km_swap_out_simulated)
  next
    case 7
    then have q: "quiet (Scheduler_message op buffer)" by (auto simp: quiet_def)
    have "user_view (km srv') = user_view (km srv) \<and> to_scheduler (km srv') = to_scheduler (km srv) \<and>
        total_memory_size (km srv') = total_memory_size (km srv)"
      using assms(1) 7
      by (cases op) (auto simp: kernel_scheduler_handler_def on_km_def and_then_eq_Ret split: if_splits)
    with quiet [OF q] show ?thesis by blast
  qed
qed

lemma cpu_message_simulated:
  assumes "km_cpu_handler cpu op buffer srv = Ret srv'"
  shows "simulated program (km srv) (Cpu_message cpu op buffer) (km srv')"
proof (cases "op = CONTEXT_TRANSFER")
  case True
  with assms show ?thesis
    by (auto simp: km_cpu_handler_def Let_def intro: on_km_run_simulated cpu_context_transfer_simulated)
next
  case False
  then have "quiet (Cpu_message cpu op buffer)" by (simp add: quiet_def)
  moreover have "km srv' = km srv"
    using assms False
    by (cases op) (auto simp: km_cpu_handler_def Let_def and_then_eq_Ret send_on_def split: option.splits)
  ultimately show ?thesis by (simp add: simulated_same)
qed

lemma km_step_simulated:
  assumes "km_step files string_split base_path seg_sort hole_sort srv e srv'"
    and "km_ok srv" and "tame e"
    and "sorts_by seg_sort compare_segment_by_base" and "sorts_by hole_sort compare_by_base"
  shows "simulated (program_of files string_split base_path) (km srv) e (km srv')"
  using assms(1)
proof cases
  case (scheduler op buffer)
  with assms(2,3) show ?thesis
    by (auto simp: km_ok_def tame_def intro!: scheduler_message_simulated)
next
  case (cpu c op buffer)
  then show ?thesis by (simp add: cpu_message_simulated)
next
  case (start pid sid sz)
  then have "sz \<noteq> 0" using assms(2) unfolding km_ok_def by force
  with start assms(2,5) show ?thesis by (simp add: km_ok_def segment_create_thread_simulated)
next
  case (resume args s')
  obtain pid sid sz where a: "args = (pid, sid, sz)" by (cases args)
  then have "sz \<noteq> 0" using resume assms(2) unfolding km_ok_def by force
  with resume a segment_create_thread_resume_simulated assms(2,4,5) show ?thesis
    by (auto simp: km_ok_def)
qed



end
