(* ===== verification/KM_Store.thy ===== *)
theory KM_Store
  imports KM_Refinement
begin

text \<open>
  Kernel Memory with SWAP, all messages included. The abstract memory of \<open>KM_Refinement\<close> gets a store
  beside the view of the processes: the segments, with their bytes, of each suspended process. A suspension
  moves the segments of a process to the store and a resumption moves them back, and nothing else
  touches the store. The runs are those in which no process with several segments is suspended
  (\<open>orderly\<close>): with two, the segments overwrite each other (\<open>suspended_segments_share_blocks\<close>).
\<close>

section \<open>The abstract memory and its store\<close>

type_synonym store = "(u32 \<times> (u32 \<times> u32 \<times> byte list) list) list"

definition give_back :: "u32 \<Rightarrow> (u32 \<times> u32 \<times> byte list) list \<Rightarrow> view \<Rightarrow> view" where
  "give_back pid segs v = fold (add_to_view pid) segs v"

text \<open>The processes that are asked for, in order: one comes back if it is stored, there is such a process
  and there is room; it may stay where it is, when it has a segment, since the room need not be in one piece.\<close>

inductive come_back :: "nat \<Rightarrow> u32 list \<Rightarrow> view \<times> store \<Rightarrow> u32 list \<Rightarrow> view \<times> store \<Rightarrow> bool" for total where
  none: "come_back total [] x [] x"
| returns: "List.find (\<lambda>e. fst e = pid) st = Some (pid, segs) \<Longrightarrow> pid \<in> fst ` set v \<Longrightarrow>
    space (give_back pid segs v) \<le> total \<Longrightarrow>
    come_back total pids (give_back pid segs v, remove_first (\<lambda>e. fst e = pid) st) pids' y \<Longrightarrow>
    come_back total (pid # pids) (v, st) (pid # pids') y"
| stays: "List.find (\<lambda>e. fst e = pid) st = Some (pid, []) \<longrightarrow> pid \<notin> fst ` set v \<Longrightarrow>
    come_back total pids (v, st) pids' y \<Longrightarrow>
    come_back total (pid # pids) (v, st) pids' y"

definition swaps :: "km_event \<Rightarrow> bool" where
  "swaps e \<longleftrightarrow>
     (case e of Scheduler_message op buffer \<Rightarrow> op = SWAP_OUT \<or> op = SWAP_IN | _ \<Rightarrow> False)"

inductive store_step ::
  "(string \<Rightarrow> string list option) \<Rightarrow> nat \<Rightarrow> view \<times> store \<Rightarrow> km_event \<Rightarrow> t_package list \<Rightarrow> view \<times> store \<Rightarrow> bool"
  for program total where
  other: "\<not> swaps e \<Longrightarrow> memory_step program total v e out v' \<Longrightarrow>
    store_step program total (v, st) e out (v', st)"
| suspended: "uint32_deserialize buffer = Some (pid, rest) \<Longrightarrow>
    List.find (\<lambda>p. fst p = pid) v = Some (pid, c, i, segs) \<Longrightarrow>
    store_step program total (v, st) (Scheduler_message SWAP_OUT buffer)
      [package_add [bool_byte True] (package_add (u32_bytes pid) (package_with SWAP_OUT))]
      (update_first (\<lambda>p. fst p = pid) (\<lambda>(p, c, i, segs). (p, c, i, [])) v, st @ [(pid, segs)])"
| not_suspended: "uint32_deserialize buffer = Some (pid, rest) \<Longrightarrow>
    store_step program total x (Scheduler_message SWAP_OUT buffer)
      [package_add [bool_byte False] (package_add (u32_bytes pid) (package_with SWAP_OUT))] x"
| resumed: "deserialize_all uint32_deserialize buffer = Some pids \<Longrightarrow> come_back total pids x back y \<Longrightarrow>
    store_step program total x (Scheduler_message SWAP_IN buffer) [uint32_list_send back SWAP_IN] y"

inductive store_run ::
  "(string \<Rightarrow> string list option) \<Rightarrow> nat \<Rightarrow> view \<times> store \<Rightarrow> km_event list \<Rightarrow> t_package list \<Rightarrow> view \<times> store \<Rightarrow> bool"
  for program total where
  idle: "store_run program total x [] [] x"
| more: "store_step program total x e out y \<Longrightarrow> store_run program total y es outs z \<Longrightarrow>
    store_run program total x (e # es) (out @ outs) z"

section \<open>What SWAP holds\<close>

text \<open>Reading blocks depends on these blocks only.\<close>

context block_device begin

lemma read_blocks_cong:
  assumes "valid bs dev" and "valid bs dev'" and "\<forall>n \<in> set blocks. in_range dev n \<and> in_range dev' n \<and> blk dev' n = blk dev n"
  shows "read_blocks inb bs sz blocks bytes_done data dev' = read_blocks inb bs sz blocks bytes_done data dev"
  using assms(3)
proof (induction blocks arbitrary: bytes_done data)
  case (Cons n blocks)
  then have "inb dev n = Ret (Some (blk dev n))" "inb dev' n = Ret (Some (blk dev n))"
    using inb [OF assms(1), of n] inb [OF assms(2), of n] by simp_all
  with Cons show ?case by (simp add: Let_def)
qed simp

end

definition seg_content :: "km_state \<Rightarrow> t_suspended_segment \<Rightarrow> byte list" where
  "seg_content s ss = (case read_segment_from_swap ss s of Ret (Some d) \<Rightarrow> d | _ \<Rightarrow> [])"

definition store_view :: "km_state \<Rightarrow> store" where
  "store_view s = map (\<lambda>sp. (sp_pid sp, map (\<lambda>ss. (ss_segment_id ss, ss_size ss, seg_content s ss)) (suspended_segments sp)))
     (list_suspended_processes s)"

definition total_blocks :: "km_state \<Rightarrow> nat" where
  "total_blocks s = unat (swap_total_size s div swap_block_size s)"

text \<open>A stored segment is complete, in blocks that exist.\<close>

definition stored :: "km_state \<Rightarrow> t_suspended_segment \<Rightarrow> bool" where
  "stored s ss \<longleftrightarrow> ss_size ss \<noteq> 0 \<and> (\<forall>n \<in> set (swap_blocks ss). unat n < total_blocks s) \<and>
     (\<exists>d. read_segment_from_swap ss s = Ret (Some d) \<and> length d = unat (ss_size ss))"

definition store_ok :: "km_state \<Rightarrow> bool" where
  "store_ok s \<longleftrightarrow> (\<forall>sp \<in> set (list_suspended_processes s).
     length (suspended_segments sp) \<le> 1 \<and> (\<forall>ss \<in> set (suspended_segments sp). stored s ss))"

lemma storedD: "stored s ss \<Longrightarrow> read_segment_from_swap ss s = Ret (Some (seg_content s ss)) \<and>
    length (seg_content s ss) = unat (ss_size ss)"
  by (auto simp: stored_def seg_content_def)

lemma find_store_view:
  "List.find (\<lambda>e. fst e = pid) (store_view s) =
   map_option (\<lambda>sp. (sp_pid sp, map (\<lambda>ss. (ss_segment_id ss, ss_size ss, seg_content s ss)) (suspended_segments sp)))
     (List.find (find_suspended_by_pid pid) (list_suspended_processes s))"
proof -
  have "List.find (\<lambda>e. fst e = pid) (map (\<lambda>sp. (sp_pid sp, f sp)) sps) =
      map_option (\<lambda>sp. (sp_pid sp, f sp)) (List.find (find_suspended_by_pid pid) sps)" for f sps
    by (induction sps) (simp_all add: find_suspended_by_pid_def)
  then show ?thesis by (simp add: store_view_def)
qed

text \<open>A step that leaves SWAP and the list of suspended processes alone.\<close>

definition same_swap :: "km_state \<Rightarrow> km_state \<Rightarrow> bool" where
  "same_swap s s' \<longleftrightarrow> swap_dev s' = swap_dev s \<and> swap_block_size s' = swap_block_size s \<and>
     swap_total_size s' = swap_total_size s \<and> list_suspended_processes s' = list_suspended_processes s"

lemma same_swap_view:
  assumes "same_swap s s'"
  shows "store_view s' = store_view s" and "store_ok s' = store_ok s"
proof -
  have r: "read_segment_from_swap ss s' = read_segment_from_swap ss s" for ss
    using assms by (simp add: same_swap_def read_segment_from_swap_def)
  show "store_view s' = store_view s"
    using assms by (simp add: store_view_def seg_content_def r same_swap_def)
  show "store_ok s' = store_ok s"
    using assms by (simp add: store_ok_def stored_def r same_swap_def total_blocks_def)
qed

lemma same_swap_refl [simp]: "same_swap s s"
  by (simp add: same_swap_def)

lemma same_swap_trans: "same_swap s t \<Longrightarrow> same_swap t u \<Longrightarrow> same_swap s u"
  by (simp add: same_swap_def)

lemma same_swap_record [simp]:
  "same_swap s (t\<lparr>list_processes := ps\<rparr>) = same_swap s t" "same_swap s (t\<lparr>km_memory := m\<rparr>) = same_swap s t"
  "same_swap s (t\<lparr>compaction_sem := n\<rparr>) = same_swap s t" "same_swap s (t\<lparr>compaction_waiters := w\<rparr>) = same_swap s t"
  "same_swap s (send_to_scheduler pkg t) = same_swap s t" "same_swap s (send_segment_result pid sid r t) = same_swap s t"
  by (simp_all add: same_swap_def send_to_scheduler_def send_segment_result_def)

lemma same_swap_place: "place_segment pid sid sz h s = (r, t) \<Longrightarrow> same_swap s t"
  by (auto simp: place_segment_def Let_def split: option.splits)

lemma same_swap_create: "same_swap s (segment_create_thread hole_sort pid sid sz s)"
  by (auto simp: segment_create_thread_def segment_create_def Let_def
      split: option.splits prod.splits if_splits dest: same_swap_place)

lemma same_swap_resume:
  assumes "segment_create_thread_resume seg_sort hole_sort args s = Ret t"
  shows "same_swap s t"
proof -
  obtain pid sid sz where a: "args = (pid, sid, sz)" by (cases args)
  let ?s = "s\<lparr>compaction_waiters := remove1 args (compaction_waiters s)\<rparr>"
  have c: "finish_compaction seg_sort u = Ret v \<Longrightarrow> same_swap u v" for u v
    by (auto simp: finish_compaction_def compact_memory_def and_then_eq_Ret Let_def)
  from assms obtain r u v where f: "finish_compaction seg_sort ?s = Ret u"
    and p: "(case select_hole (allocation_strategy u) (get_free_holes hole_sort u) sz of
         None \<Rightarrow> Ret (SEGMENT_ERROR, u) | Some chosen \<Rightarrow> Ret (place_segment pid sid sz chosen u)) = Ret (r, v)"
    and t: "t = send_segment_result pid sid r v"
    by (auto simp: a segment_create_thread_resume_def segment_create_resume_def and_then_eq_Ret)
  have "same_swap s ?s" by simp
  moreover have "same_swap ?s u" using c [OF f] .
  moreover have "same_swap u v" using p same_swap_place by (auto split: option.splits)
  ultimately have "same_swap s v" by (meson same_swap_trans)
  then show ?thesis by (simp add: t)
qed

lemma same_swap_scheduler:
  assumes "kernel_scheduler_handler files split base hole_sort op buffer srv = Ret srv'"
    and "op \<noteq> SWAP_IN" and "op \<noteq> SWAP_OUT"
  shows "same_swap (km srv) (km srv')"
  using assms
  by (cases op) (auto simp: kernel_scheduler_handler_def on_km_run_def on_km_def and_then_eq_Ret km_process_create_def
      km_process_end_def km_segment_delete_def segment_delete_def km_io_memory_read_def km_io_memory_write_def
      Let_def split: if_splits option.splits prod.splits t_segment_result.splits)

lemma same_swap_cpu: "km_cpu_handler c op buffer srv = Ret srv' \<Longrightarrow> same_swap (km srv) (km srv')"
  by (cases op) (auto simp: km_cpu_handler_def on_km_run_def cpu_context_transfer_def and_then_eq_Ret send_on_def Let_def
      split: option.splits)

lemma same_swap_step:
  assumes "km_step files split base seg_sort hole_sort srv e srv'" and "\<not> swaps e"
  shows "same_swap (km srv) (km srv')"
  using assms(1)
proof cases
  case (scheduler op buffer)
  with assms(2) show ?thesis by (auto simp: swaps_def intro: same_swap_scheduler)
qed (simp_all add: same_swap_cpu same_swap_create same_swap_resume)

section \<open>A suspension\<close>

lemma suspended_block_range:
  assumes "swap_ok s" and "unat n < total_blocks s"
  shows "swap_in_range (swap_dev s) n"
proof -
  have "swap_in_range (swap_dev s) (of_nat (unat n))"
    using assms unfolding swap_ok_def total_blocks_def by blast
  then show ?thesis by simp
qed

lemma free_blocks_below: "n \<in> set (free_blocks s) \<Longrightarrow> unat n < total_blocks s"
  by (auto simp: free_blocks_def Let_def total_blocks_def unat_of_nat intro: le_less_trans [OF mod_less_eq_dividend])

text \<open>What was stored before is still there when the free blocks have been written.\<close>

lemma stored_kept:
  assumes "swap_ok s" and "swap_ok (s\<lparr>swap_dev := dev\<rparr>)"
    and "\<forall>m. swap_in_range (swap_dev s) m \<and> m \<notin> set (free_blocks s) \<longrightarrow> swap_blk dev m = swap_blk (swap_dev s) m"
    and "sp \<in> set (list_suspended_processes s)" and "ss \<in> set (suspended_segments sp)" and "stored s ss"
  shows "read_segment_from_swap ss (s\<lparr>swap_dev := dev\<rparr>) = read_segment_from_swap ss s"
proof -
  have "swap_in_range (swap_dev s) n \<and> swap_in_range dev n \<and> swap_blk dev n = swap_blk (swap_dev s) n"
    if n: "n \<in> set (swap_blocks ss)" for n
  proof -
    have b: "unat n < total_blocks s" using assms(6) n by (simp add: stored_def)
    have "n \<in> used_blocks s" using assms(4,5) n by (auto simp: used_blocks_def)
    then have "n \<notin> set (free_blocks s)" using free_blocks(2) [OF assms(1)] by blast
    with b suspended_block_range [OF assms(1) b] suspended_block_range [OF assms(2), of n] assms(3) show ?thesis
      by (simp add: total_blocks_def)
  qed
  then show ?thesis
    using assms(1,2) unfolding read_segment_from_swap_def
    by (simp add: swap_ok_def swap.read_blocks_cong [of "swap_block_size s" "swap_dev s" dev])
qed

lemma process_suspend_store:
  assumes inv: "km_inv s" "swap_ok s" "store_ok s" and su: "process_suspend pid s = Ret (ok, t)"
    and one: "\<forall>pcb. List.find (find_by_pid pid) (list_processes s) = Some pcb \<longrightarrow> length (segment_table pcb) \<le> 1"
  shows "store_ok t \<and> (if ok
    then (\<exists>c i segs. List.find (\<lambda>p. fst p = pid) (user_view s) = Some (pid, c, i, segs) \<and>
      user_view t = update_first (\<lambda>p. fst p = pid) (\<lambda>(p, c, i, segs). (p, c, i, [])) (user_view s) \<and>
      store_view t = store_view s @ [(pid, segs)])
    else user_view t = user_view s \<and> store_view t = store_view s) \<and> total_memory_size t = total_memory_size s"
proof (cases "List.find (find_by_pid pid) (list_processes s)")
  case None
  with su inv(3) show ?thesis by (auto simp: process_suspend_def)
next
  case (Some pcb)
  define fits where "fits \<longleftrightarrow> (\<forall>seg \<in> set (segment_table pcb). needed s seg \<le> length (free_blocks s))"
  let ?ps = "update_first (find_by_pid pid) (\<lambda>pcb. pcb\<lparr>segment_table := []\<rparr>) (list_processes s)"
  let ?sp = "\<lparr>sp_pid = pid, suspended_segments = map (suspended_of s) (segment_table pcb)\<rparr>"
  from process_suspend [OF inv(1,2) Some, folded fits_def] obtain dev where
    d: "process_suspend pid s = Ret (fits, if fits then s\<lparr>swap_dev := dev, list_processes := ?ps,
        list_suspended_processes := list_suspended_processes s @ [?sp]\<rparr> else s\<lparr>swap_dev := dev\<rparr>)"
      "swap_ok (s\<lparr>swap_dev := dev\<rparr>)"
      "\<forall>m. swap_in_range (swap_dev s) m \<and> m \<notin> set (free_blocks s) \<longrightarrow> swap_blk dev m = swap_blk (swap_dev s) m"
      "segment_table pcb \<noteq> [] \<longrightarrow> fits \<longrightarrow>
        read_segment_from_swap (suspended_of s (last (segment_table pcb))) (s\<lparr>swap_dev := dev\<rparr>) =
          Ret (Some (seg_bytes (km_memory s) (last (segment_table pcb))))" by blast
  let ?s = "s\<lparr>swap_dev := dev\<rparr>"
  have rd: "read_segment_from_swap ss ?s = read_segment_from_swap ss s"
    if "sp \<in> set (list_suspended_processes s)" "ss \<in> set (suspended_segments sp)" for sp ss
    using stored_kept [OF inv(2) d(2,3) that] inv(3) that by (auto simp: store_ok_def)
  then have ok: "store_ok ?s" using inv(3) by (auto simp: store_ok_def stored_def total_blocks_def)
  have view: "store_view ?s = store_view s" using rd by (auto simp: store_view_def seg_content_def)
  show ?thesis
  proof (cases fits)
    case False
    with su d(1) ok view show ?thesis by auto
  next
    case True
    define t' where "t' = s\<lparr>swap_dev := dev, list_processes := ?ps,
        list_suspended_processes := list_suspended_processes s @ [?sp]\<rparr>"
    have t: "ok" "t = t'" using su d(1) True by (simp_all add: t'_def)
    have mem: "pcb \<in> set (list_processes s)" using find_Some_iff_set [OF Some] by simp
    have segs: "seg_content ?s (suspended_of s seg) = seg_bytes (km_memory s) seg \<and> stored ?s (suspended_of s seg)"
      if seg: "seg \<in> set (segment_table pcb)" for seg
    proof -
      have "segment_table pcb = [seg]" using one Some seg by (cases "segment_table pcb") auto
      then have r: "read_segment_from_swap (suspended_of s seg) ?s = Ret (Some (seg_bytes (km_memory s) seg))"
        using d(4) True by simp
      have so: "seg_ok s seg" "0 < unat (seg_size seg)" using km_inv_seg_ok [OF inv(1) mem seg] by simp_all
      then have "length (seg_bytes (km_memory s) seg) = unat (seg_size seg)"
        using read_ok_segment(2) inv(1) by (simp add: km_inv_def)
      with r so(2) show ?thesis
        by (auto simp: seg_content_def stored_def suspended_of_def unat_gt_0 total_blocks_def
            dest!: in_set_takeD free_blocks_below)
    qed
    have rt: "read_segment_from_swap ss t' = read_segment_from_swap ss ?s" for ss
      by (simp add: read_segment_from_swap_def t'_def)
    have "store_ok t'"
      using ok segs one Some unfolding store_ok_def stored_def rt
      by (auto simp: t'_def total_blocks_def stored_def)
    moreover have "store_view t' = store_view s @ [(pid, map (\<lambda>seg. (segment_id seg, seg_size seg, seg_bytes (km_memory s) seg))
        (segment_table pcb))]"
      using view segs unfolding store_view_def seg_content_def rt
      by (simp add: t'_def) (simp add: seg_content_def suspended_of_def)
    moreover have "user_view t' = update_first (\<lambda>p. fst p = pid) (\<lambda>(p, c, i, segs). (p, c, i, [])) (user_view s)"
    proof -
      have "user_view t' = user_view (s\<lparr>list_processes := ?ps\<rparr>)" by (simp add: t'_def user_view_def)
      then show ?thesis
        by (simp add: update_view [where f' = "\<lambda>(p, c, i, segs). (p, c, i, [])"] process_view_def)
    qed
    moreover have "List.find (\<lambda>p. fst p = pid) (user_view s) = Some (pid, pcb_context pcb, pcb_instructions pcb,
        map (\<lambda>seg. (segment_id seg, seg_size seg, seg_bytes (km_memory s) seg)) (segment_table pcb))"
      using find_Some_iff_set [OF Some] by (simp add: find_view Some process_view_def find_by_pid_def)
    moreover have "total_memory_size t' = total_memory_size s" by (simp add: t'_def)
    ultimately show ?thesis using t by auto
  qed
qed

section \<open>A resumption\<close>

lemma restore_segments_frame:
  "restore_segments list_sort sss acc s = Ret (r, t) \<Longrightarrow> \<exists>m. t = s\<lparr>km_memory := m\<rparr>"
proof (induction sss arbitrary: acc s)
  case (Cons ss sss)
  show ?case
  proof (cases "\<exists>m. t = s\<lparr>km_memory := m\<rparr>")
    case False
    then have "t \<noteq> s" by (metis km_state.surjective km_state.update_convs(3))
    with Cons.prems False obtain acc' m where
      "restore_segments list_sort sss acc' (s\<lparr>km_memory := m\<rparr>) = Ret (r, t)"
      by (auto simp: and_then_eq_Ret split: option.splits if_splits)
    from Cons.IH [OF this] show ?thesis by simp
  qed
next
  case Nil
  then have "t = s\<lparr>km_memory := km_memory s\<rparr>" by simp
  then show ?case ..
qed

text \<open>What depends on the list of suspended processes and on the device only.\<close>

lemma store_ok_drop:
  assumes "store_ok s" and "same_swap (s\<lparr>list_suspended_processes := remove_first P (list_suspended_processes s)\<rparr>) t"
  shows "store_ok t"
proof -
  have sub: "sp \<in> set xs" if "sp \<in> set (remove_first P xs)" for sp and xs :: "t_suspended_pcb list"
    using that by (induction xs) (auto split: if_splits)
  have st: "stored (s\<lparr>list_suspended_processes := sps\<rparr>) ss = stored s ss" for sps ss
    by (simp add: stored_def total_blocks_def read_segment_from_swap_def)
  have "store_ok (s\<lparr>list_suspended_processes := remove_first P (list_suspended_processes s)\<rparr>)"
    using assms(1) by (auto simp: store_ok_def st dest!: sub)
  then show ?thesis using same_swap_view(2) [OF assms(2)] by simp
qed

lemma store_view_drop:
  assumes "same_swap (s\<lparr>list_suspended_processes := remove_first (find_suspended_by_pid pid) (list_suspended_processes s)\<rparr>) t"
  shows "store_view t = remove_first (\<lambda>e. fst e = pid) (store_view s)"
proof -
  have r: "map (\<lambda>sp. (sp_pid sp, f sp)) (remove_first (find_suspended_by_pid pid) sps) =
      remove_first (\<lambda>e. fst e = pid) (map (\<lambda>sp. (sp_pid sp, f sp)) sps)" for f sps
    by (induction sps) (simp_all add: find_suspended_by_pid_def)
  have "seg_content (s\<lparr>list_suspended_processes := sps\<rparr>) = seg_content s" for sps
    by (simp add: seg_content_def read_segment_from_swap_def fun_eq_iff)
  then show ?thesis
    using same_swap_view(1) [OF assms] by (simp add: store_view_def r)
qed

lemma process_desuspend_store:
  assumes inv: "km_inv s" "store_ok s" and srt: "sorts_by list_sort compare_by_base"
    and de: "process_desuspend list_sort pid s = Ret (ok, t)"
  shows "km_inv t \<and> store_ok t \<and> (if ok
    then (\<exists>segs. List.find (\<lambda>e. fst e = pid) (store_view s) = Some (pid, segs) \<and> pid \<in> fst ` set (user_view s) \<and>
      user_view t = give_back pid segs (user_view s) \<and> store_view t = remove_first (\<lambda>e. fst e = pid) (store_view s))
    else user_view t = user_view s \<and> store_view t = store_view s \<and>
      (List.find (\<lambda>e. fst e = pid) (store_view s) = Some (pid, []) \<longrightarrow> pid \<notin> fst ` set (user_view s)))"
proof (cases "List.find (find_suspended_by_pid pid) (list_suspended_processes s)")
  case None
  with de inv show ?thesis by (auto simp: process_desuspend_def find_store_view)
next
  case (Some sp)
  have sp: "sp \<in> set (list_suspended_processes s)" "sp_pid sp = pid"
    using find_Some_iff_set [OF Some] by (simp_all add: find_suspended_by_pid_def)
  have one: "length (suspended_segments sp) \<le> 1" "\<forall>ss \<in> set (suspended_segments sp). stored s ss"
    using inv(2) sp(1) by (auto simp: store_ok_def)
  note fv = find_store_view [of pid s, unfolded Some]
  let ?rest = "remove_first (find_suspended_by_pid pid) (list_suspended_processes s)"
  have in_view: "pid \<in> fst ` set (user_view s) \<longleftrightarrow> List.find (find_by_pid pid) (list_processes s) \<noteq> None"
    by (simp add: pids_view find_pid_None)
  show ?thesis
  proof (cases "suspended_segments sp")
    case Nil
    show ?thesis
    proof (cases "List.find (find_by_pid pid) (list_processes s)")
      case None
      with de Some Nil inv in_view show ?thesis by (simp add: process_desuspend_def)
    next
      case pcb: (Some pcb)
      have id: "update_first (find_by_pid pid) (\<lambda>pcb. pcb\<lparr>segment_table := segment_table pcb @ []\<rparr>) ps = ps" for ps
        by (induction ps) auto
      from de Some Nil pcb have t: "ok" "t = s\<lparr>list_suspended_processes := ?rest\<rparr>"
        by (simp_all add: process_desuspend_def id del: append_Nil2)
      have ss: "same_swap (s\<lparr>list_suspended_processes := ?rest\<rparr>) t" by (simp add: t(2))
      have "km_inv t" "user_view t = user_view s" using inv(1) by (simp_all add: t(2))
      with store_ok_drop [OF inv(2) ss] store_view_drop [OF ss] t(1) show ?thesis
        using fv in_view pcb sp(2) Nil by (simp add: give_back_def)
    qed
  next
    case (Cons ss more)
    then have sss: "suspended_segments sp = [ss]" and st: "stored s ss" using one by auto
    let ?d = "seg_content s ss"
    note rd = storedD [OF st]
    have fv': "List.find (\<lambda>e. fst e = pid) (store_view s) = Some (pid, [(ss_segment_id ss, ss_size ss, ?d)])"
      using fv sp(2) sss by simp
    show ?thesis
    proof (cases "select_hole (allocation_strategy s) (get_free_holes list_sort s) (ss_size ss)")
      case None
      with de Some sss inv fv' show ?thesis by (simp add: process_desuspend_def)
    next
      case c: (Some c)
      then have c': "c \<in> set (get_free_holes list_sort s)" "ss_size ss \<le> hole_size c"
        using select_hole_Some by blast+
      show ?thesis
      proof (cases "List.find (find_by_pid pid) (list_processes s)")
        case None
        from write_hole [OF inv(1) srt c' conjunct2 [OF rd]] obtain m where
          m: "memory_write (km_memory s) (hole_base c) ?d (ss_size ss) = Ret (True, m)"
            "km_inv (s\<lparr>km_memory := m\<rparr>)" "user_view (s\<lparr>km_memory := m\<rparr>) = user_view s" by blast
        have "\<not> ok" "t = s\<lparr>km_memory := m\<rparr>"
          using de Some sss c conjunct1 [OF rd] m(1) None by (simp_all add: process_desuspend_def)
        moreover have "same_swap s (s\<lparr>km_memory := m\<rparr>)" by simp
        ultimately show ?thesis using m inv(2) fv' same_swap_view by (metis list.distinct(1) option.inject prod.inject)
      next
        case pcb: (Some pcb)
        have "pid \<in> pcb_pid ` set (list_processes s)" using pcb find_pid_None [of pid "list_processes s"] by simp
        from process_desuspend [OF inv(1) srt Some sss conjunct1 [OF rd] conjunct2 [OF rd] _ c' this] st de
        have t: "ok" "km_inv t" "user_view t = add_to_view pid (ss_segment_id ss, ss_size ss, ?d) (user_view s)"
          by (auto simp: stored_def)
        from de Some obtain r u where u: "restore_segments list_sort (suspended_segments sp) [] s = Ret (r, u)"
          by (auto simp: process_desuspend_def and_then_eq_Ret)
        have "\<exists>ps. t = u\<lparr>list_processes := ps, list_suspended_processes :=
            remove_first (find_suspended_by_pid pid) (list_suspended_processes u)\<rparr>"
          using de t(1) Some u by (auto simp: process_desuspend_def split: option.splits)
        then have ss: "same_swap (s\<lparr>list_suspended_processes := ?rest\<rparr>) t"
          using restore_segments_frame [OF u(1)] by (auto simp: same_swap_def)
        show ?thesis
          using t store_ok_drop [OF inv(2) ss] store_view_drop [OF ss] fv' in_view pcb by (simp add: give_back_def)
      qed
    qed
  qed
qed

lemma process_desuspend_frame:
  assumes "process_desuspend list_sort pid s = Ret (ok, t)"
  shows "to_scheduler t = to_scheduler s \<and> total_memory_size t = total_memory_size s \<and>
    compaction_waiters t = compaction_waiters s \<and> swap_ok t = swap_ok s"
  using assms by (auto simp: process_desuspend_def and_then_eq_Ret split: option.splits dest!: restore_segments_frame)

lemma desuspend_all_come_back:
  assumes "desuspend_all list_sort pids acc s = Ret (pids', t)" and "km_inv s" and "store_ok s"
    and "sorts_by list_sort compare_by_base"
  shows "\<exists>new. pids' = acc @ new \<and>
    come_back (unat (total_memory_size s)) pids (user_view s, store_view s) new (user_view t, store_view t) \<and>
    km_inv t \<and> store_ok t \<and> to_scheduler t = to_scheduler s \<and> total_memory_size t = total_memory_size s \<and>
    compaction_waiters t = compaction_waiters s \<and> swap_ok t = swap_ok s"
  using assms(1-3)
proof (induction pids arbitrary: acc s)
  case Nil
  then show ?case by (auto intro: come_back.none)
next
  case (Cons pid pids)
  from Cons.prems(1) obtain ok u where u: "process_desuspend list_sort pid s = Ret (ok, u)"
    "desuspend_all list_sort pids (if ok then acc @ [pid] else acc) u = Ret (pids', t)"
    by (auto simp: and_then_eq_Ret)
  note st = process_desuspend_store [OF Cons.prems(2,3) assms(4) u(1)]
  note fr = process_desuspend_frame [OF u(1)]
  from Cons.IH [OF u(2)] st obtain new where new: "pids' = (if ok then acc @ [pid] else acc) @ new"
    "come_back (unat (total_memory_size u)) pids (user_view u, store_view u) new (user_view t, store_view t)"
    "km_inv t" "store_ok t" "to_scheduler t = to_scheduler u" "total_memory_size t = total_memory_size u"
    "compaction_waiters t = compaction_waiters u" "swap_ok t = swap_ok u" by blast
  show ?case
  proof (cases ok)
    case True
    then obtain segs where b: "List.find (\<lambda>e. fst e = pid) (store_view s) = Some (pid, segs)"
      "pid \<in> fst ` set (user_view s)" "user_view u = give_back pid segs (user_view s)"
      "store_view u = remove_first (\<lambda>e. fst e = pid) (store_view s)" using st by auto
    have "space (give_back pid segs (user_view s)) \<le> unat (total_memory_size s)"
      using km_inv_sizes [of u] st fr b(3) space_view [of u] by simp
    from come_back.returns [OF b(1,2) this] new b fr True show ?thesis
      by (intro exI [of _ "pid # new"]) simp
  next
    case False
    with come_back.stays [of pid "store_view s" "user_view s"] new st fr show ?thesis
      by (intro exI [of _ new]) simp
  qed
qed

lemma km_swap_in_store:
  assumes "km_swap_in list_sort pids s = Ret t" and "km_inv s" and "store_ok s"
    and "sorts_by list_sort compare_by_base"
  shows "\<exists>new. come_back (unat (total_memory_size s)) pids (user_view s, store_view s) new (user_view t, store_view t) \<and>
    to_scheduler t = to_scheduler s @ [uint32_list_send new SWAP_IN] \<and>
    km_inv t \<and> store_ok t \<and> total_memory_size t = total_memory_size s \<and>
    compaction_waiters t = compaction_waiters s \<and> swap_ok t = swap_ok s"
proof -
  from assms(1) obtain new u where u: "desuspend_all list_sort pids [] s = Ret (new, u)"
    "t = send_to_scheduler (uint32_list_send new SWAP_IN) u"
    by (auto simp: km_swap_in_def and_then_eq_Ret)
  have "same_swap u t" by (simp add: u(2))
  from same_swap_view [OF this] desuspend_all_come_back [OF u(1) assms(2-4)] show ?thesis
    by (intro exI [of _ new]) (simp add: u(2))
qed

lemma km_swap_out_store:
  assumes "km_swap_out pid s = Ret t" and "km_inv s" and "swap_ok s" and "store_ok s"
    and "\<forall>pcb. List.find (find_by_pid pid) (list_processes s) = Some pcb \<longrightarrow> length (segment_table pcb) \<le> 1"
    and "uint32_deserialize buffer = Some (pid, rest)"
  shows "\<exists>out. store_step program n (user_view s, store_view s) (Scheduler_message SWAP_OUT buffer) out
      (user_view t, store_view t) \<and> to_scheduler t = to_scheduler s @ out \<and>
    total_memory_size t = total_memory_size s \<and> store_ok t"
proof -
  let ?out = "\<lambda>ok. package_add [bool_byte ok] (package_add (u32_bytes pid) (package_with SWAP_OUT))"
  from assms(1) obtain ok u where u: "process_suspend pid s = Ret (ok, u)" "t = send_to_scheduler (?out ok) u"
    by (auto simp: km_swap_out_def and_then_eq_Ret)
  have "same_swap u t" by (simp add: u(2))
  note v = same_swap_view [OF this]
  note st = process_suspend_store [OF assms(2-4) u(1) assms(5)]
  have "to_scheduler u = to_scheduler s"
  proof (cases "List.find (find_by_pid pid) (list_processes s)")
    case None
    with u(1) show ?thesis by (simp add: process_suspend_def)
  next
    case (Some pcb)
    from process_suspend [OF assms(2,3) Some] u(1) show ?thesis by (auto split: if_splits)
  qed
  moreover have "store_step program n (user_view s, store_view s) (Scheduler_message SWAP_OUT buffer) [?out ok]
      (user_view u, store_view u)"
  proof (cases ok)
    case True
    with st obtain c i segs where "List.find (\<lambda>p. fst p = pid) (user_view s) = Some (pid, c, i, segs)"
      "user_view u = update_first (\<lambda>p. fst p = pid) (\<lambda>(p, c, i, segs). (p, c, i, [])) (user_view s)"
      "store_view u = store_view s @ [(pid, segs)]" by auto
    with store_step.suspended [OF assms(6), where program = program and total = n] True show ?thesis by simp
  next
    case False
    with st store_step.not_suspended [OF assms(6), where program = program and total = n] show ?thesis by simp
  qed
  ultimately show ?thesis
    using v st by (intro exI [of _ "[?out ok]"]) (simp add: u(2))
qed

section \<open>Refinement\<close>

text \<open>What is asked of the messages: no segment of 0 bytes, and only processes with at most one segment are
  suspended.\<close>

definition orderly :: "km_server \<Rightarrow> km_event \<Rightarrow> bool" where
  "orderly srv e \<longleftrightarrow>
     (case e of
        Scheduler_message op buffer \<Rightarrow>
          (op = SEGMENT_CREATE \<longrightarrow>
             (case segment_create_args buffer of None \<Rightarrow> True | Some args \<Rightarrow> snd (snd args) \<noteq> 0)) \<and>
          (op = SWAP_OUT \<longrightarrow>
             (case uint32_deserialize buffer of
                None \<Rightarrow> True
              | Some (pid, _) \<Rightarrow>
                  (case List.find (find_by_pid pid) (list_processes (km srv)) of
                     None \<Rightarrow> True
                   | Some pcb \<Rightarrow> length (segment_table pcb) \<le> 1)))
      | _ \<Rightarrow> True)"

inductive orderly_run ::
  "(string \<rightharpoonup> string) \<Rightarrow> (string \<Rightarrow> string \<Rightarrow> string list) \<Rightarrow> string \<Rightarrow>
   (seg_ref \<times> t_segment) list_sort \<Rightarrow> t_hole list_sort \<Rightarrow>
   km_server \<Rightarrow> km_event list \<Rightarrow> km_server \<Rightarrow> bool"
  for files string_split base_path seg_sort hole_sort where
  idle: "orderly_run files string_split base_path seg_sort hole_sort srv [] srv"
| more: "km_step files string_split base_path seg_sort hole_sort srv e srv' \<Longrightarrow> orderly srv e \<Longrightarrow>
    orderly_run files string_split base_path seg_sort hole_sort srv' es srv'' \<Longrightarrow>
    orderly_run files string_split base_path seg_sort hole_sort srv (e # es) srv''"

text \<open>The states of the two sides, and the step of one that the other can do.\<close>

definition abstract :: "km_server \<Rightarrow> view \<times> store" where
  "abstract srv = (user_view (km srv), store_view (km srv))"

definition store_simulated :: "(string \<Rightarrow> string list option) \<Rightarrow> km_server \<Rightarrow> km_event \<Rightarrow> km_server \<Rightarrow> bool" where
  "store_simulated program srv e srv' \<longleftrightarrow>
     (\<exists>out. store_step program (unat (total_memory_size (km srv))) (abstract srv) e out (abstract srv') \<and>
        to_scheduler (km srv') = to_scheduler (km srv) @ out \<and>
        total_memory_size (km srv') = total_memory_size (km srv)) \<and>
     km_ok srv' \<and> store_ok (km srv')"

lemma other_step_simulated:
  assumes "km_step files string_split base_path seg_sort hole_sort srv e srv'"
    and "km_ok srv" and "store_ok (km srv)" and "tame e" and "\<not> swaps e"
    and "sorts_by seg_sort compare_segment_by_base" and "sorts_by hole_sort compare_by_base"
  shows "store_simulated (program_of files string_split base_path) srv e srv'"
proof -
  note s = same_swap_view [OF same_swap_step [OF assms(1,5)]]
  from km_step_simulated [OF assms(1,2,4,6,7)] obtain out where
    "memory_step (program_of files string_split base_path) (unat (total_memory_size (km srv)))
      (user_view (km srv)) e out (user_view (km srv'))"
    "to_scheduler (km srv') = to_scheduler (km srv) @ out" "total_memory_size (km srv') = total_memory_size (km srv)"
    by (auto simp: simulated_def)
  with store_step.other [OF assms(5)] s assms(3) km_step_keeps [OF assms(1,2,4,6,7)] show ?thesis
    unfolding store_simulated_def abstract_def by (intro conjI exI [of _ out]) simp_all
qed

lemma orderly_step_simulated:
  assumes step: "km_step files string_split base_path seg_sort hole_sort srv e srv'" and ord: "orderly srv e"
    and inv: "km_ok srv" "store_ok (km srv)"
    and srt: "sorts_by seg_sort compare_segment_by_base" "sorts_by hole_sort compare_by_base"
  shows "store_simulated (program_of files string_split base_path) srv e srv'"
proof (cases "swaps e")
  case False
  have "tame e" using ord False by (auto simp: tame_def orderly_def swaps_def split: km_event.splits)
  then show ?thesis using other_step_simulated [OF step inv _ False srt] by blast
next
  case True
  then obtain op buffer where e: "e = Scheduler_message op buffer" "op = SWAP_OUT \<or> op = SWAP_IN"
    by (auto simp: swaps_def split: km_event.splits)
  from step have h: "kernel_scheduler_handler files string_split base_path hole_sort op buffer srv = Ret srv'"
    by (auto simp: e(1) elim: km_stepE)
  have k: "km_inv (km srv)" "swap_ok (km srv)" using inv(1) by (simp_all add: km_ok_def)
  from e(2) show ?thesis
  proof
    assume op: "op = SWAP_OUT"
    with h obtain pid rest t where t: "uint32_deserialize buffer = Some (pid, rest)"
      "km_swap_out pid (km srv) = Ret t" "srv' = srv\<lparr>km := t\<rparr>"
      by (auto simp: kernel_scheduler_handler_def on_km_run_def and_then_eq_Ret)
    have one: "\<forall>pcb. List.find (find_by_pid pid) (list_processes (km srv)) = Some pcb \<longrightarrow> length (segment_table pcb) \<le> 1"
      using ord t(1) op by (auto simp: orderly_def e(1))
    have "tame e" by (simp add: tame_def e(1) op)
    from km_step_keeps [OF step inv(1) this srt] km_swap_out_store [OF t(2) k inv(2) one t(1)]
    show ?thesis unfolding store_simulated_def abstract_def by (auto simp: e(1) op t(3))
  next
    assume op: "op = SWAP_IN"
    with h obtain pids t where t: "deserialize_all uint32_deserialize buffer = Some pids"
      "km_swap_in hole_sort pids (km srv) = Ret t" "srv' = srv\<lparr>km := t\<rparr>"
      by (auto simp: kernel_scheduler_handler_def on_km_run_def and_then_eq_Ret)
    from km_swap_in_store [OF t(2) k(1) inv(2) srt(2)] obtain new where
      new: "come_back (unat (total_memory_size (km srv))) pids (abstract srv) new (abstract srv')"
      "to_scheduler t = to_scheduler (km srv) @ [uint32_list_send new SWAP_IN]" "km_inv t" "store_ok t"
      "total_memory_size t = total_memory_size (km srv)" "compaction_waiters t = compaction_waiters (km srv)"
      "swap_ok t = swap_ok (km srv)" by (auto simp: abstract_def t(3))
    have "km_ok srv'" using new k inv(1) by (simp add: km_ok_def t(3))
    with new store_step.resumed [OF t(1) new(1)] show ?thesis
      unfolding store_simulated_def by (auto simp: e(1) op t(3))
  qed
qed


text \<open>A process that is suspended and comes back. What was sent before changes nothing in a resumption.\<close>

lemma sent_irrelevant [simp]:
  "get_free_holes list_sort (s\<lparr>to_scheduler := out\<rparr>) = get_free_holes list_sort s"
  "read_segment_from_swap ss (s\<lparr>to_scheduler := out\<rparr>) = read_segment_from_swap ss s"
  "user_view (s\<lparr>to_scheduler := out\<rparr>) = user_view s" "occupied (s\<lparr>to_scheduler := out\<rparr>) = occupied s"
  "km_inv (s\<lparr>to_scheduler := out\<rparr>) = km_inv s"
  by (simp_all add: get_free_holes_def read_segment_from_swap_def user_view_def occupied_def km_inv_def)

lemma restore_segments_sent:
  "restore_segments list_sort sss acc s = Ret (r, t) \<Longrightarrow>
   restore_segments list_sort sss acc (s\<lparr>to_scheduler := out\<rparr>) = Ret (r, t\<lparr>to_scheduler := out\<rparr>)"
proof (induction sss arbitrary: acc s)
  case (Cons ss rest)
  show ?case
  proof (cases "select_hole (allocation_strategy s) (get_free_holes list_sort s) (ss_size ss)")
    case chosen: (Some h)
    from Cons.prems obtain read where read: "read_segment_from_swap ss s = Ret read"
      by (auto simp: chosen and_then_eq_Ret)
    show ?thesis
    proof (cases read)
      case None
      with Cons.prems chosen read show ?thesis by auto
    next
      case (Some data)
      from Cons.prems obtain ok m where w: "memory_write (km_memory s) (hole_base h) data (ss_size ss) = Ret (ok, m)"
        by (auto simp: chosen read Some and_then_eq_Ret)
      have swap: "s\<lparr>to_scheduler := out, km_memory := m\<rparr> = s\<lparr>km_memory := m, to_scheduler := out\<rparr>" by simp
      show ?thesis
        using Cons.prems Cons.IH [of _ "s\<lparr>km_memory := m\<rparr>"]
        by (cases ok; simp add: chosen read Some w swap del: km_state.update_convs)
    qed
  qed (use Cons.prems in auto)
qed simp

lemma process_desuspend_sent:
  assumes "process_desuspend list_sort pid s = Ret (ok, t)"
  shows "process_desuspend list_sort pid (s\<lparr>to_scheduler := out\<rparr>) = Ret (ok, t\<lparr>to_scheduler := out\<rparr>)"
proof (cases "List.find (find_suspended_by_pid pid) (list_suspended_processes s)")
  case (Some sp)
  with assms obtain r u where r: "restore_segments list_sort (suspended_segments sp) [] s = Ret (r, u)"
    by (auto simp: process_desuspend_def and_then_eq_Ret)
  from assms show ?thesis
    by (auto simp: process_desuspend_def Some r restore_segments_sent [OF r] split: option.splits)
qed (use assms in \<open>auto simp: process_desuspend_def\<close>)

lemma list_received: "deserialize_all uint32_deserialize (stream (uint32_list_send pids op)) = Some pids"
  using uint32.decode_all [of pids] by (simp add: uint32_list_send_def)

lemma swapped_out:
  assumes "process_suspend pid (km srv) = Ret (True, k)"
  shows "kernel_scheduler_handler files split base hole_sort SWAP_OUT (stream (uint32_send_with_op_code pid SWAP_OUT)) srv =
      Ret (srv\<lparr>km := send_to_scheduler (package_add [bool_byte True] (package_add (u32_bytes pid) (package_with SWAP_OUT))) k\<rparr>)"
  using assms by (simp add: kernel_scheduler_handler_def uint32_send_with_op_code_def on_km_run_def km_swap_out_def)

lemma swapped_back:
  assumes "process_desuspend hole_sort pid (km srv) = Ret (True, k)"
  shows "kernel_scheduler_handler files split base hole_sort SWAP_IN (stream (uint32_list_send [pid] SWAP_IN)) srv =
      Ret (srv\<lparr>km := send_to_scheduler (uint32_list_send [pid] SWAP_IN) k\<rparr>)"
  using assms by (simp add: kernel_scheduler_handler_def list_received on_km_run_def km_swap_in_def)


end
