(* ===== verification/Suspension_Service.thy ===== *)
theory Suspension_Service
  imports Suspension KM_Store
begin

text \<open>
  The life of a suspension, from end to end: Kernel Scheduler takes a process that has been blocked for too long
  out of memory, Kernel Memory puts it into SWAP, its I/O operation ends meanwhile, and when memory
  is announced it comes back and is ready.
\<close>

section \<open>Kernel Scheduler\<close>

lemma suspend_one_fields [simp]:
  "procs (suspend_one p s) = (procs s)(p := (procs s p)\<lparr>proc_state := SUSP_BLOCK\<rparr>)"
  "block_processes (suspend_one p s) = remove1 p (block_processes s)"
  "suspended_processes (suspend_one p s) = suspended_processes s"
  "ready_queue (suspend_one p s) = ready_queue s" "ks_state.list_processes (suspend_one p s) = ks_state.list_processes s"
  "queue_index (suspend_one p s) = queue_index s" "suspension_timeout (suspend_one p s) = suspension_timeout s"
  by (simp_all add: suspend_one_def process_setters upd_proc_def block_remove_def queue_index_def fun_eq_iff)

lemma queue_index_frame [simp]:
  "queue_index (ks_send to pkg s) = queue_index s" "queue_index (s\<lparr>suspended_processes := l\<rparr>) = queue_index s"
  by (simp_all add: ks_send_def queue_index_def fun_eq_iff)

text \<open>The one process that is to be suspended among those that are blocked.\<close>

lemma suspend_scan_none:
  "\<forall>q \<in> set ps. \<not> must_suspend now s q \<Longrightarrow> suspend_scan now ps l s = (l, s)"
  by (induction ps) auto

lemma suspend_scan_one:
  assumes "distinct ps" and "p \<in> set ps" and "must_suspend now s p"
    and "\<forall>q \<in> set ps - {p}. \<not> must_suspend now s q"
  shows "suspend_scan now ps l s = (l @ [p], suspend_one p s)"
  using assms
proof (induction ps)
  case (Cons q ps)
  show ?case
  proof (cases "q = p")
    case True
    with Cons.prems have "\<forall>r \<in> set ps. \<not> must_suspend now (suspend_one p s) r"
      by (auto simp: must_suspend_def)
    with True Cons.prems(3) show ?thesis by (simp add: suspend_scan_none)
  next
    case False
    with Cons show ?thesis by auto
  qed
qed simp

lemma suspension_ordered:
  assumes "can_schedule s" and "distinct (block_processes s)" and "p \<in> set (block_processes s)"
    and "must_suspend now s p" and "\<forall>q \<in> set (block_processes s) - {p}. \<not> must_suspend now s q"
  shows "suspension_manager_turn now s =
    ks_send Kernel_Memory (uint32_send_with_op_code (proc_pid (procs s p)) SWAP_OUT) (suspend_one p s)"
  by (simp add: suspension_manager_turn_def suspend_scan_one [OF assms(2-5)] assms(1) send_swap_out_def)

lemma same_process:
  assumes "\<And>q. proc_pid (procs t q) = proc_pid (procs s q)"
    and "ks_state.list_processes t = ks_state.list_processes s"
  shows "get_process_from_pid t pid = get_process_from_pid s pid"
  using assms by (simp add: get_process_from_pid_def)

lemma next_operation_frame [simp]:
  "procs (handle_next_operation io ty s) = procs s"
  "ks_state.list_processes (handle_next_operation io ty s) = ks_state.list_processes s"
  "suspended_processes (handle_next_operation io ty s) = suspended_processes s"
  "block_processes (handle_next_operation io ty s) = block_processes s"
  "ready_queue (handle_next_operation io ty s) = ready_queue s"
  "queue_index (handle_next_operation io ty s) = queue_index s"
  by (auto simp: handle_next_operation_def upd_client_def ks_send_def queue_index_def fun_eq_iff
      split: t_io_type.split list.split)

lemma suspension_confirmed:
  assumes "get_process_from_pid s pid = Some p" and "proc_state (procs s p) = SUSP_BLOCK"
  shows "ks_kernel_memory_handler list_sort now SWAP_OUT
      (stream (package_add [bool_byte True] (package_add (u32_bytes pid) (package_with SWAP_OUT)))) s =
    Ret (s\<lparr>suspended_processes := suspended_processes s @ [p]\<rparr>)"
  using assms by (simp add: ks_kernel_memory_handler_def receive_confirmation_io_memory_write_def
      wait_confirmation_swap_out_def)

lemma operation_ends_suspended:
  assumes "get_process_from_pid s pid = Some p" and "proc_state (procs s p) = SUSP_BLOCK"
    and "p \<notin> set (block_processes s)"
  obtains t where "ks_io_handler io ty CONFIRMATION (stream (send_confirmation pid)) s = Ret t"
    and "procs t = (procs s)(p := (procs s p)\<lparr>proc_state := SUSP_READY\<rparr>)"
    and "ks_state.list_processes t = ks_state.list_processes s" and "suspended_processes t = suspended_processes s"
    and "block_processes t = block_processes s" and "ready_queue t = ready_queue s" and "queue_index t = queue_index s"
proof
  show "ks_io_handler io ty CONFIRMATION (stream (send_confirmation pid)) s =
      Ret (handle_next_operation io ty (io_finish_process pid io s))"
    by (simp add: ks_io_handler_def send_confirmation_def)
qed (use assms in \<open>simp_all add: io_finish_process_def unblock_process_def process_setters upd_proc_def block_remove_def
    upd_client_def wake_scheduler_def remove1_idem queue_index_def fun_eq_iff\<close>)

lemma suspended_requested:
  assumes "suspended_processes s = [p]" and "proc_state (procs s p) = SUSP_READY"
    and "list_sort (\<lambda>a b. effective_priority (procs s a) < effective_priority (procs s b)) [p] = [p]"
  shows "ks_kernel_memory_handler list_sort now MEMORY_UPDATE
      (stream (package_add (u32_bytes sz) (package_with MEMORY_UPDATE))) s =
    Ret (ks_send Kernel_Memory (uint32_list_send [proc_pid (procs s p)] SWAP_IN) s)"
  using assms by (simp add: ks_kernel_memory_handler_def request_swap_in_def sort_processes_by_priority_def
      process_list_to_pid_list_def)

lemma resumption_confirmed:
  assumes "get_process_from_pid s pid = Some p" and "proc_state (procs s p) = SUSP_READY"
    and "suspended_processes s = [p]"
  obtains t where "ks_kernel_memory_handler list_sort now SWAP_IN (stream (uint32_list_send [pid] SWAP_IN)) s = Ret t"
    and "proc_state (procs t p) = READY" and "suspended_processes t = []" and "block_processes t = block_processes s"
    and "ready_queue t = (ready_queue s)[queue_index s p := ready_queue s ! queue_index s p @ [p]]"
    and "short_term_scheduler_sem t = short_term_scheduler_sem s + 1"
proof
  show "ks_kernel_memory_handler list_sort now SWAP_IN (stream (uint32_list_send [pid] SWAP_IN)) s =
      Ret (wait_confirmation_swap_in now [pid] s)"
    by (simp add: ks_kernel_memory_handler_def list_received)
qed (use assms in \<open>simp_all add: wait_confirmation_swap_in_def swapped_in_def Let_def process_setters upd_proc_def
    add_process_to_ready_queue_def on_queue_def queue_index_def wake_scheduler_def\<close>)

section \<open>Kernel Memory\<close>

text \<open>A suspension sends nothing itself.\<close>

lemma suspend_segments_sends_nothing:
  "suspend_segments segs acc s = Ret (r, t) \<Longrightarrow> to_scheduler t = to_scheduler s"
  by (induction segs acc s arbitrary: r t rule: suspend_segments.induct)
    (fastforce simp: and_then_eq_Ret write_segment_to_swap_def Let_def split: if_splits option.splits)+

lemma process_suspend_sends_nothing: "process_suspend pid s = Ret (ok, t) \<Longrightarrow> to_scheduler t = to_scheduler s"
  by (auto simp: process_suspend_def and_then_eq_Ret split: option.splits dest!: suspend_segments_sends_nothing)

section \<open>Both\<close>


text \<open>Process 2 sleeps since the start, process 3 since time 900; at 1200 the first has passed the limit
  of 1000.\<close>

definition sleeping :: ks_state where
  "sleeping = three_processes\<lparr>exec_processes := [1], block_processes := [3, 2],
     procs := (procs three_processes)(2 := (create_process 2 1)\<lparr>proc_state := BLOCK\<rparr>,
       3 := (create_process 3 0)\<lparr>proc_state := BLOCK, start_block_time := 900\<rparr>)\<rparr>"

lemma sleeping_fields:
  "ks_state.list_processes sleeping = [1, 2, 3]" "block_processes sleeping = [3, 2]" "suspended_processes sleeping = []"
  "ready_queue sleeping = [[], [], []]" "can_schedule sleeping" "suspension_timeout sleeping = 1000"
  "get_process_from_pid sleeping 2 = Some 2" "must_suspend 1200 sleeping 2" "\<not> must_suspend 1200 sleeping 3"
  "queue_index sleeping 2 = 1"
proof -
  show t: "suspension_timeout sleeping = 1000" "can_schedule sleeping" "suspended_processes sleeping = []"
    by (simp_all add: sleeping_def three_processes_def ks_setup_def Let_def scheduler_algorithm_from_string_def)
  show "must_suspend 1200 sleeping 2" "\<not> must_suspend 1200 sleeping 3"
    unfolding must_suspend_def t by (simp_all add: sleeping_def create_process_def)
qed (simp_all add: sleeping_def get_process_from_pid_def create_process_def queue_index_def)


end
