(* ===== verification/KS_Shutdown.thy ===== *)
theory KS_Shutdown
  imports KS_Start
begin

text \<open>
  The end of Kernel Scheduler (\<open>shutdown_handler\<close> of \<open>kernel_scheduler/src/main.c\<close>): the lists are
  destroyed with their elements. What has been freed is kept in the order of the calls; freeing
  an object again, or using it, is undefined. The thread waits for \<open>shutdown_sem\<close>, which nothing
  in the program posts; its value is an argument.
\<close>

record released =
  freed_clients :: "client list"
  freed_mutexes :: "mutex list"
  freed_processes :: "process list"

text \<open>\<open>list_destroy_and_destroy_elements\<close> of the commons library, on the elements.\<close>

fun destroy_elements :: "('a \<Rightarrow> 'b \<Rightarrow> 'b run) \<Rightarrow> 'a list \<Rightarrow> 'b \<Rightarrow> 'b run" where
  "destroy_elements destroyer [] r = Ret r"
| "destroy_elements destroyer (x # xs) r = and_then (destroyer x r) (destroy_elements destroyer xs)"

definition destroy_client :: "client \<Rightarrow> released \<Rightarrow> released run" where
  "destroy_client c r =
     (if c \<in> set (freed_clients r) then Undef else Ret (r\<lparr>freed_clients := freed_clients r @ [c]\<rparr>))"

definition mutex_destroy :: "mutex \<Rightarrow> released \<Rightarrow> released run" where
  "mutex_destroy m r =
     (if m \<in> set (freed_mutexes r) then Undef else Ret (r\<lparr>freed_mutexes := freed_mutexes r @ [m]\<rparr>))"

definition destroy_process :: "process \<Rightarrow> released \<Rightarrow> released run" where
  "destroy_process p r =
     (if p \<in> set (freed_processes r) then Undef else Ret (r\<lparr>freed_processes := freed_processes r @ [p]\<rparr>))"

definition destroy_list_of_clients :: "client list \<Rightarrow> released \<Rightarrow> released run" where
  "destroy_list_of_clients = destroy_elements destroy_client"

definition destroy_list_of_mutexes :: "mutex list \<Rightarrow> released \<Rightarrow> released run" where
  "destroy_list_of_mutexes = destroy_elements mutex_destroy"

definition destroy_list_of_processes :: "process list \<Rightarrow> released \<Rightarrow> released run" where
  "destroy_list_of_processes = destroy_elements destroy_process"

text \<open>The lists of devices, the queues one after the other, then the process ends.\<close>

definition shutdown_handler :: "nat \<Rightarrow> ks_state \<Rightarrow> released run" where
  "shutdown_handler shutdown_sem s =
     (if shutdown_sem = 0 then Blocks
      else
        and_then (destroy_list_of_clients (list_cpu s) \<lparr>freed_clients = [], freed_mutexes = [], freed_processes = []\<rparr>) (\<lambda>r.
        and_then (destroy_list_of_clients (list_io_sleep s) r) (\<lambda>r.
        and_then (destroy_list_of_clients (list_io_stdin s) r) (\<lambda>r.
        and_then (destroy_list_of_clients (list_io_stdout s) r) (\<lambda>r.
        and_then (destroy_list_of_mutexes (list_mutexes s) r) (\<lambda>r.
        and_then (destroy_list_of_processes (list_processes s) r) (\<lambda>r.
        and_then (destroy_elements destroy_list_of_processes (ready_queue s) r)
          (destroy_list_of_processes (exec_processes s)))))))))"

section \<open>Destroying a list\<close>

lemma destroy_clients:
  "destroy_list_of_clients cs r =
     (if distinct cs \<and> set cs \<inter> set (freed_clients r) = {} then Ret (r\<lparr>freed_clients := freed_clients r @ cs\<rparr>) else Undef)"
  unfolding destroy_list_of_clients_def
  by (induction cs arbitrary: r) (auto simp: destroy_client_def)

lemma destroy_mutexes:
  "destroy_list_of_mutexes ms r =
     (if distinct ms \<and> set ms \<inter> set (freed_mutexes r) = {} then Ret (r\<lparr>freed_mutexes := freed_mutexes r @ ms\<rparr>) else Undef)"
  unfolding destroy_list_of_mutexes_def
  by (induction ms arbitrary: r) (auto simp: mutex_destroy_def)

lemma destroy_processes:
  "destroy_list_of_processes ps r =
     (if distinct ps \<and> set ps \<inter> set (freed_processes r) = {} then Ret (r\<lparr>freed_processes := freed_processes r @ ps\<rparr>) else Undef)"
  unfolding destroy_list_of_processes_def
  by (induction ps arbitrary: r) (auto simp: destroy_process_def)

lemma destroy_queues:
  "destroy_elements destroy_list_of_processes qs r =
     (if distinct (concat qs) \<and> set (concat qs) \<inter> set (freed_processes r) = {}
      then Ret (r\<lparr>freed_processes := freed_processes r @ concat qs\<rparr>) else Undef)"
  by (induction qs arbitrary: r) (auto simp: destroy_processes)

text \<open>With clients, mutexes and processes listed once, what is left to go wrong is a process that is
  in a queue or in execution, because it is in the list of all processes as well.\<close>

lemma shutdown_when_listed_once:
  assumes "0 < shutdown_sem" and "distinct (all_clients s)" and "distinct (list_mutexes s)" and "distinct (list_processes s)"
    and "set (concat (ready_queue s)) \<union> set (exec_processes s) \<subseteq> set (list_processes s)"
  shows "shutdown_handler shutdown_sem s =
    (if concat (ready_queue s) = [] \<and> exec_processes s = []
     then Ret \<lparr>freed_clients = all_clients s, freed_mutexes = list_mutexes s, freed_processes = list_processes s\<rparr>
     else Undef)"
proof -
  have c: "distinct (list_cpu s)" "distinct (list_io_sleep s)" "distinct (list_io_stdin s)" "distinct (list_io_stdout s)"
    "set (list_io_sleep s) \<inter> set (list_cpu s) = {}" "set (list_io_stdin s) \<inter> (set (list_cpu s) \<union> set (list_io_sleep s)) = {}"
    "set (list_io_stdout s) \<inter> (set (list_cpu s) \<union> set (list_io_sleep s) \<union> set (list_io_stdin s)) = {}"
    using assms(2) by (auto simp: all_clients_def)
  have "set (concat (ready_queue s)) \<inter> set (list_processes s) = {} \<longleftrightarrow> concat (ready_queue s) = []"
    "set (exec_processes s) \<inter> set (list_processes s) = {} \<longleftrightarrow> exec_processes s = []"
    using assms(5) by (cases "concat (ready_queue s)", auto) (cases "exec_processes s", auto)
  then show ?thesis
    using assms(1,3,4) c
    by (simp add: shutdown_handler_def destroy_clients destroy_mutexes destroy_processes destroy_queues all_clients_def Un_assoc
        del: set_concat concat_eq_Nil_conv)
qed


lemma pool_listed:
  assumes "sched_inv s"
  shows "set (concat (ready_queue s)) = {p \<in> set (list_processes s). proc_state (procs s p) = READY}"
    and "set (exec_processes s) = {p \<in> set (list_processes s). proc_cpu (procs s p) \<noteq> None}"
proof -
  have inv: "queues_configured s" "ready_ok (set (list_processes s)) s" "lists_ok (set (list_processes s)) s"
    using assms by (simp_all add: sched_inv_def pool_ok_def)
  have i: "queue_index s p < length (ready_queue s)" for p
    using inv(1) by (auto simp: queues_configured_def queue_index_def)
  have "set (concat (ready_queue s)) = (\<Union>i < length (ready_queue s). set (ready_queue s ! i))"
    by (auto simp: set_conv_nth [of "ready_queue s"])
  also have "\<dots> = (\<Union>i < length (ready_queue s). {p \<in> set (list_processes s). proc_state (procs s p) = READY \<and> queue_index s p = i})"
    using inv(2) by (intro SUP_cong) (auto simp: ready_ok_def)
  also have "\<dots> = {p \<in> set (list_processes s). proc_state (procs s p) = READY}" using i by auto
  finally show "set (concat (ready_queue s)) = {p \<in> set (list_processes s). proc_state (procs s p) = READY}" .
  show "set (exec_processes s) = {p \<in> set (list_processes s). proc_cpu (procs s p) \<noteq> None}"
    using inv(3) by (auto simp: lists_ok_def runs_on_def)
qed

text \<open>The shutdown of Kernel Scheduler frees objects twice exactly when there is something left to
  schedule: if a process is ready or has a CPU it is destroyed with the list of all processes and
  again with its queue or with the list of those in execution; otherwise every client, mutex and
  process is freed once.\<close>
theorem shutdown_frees_twice:
  assumes "ks_inv s" and "distinct (list_mutexes s)" and "distinct (list_processes s)" and "0 < shutdown_sem"
  shows "shutdown_handler shutdown_sem s =
    (if \<exists>p \<in> set (list_processes s). proc_state (procs s p) = READY \<or> proc_cpu (procs s p) \<noteq> None
     then Undef
     else Ret \<lparr>freed_clients = all_clients s, freed_mutexes = list_mutexes s, freed_processes = list_processes s\<rparr>)"
proof -
  note listed = pool_listed [OF ks_invD(1) [OF assms(1)]]
  have "concat (ready_queue s) = [] \<longleftrightarrow> set (concat (ready_queue s)) = {}" "exec_processes s = [] \<longleftrightarrow> set (exec_processes s) = {}"
    by simp_all
  then have "concat (ready_queue s) = [] \<and> exec_processes s = [] \<longleftrightarrow>
      \<not> (\<exists>p \<in> set (list_processes s). proc_state (procs s p) = READY \<or> proc_cpu (procs s p) \<noteq> None)"
    unfolding listed by blast
  moreover have "set (concat (ready_queue s)) \<union> set (exec_processes s) \<subseteq> set (list_processes s)"
    unfolding listed by blast
  moreover have "distinct (all_clients s)" using assms(1) by (simp add: ks_inv_def)
  ultimately show ?thesis by (simp add: shutdown_when_listed_once [OF assms(4) _ assms(2,3)] del: set_concat concat_eq_Nil_conv)
qed


theorem shutdown_frees_twice_witness:
  "\<exists>s. list_processes s = [1] \<and> proc_state (procs s 1) = READY \<and> shutdown_handler 1 s = Undef"
proof -
  let ?b = "long_term_scheduler ''init'' 1 (ks_cpu_connected 4 0 first_state)"
  let ?c = "wait_process_create_confirmation 0 ?b"
  have "ks_setup ''CMN'' [''FIFO'', ''RR'', ''RR''] ''TRUE'' 100 1000 = Some first_state"
    using setup_CMN by (auto simp: first_state_def)
  then have "ks_inv first_state" by (rule ks_setup_inv) simp
  then have "ks_inv ?b" by (intro ks_step_keeps [OF creates] ks_step_keeps [OF cpu_connects])
  moreover have "ks_kernel_memory_handler sort_by 0 PROCESS_CREATE (field (u32_bytes 0)) ?b = Ret ?c"
    by (simp add: ks_kernel_memory_handler_def)
  then have "ks_step (=) sort_by ?b ?c"
    using created_state by (intro memory_message) (auto simp: memory_protocol_def Let_def create_process_def)
  ultimately have inv: "ks_inv ?c" by (auto intro: ks_step_keeps)
  have c: "list_processes ?c = [1]" "proc_state (procs ?c 1) = READY"
    using created_state
    by (simp_all add: wait_process_create_confirmation_def Let_def wake_scheduler_def add_process_to_ready_queue_def
        on_queue_def process_set_state_def upd_proc_def)
  have m: "list_mutexes ?c = []"
    by (simp add: first_state_def ks_setup_def Let_def scheduler_algorithm_from_string_def ks_cpu_connected_def
        long_term_defs store_defs send_process_create_info_def wait_process_create_confirmation_def
        add_process_to_ready_queue_def on_queue_def process_set_state_def split: option.split)
  show ?thesis using shutdown_frees_twice [OF inv, of 1] c m by auto
qed

end
