(* ===== verification/KS_Races.thy ===== *)
theory KS_Races
  imports KS_Faults
begin

text \<open>
  A handler of Kernel Scheduler that lets go of its mutex in between: \<open>wait_confirmation_swap_out\<close>
  and \<open>wait_confirmation_swap_in\<close> set the state of a process under \<open>scheduler_mutex\<close>, and enter
  it in \<open>block_processes\<close> afterwards, under \<open>block_processes_mutex\<close>. \<open>KS_Runs\<close> has each of them as
  one step; here they are two, with the end of an I/O operation in between.
\<close>

text \<open>The two sections of a refused \<open>SWAP_OUT\<close> of a blocked process; the second is \<open>block_add\<close>.\<close>

definition swap_out_refused :: "u64 \<Rightarrow> process \<Rightarrow> ks_state \<Rightarrow> ks_state" where
  "swap_out_refused now p s = set_block_time now p (process_set_state BLOCK p s)"

lemma swap_out_refused_steps:
  assumes "get_process_from_pid s pid = Some p" and "proc_state (procs s p) = SUSP_BLOCK"
  shows "wait_confirmation_swap_out now pid False s = block_add p (swap_out_refused now p s)"
  using assms by (simp add: wait_confirmation_swap_out_def swap_out_refused_def)

lemma find_same_pids:
  assumes "list_processes t = list_processes s" and "\<And>p. proc_pid (procs t p) = proc_pid (procs s p)"
  shows "get_process_from_pid t pid = get_process_from_pid s pid"
  by (simp add: get_process_from_pid_def assms)

lemma refused_found:
  "get_process_from_pid (swap_out_refused now p s) pid = get_process_from_pid s pid"
  "procs (swap_out_refused now p s) p = (procs s p)\<lparr>proc_state := BLOCK, start_block_time := now\<rparr>"
  by (rule find_same_pids)
    (auto simp: swap_out_refused_def set_block_time_def process_set_state_def upd_proc_def)

text \<open>In between, the operation of the process ends: it becomes ready, and is taken out of a list it is
  not in yet.\<close>

lemma finished_in_between:
  assumes "get_process_from_pid s pid = Some p"
  shows "proc_state (procs (io_finish_process pid io (swap_out_refused now p s)) p) = READY"
    and "list_processes (io_finish_process pid io (swap_out_refused now p s)) = list_processes s"
  using assms refused_found [of now p s]
  by (simp_all add: io_finish_process_def unblock_process_def Let_def process_set_ready_def process_setters)
    (simp add: swap_out_refused_def set_block_time_def process_setters)

text \<open>The end of an I/O operation and a refused suspension race: handled one after the other, in
  either order, they keep the lists as the invariant of the scheduler has them; but when the operation
  ends between the two critical sections of the refusal, the process is \<open>READY\<close> and stays in the
  list of blocked processes.\<close>
theorem refused_suspension_races:
  assumes "ks_inv s" and "get_process_from_pid s pid = Some p" and "proc_state (procs s p) = SUSP_BLOCK"
    and "blocked_for_io s p" and "io \<notin> set (list_cpu s)"
  shows "wait_confirmation_swap_out now pid False s = block_add p (swap_out_refused now p s) \<and>
    sched_inv (io_finish_process pid io (wait_confirmation_swap_out now pid False s)) \<and>
    sched_inv (wait_confirmation_swap_out now pid False (io_finish_process pid io s)) \<and>
    (let t = block_add p (io_finish_process pid io (swap_out_refused now p s))
     in proc_state (procs t p) = READY \<and> p \<in> set (block_processes t) \<and> \<not> sched_inv t)"
proof -
  note inv = ks_invD [OF assms(1)]
  let ?w = "wait_confirmation_swap_out now pid False s"
  let ?t = "block_add p (io_finish_process pid io (swap_out_refused now p s))"
  note steps = swap_out_refused_steps [OF assms(2,3), of now]
  have w: "sched_inv ?w" "mutexes_ok ?w"
    using wait_confirmation_swap_out_keeps [OF inv(1)] keeps_locks_mutexes [OF inv(2) keep_swap_out [OF inv(2)]] by simp_all
  have found: "get_process_from_pid ?w pid = Some p"
    using refused_found(1) [of now p s pid] assms(2) by (simp add: steps block_add_def get_process_from_pid_def)
  have "blocked_for_io ?w p" "list_cpu ?w = list_cpu s"
    using assms(4) refused_found(2) [of now p s]
    by (simp_all add: steps blocked_for_io_def awaits_mutex_def waits_for_def block_add_def)
      (simp_all add: swap_out_refused_def process_setters upd_proc_def)
  then have one: "sched_inv (io_finish_process pid io ?w)"
    using io_finish_process_keeps(1) [OF w, of io pid] found assms(5) by simp
  have "sched_inv (io_finish_process pid io s)"
    using io_finish_process_keeps(1) [OF inv(1,2) assms(5), of pid] assms(2,4) by simp
  then have other: "sched_inv (wait_confirmation_swap_out now pid False (io_finish_process pid io s))"
    by (rule wait_confirmation_swap_out_keeps)
  have t: "proc_state (procs ?t p) = READY" "p \<in> set (block_processes ?t)"
    using finished_in_between(1) [OF assms(2), of io now] by (simp_all add: block_add_def)
  then have "\<not> sched_inv ?t" by (auto simp: sched_inv_def pool_ok_def lists_ok_def)
  then show ?thesis using steps one other t by (simp add: Let_def)
qed

text \<open>One process, suspended while it sleeps.\<close>

definition sleeping_suspended :: ks_state where
  "sleeping_suspended = first_state\<lparr>list_processes := [1], procs := (\<lambda>_. (create_process 0 0)\<lparr>proc_state := SUSP_BLOCK\<rparr>)\<rparr>"

lemma sleeping_suspended_inv: "ks_inv sleeping_suspended" "\<not> awaits_mutex sleeping_suspended 1"
proof -
  have f: "scheduler_algorithm first_state = CMN" "queue_algorithms_count first_state = 3" "ready_queue first_state = [[], [], []]"
    "exec_processes first_state = []" "block_processes first_state = []" "list_cpu first_state = []"
    "list_mutexes first_state = []" "list_io_sleep first_state = []" "list_io_stdin first_state = []" "list_io_stdout first_state = []"
    by (simp_all add: first_state_def ks_setup_def Let_def scheduler_algorithm_from_string_def numeral_3_eq_3)
  have "xs ! i = []" if "i < 3" "xs = [[], [], []]" for xs :: "process list list" and i
    using that by (simp add: nth_Cons' numeral_3_eq_3)
  then show "ks_inv sleeping_suspended" "\<not> awaits_mutex sleeping_suspended 1"
    by (auto simp: ks_inv_def sched_inv_def pool_defs mutexes_ok_def waits_for_def awaits_mutex_def all_clients_def
        sleeping_suspended_def create_process_def f)
qed

theorem refused_suspension_races_witness:
  "\<exists>t. proc_state (procs t 1) = READY \<and> 1 \<in> set (block_processes t) \<and> \<not> sched_inv t \<and>
     t = block_add 1 (io_finish_process 0 5 (swap_out_refused 9 1 sleeping_suspended))"
proof -
  have s: "get_process_from_pid sleeping_suspended 0 = Some 1" "proc_state (procs sleeping_suspended 1) = SUSP_BLOCK"
    by (simp_all add: get_process_from_pid_def sleeping_suspended_def create_process_def)
  have "list_cpu sleeping_suspended = []" "list_processes sleeping_suspended = [1]"
    by (simp_all add: sleeping_suspended_def first_state_def ks_setup_def Let_def scheduler_algorithm_from_string_def)
  moreover from this have "blocked_for_io sleeping_suspended 1"
    using sleeping_suspended_inv(2) s(2) by (simp add: blocked_for_io_def)
  ultimately show ?thesis
    using refused_suspension_races [OF sleeping_suspended_inv(1) s, of 5 9] by (simp add: Let_def)
qed

end
