(* ===== verification/IO_Races.thy ===== *)
theory IO_Races
  imports KS_Faults
begin

text \<open>
  The devices of Kernel Scheduler under interleaving. A system call looks for a free device and
  queues its request if there is none, in one section under \<open>io_mutex\<close>; the thread of a device
  marks it free in one section, and takes the next request in a later one. The steps here are those
  sections; everything else the scheduler does is a step that leaves the devices alone.
\<close>

section \<open>The sections\<close>

datatype io_request =
    Sleep_request t_io_numeric_process | Stdin_request t_io_numeric_process | Stdout_request t_io_string_process

fun io_requested :: "io_request \<Rightarrow> ks_state \<Rightarrow> ks_state" where
  "io_requested (Sleep_request r) s =
     (case get_available_io_type s (list_io_sleep s) of
        Some io \<Rightarrow> ks_send (Client io) (io_numeric_process_send r SLEEP) (set_available False io s)
      | None \<Rightarrow> s\<lparr>pending_request_io_sleep := pending_request_io_sleep s @ [r]\<rparr>)"
| "io_requested (Stdin_request r) s =
     (case get_available_io_type s (list_io_stdin s) of
        Some io \<Rightarrow> ks_send (Client io) (io_numeric_process_send r STDIN) (set_available False io s)
      | None \<Rightarrow> s\<lparr>pending_request_io_stdin := pending_request_io_stdin s @ [r]\<rparr>)"
| "io_requested (Stdout_request r) s =
     (case get_available_io_type s (list_io_stdout s) of
        Some io \<Rightarrow> ks_send (Client io) (io_string_process_send r STDOUT) (set_available False io s)
      | None \<Rightarrow> s\<lparr>pending_request_io_stdout := pending_request_io_stdout s @ [r]\<rparr>)"

lemma calls_request:
  "sleep_syscall_manager now p cpu t s = wake_scheduler (io_requested
     (Sleep_request (t_io_numeric_process_create (proc_pid (procs s p)) t IO_TYPE_SLEEP)) (set_available True cpu (block_process now p s)))"
  "value \<noteq> [] \<Longrightarrow> stdout_wait_memory_read pid value s = Ret (wake_scheduler (io_requested
     (Stdout_request (t_io_string_process_create pid value IO_TYPE_STDOUT)) s))"
  by (simp_all add: sleep_syscall_manager_def stdout_wait_memory_read_def Let_def)

text \<open>A device that connects: listed first, then it asks for work like one that has finished.\<close>

definition io_listed :: "fd \<Rightarrow> t_io_type \<Rightarrow> ks_state \<Rightarrow> client \<times> ks_state" where
  "io_listed io_fd io_type s =
     (case id_assigner (next_io_id s) of
        (i, next, pkg) \<Rightarrow>
          let io = fresh (all_clients s);
              s1 = ks_send (Client io) pkg (s\<lparr>next_io_id := next, clients := (clients s)(io := create_client_info io_fd i)\<rparr>)
          in (io, case io_type of
                IO_TYPE_STDIN \<Rightarrow> s1\<lparr>list_io_stdin := list_io_stdin s1 @ [io]\<rparr>
              | IO_TYPE_STDOUT \<Rightarrow> s1\<lparr>list_io_stdout := list_io_stdout s1 @ [io]\<rparr>
              | IO_TYPE_SLEEP \<Rightarrow> s1\<lparr>list_io_sleep := list_io_sleep s1 @ [io]\<rparr>))"

lemma io_connected_steps:
  "io_connected io_fd ty s = (case io_listed io_fd ty s of (io, t) \<Rightarrow> (io, handle_next_operation io ty t))"
  by (simp add: io_connected_def io_listed_def Let_def split: prod.split)

section \<open>The threads\<close>

fun devices :: "t_io_type \<Rightarrow> ks_state \<Rightarrow> client list" where
  "devices IO_TYPE_SLEEP s = list_io_sleep s"
| "devices IO_TYPE_STDIN s = list_io_stdin s"
| "devices IO_TYPE_STDOUT s = list_io_stdout s"

fun requests_wait :: "t_io_type \<Rightarrow> ks_state \<Rightarrow> bool" where
  "requests_wait IO_TYPE_SLEEP s \<longleftrightarrow> pending_request_io_sleep s \<noteq> []"
| "requests_wait IO_TYPE_STDIN s \<longleftrightarrow> pending_request_io_stdin s \<noteq> []"
| "requests_wait IO_TYPE_STDOUT s \<longleftrightarrow> pending_request_io_stdout s \<noteq> []"

text \<open>The second component: the threads of devices between their two sections.\<close>

inductive io_step :: "ks_state \<times> client set \<Rightarrow> ks_state \<times> client set \<Rightarrow> bool" where
  requests: "io_step (s, b) (io_requested r s, b)"
| finishes: "io \<in> set (devices ty s) \<Longrightarrow> io_step (s, b) (io_finish_process pid io s, insert io b)"
| answers: "io \<in> set (list_io_stdin s) \<Longrightarrow> io_step (s, b) (set_available True io s, insert io b)"
| takes: "io \<in> b \<Longrightarrow> io \<in> set (devices ty s) \<Longrightarrow> io_step (s, b) (handle_next_operation io ty s, b - {io})"
| connects: "io_listed io_fd ty s = (io, t) \<Longrightarrow> io_step (s, b) (t, insert io b)"
| leaves: "io \<notin> b \<Longrightarrow> io_step (s, b) (io_disconnected io ty s, b)"
| elsewhere: "(\<And>ty. devices ty t = devices ty s) \<Longrightarrow> (\<And>ty. requests_wait ty t = requests_wait ty s) \<Longrightarrow>
    (\<And>ty io. io \<in> set (devices ty s) \<Longrightarrow> is_available (clients t io) = is_available (clients s io)) \<Longrightarrow>
    io_step (s, b) (t, b)"

definition devices_ok :: "ks_state \<times> client set \<Rightarrow> bool" where
  "devices_ok = (\<lambda>(s, b).
     (\<forall>ty io. requests_wait ty s \<longrightarrow> io \<in> set (devices ty s) \<longrightarrow> is_available (clients s io) \<longrightarrow> io \<in> b) \<and>
     (\<forall>ty ty' io. io \<in> set (devices ty s) \<longrightarrow> io \<in> set (devices ty' s) \<longrightarrow> ty = ty'))"

section \<open>What the sections do\<close>

lemma devices_frame [simp]:
  "devices ty (upd_client c f s) = devices ty s" "devices ty (ks_send t pkg s) = devices ty s"
  "devices ty (upd_proc p g s) = devices ty s" "devices ty (wake_scheduler s) = devices ty s"
  "devices ty (io_requested r s) = devices ty s" "devices ty (handle_next_operation io ty' s) = devices ty s"
  "devices ty (io_finish_process pid io s) = devices ty s"
proof -
  show frame: "devices ty (upd_client c f s) = devices ty s" "devices ty (ks_send t pkg s) = devices ty s"
    "devices ty (upd_proc p g s) = devices ty s" "devices ty (wake_scheduler s) = devices ty s" for c f s t pkg p g
    by (cases ty; simp add: upd_client_def ks_send_def upd_proc_def wake_scheduler_def)+
  show "devices ty (io_requested r s) = devices ty s"
    by (cases r; cases ty; simp add: ks_send_def upd_client_def split: option.split)
  show "devices ty (handle_next_operation io ty' s) = devices ty s"
    by (cases ty; simp add: handle_next_operation_def ks_send_def upd_client_def split: t_io_type.split list.split)
  have "devices ty (unblock_process p s) = devices ty s" for p
    by (cases ty; simp add: unblock_process_def Let_def process_setters upd_proc_def block_remove_def
        add_process_to_ready_queue_def on_queue_def)
  then show "devices ty (io_finish_process pid io s) = devices ty s"
    by (simp add: io_finish_process_def frame split: option.split)
qed

lemma waiting_frame [simp]:
  "requests_wait ty (upd_client c f s) = requests_wait ty s" "requests_wait ty (io_finish_process pid io s) = requests_wait ty s"
proof -
  show frame: "requests_wait ty (upd_client c f s) = requests_wait ty s" for c f s
    by (cases ty; simp add: upd_client_def)
  have "requests_wait ty (unblock_process p s) = requests_wait ty s" "requests_wait ty (wake_scheduler s) = requests_wait ty s" for p s
    by (cases ty; simp add: unblock_process_def Let_def process_setters upd_proc_def block_remove_def
        add_process_to_ready_queue_def on_queue_def wake_scheduler_def)+
  then show "requests_wait ty (io_finish_process pid io s) = requests_wait ty s"
    by (simp add: io_finish_process_def frame split: option.split)
qed

text \<open>A request that has to wait found every device of its type busy.\<close>

lemma no_device: "get_available_io_type s ios = None \<Longrightarrow> io \<in> set ios \<Longrightarrow> \<not> is_available (clients s io)"
  by (simp add: get_available_io_type_def find_None_iff_set)

lemma requested_waits:
  assumes "requests_wait ty (io_requested r s)"
  shows "requests_wait ty s \<or> (\<forall>io \<in> set (devices ty s). \<not> is_available (clients s io))"
  using assms by (cases r; cases ty)
    (auto simp: ks_send_def upd_client_def split: option.splits dest: no_device)

lemma requested_frees_none: "is_available (clients (io_requested r s) io) \<Longrightarrow> is_available (clients s io)"
  by (cases r) (auto split: option.splits if_splits)

lemma finish_available:
  "is_available (clients (io_finish_process pid io s) io') \<Longrightarrow> is_available (clients s io') \<or> io' = io"
proof -
  have "clients (unblock_process p s) = clients s" for p
    by (simp add: unblock_process_def Let_def process_setters block_remove_def add_process_to_ready_queue_def on_queue_def)
  then show "is_available (clients (io_finish_process pid io s) io') \<Longrightarrow> ?thesis"
    by (auto simp: io_finish_process_def wake_scheduler_def split: option.splits if_splits)
qed

lemma next_waits: "requests_wait ty' (handle_next_operation io ty s) \<Longrightarrow> requests_wait ty' s"
  by (cases ty; cases ty') (auto simp: handle_next_operation_def ks_send_def upd_client_def split: list.splits)

lemma next_available:
  assumes "is_available (clients (handle_next_operation io ty s) io')"
  shows "is_available (clients s io')" and "io' = io \<Longrightarrow> \<not> requests_wait ty s"
  using assms by (cases ty; auto simp: handle_next_operation_def split: list.splits if_splits)+

lemma listed:
  assumes "io_listed io_fd ty s = (io, t)"
  shows "devices ty' t = devices ty' s @ (if ty' = ty then [io] else [])" and "requests_wait ty' t = requests_wait ty' s"
    and "io' \<noteq> io \<Longrightarrow> clients t io' = clients s io'" and "io \<notin> set (devices ty' s)"
proof -
  have f: "fresh xs \<notin> set xs" for xs by (rule fresh_not_in)
  show "io \<notin> set (devices ty' s)"
    using assms f [of "all_clients s"] by (cases ty') (auto simp: io_listed_def Let_def all_clients_def split: prod.splits)
  show "devices ty' t = devices ty' s @ (if ty' = ty then [io] else [])" "requests_wait ty' t = requests_wait ty' s"
    using assms by (cases ty; cases ty'; auto simp: io_listed_def Let_def ks_send_def split: prod.splits)+
  show "io' \<noteq> io \<Longrightarrow> clients t io' = clients s io'"
    using assms by (cases ty) (auto simp: io_listed_def Let_def ks_send_def split: prod.splits)
qed

lemma gone:
  "set (devices ty' (io_disconnected io ty s)) \<subseteq> set (devices ty' s)"
  "requests_wait ty' (io_disconnected io ty s) = requests_wait ty' s" "clients (io_disconnected io ty s) = clients s"
  by (cases ty; cases ty'; auto simp: io_disconnected_def dest: notin_set_remove1 set_remove1_subset [THEN subsetD])+

section \<open>No device is idle while a request waits\<close>

lemma devices_okI:
  assumes "\<And>ty io. requests_wait ty s \<Longrightarrow> io \<in> set (devices ty s) \<Longrightarrow> is_available (clients s io) \<Longrightarrow> io \<in> b"
    and "\<And>ty ty' io. io \<in> set (devices ty s) \<Longrightarrow> io \<in> set (devices ty' s) \<Longrightarrow> ty = ty'"
  shows "devices_ok (s, b)"
  using assms by (auto simp: devices_ok_def)

lemma devices_okD:
  assumes "devices_ok (s, b)"
  shows "requests_wait ty s \<Longrightarrow> io \<in> set (devices ty s) \<Longrightarrow> is_available (clients s io) \<Longrightarrow> io \<in> b"
    and "io \<in> set (devices ty s) \<Longrightarrow> io \<in> set (devices ty' s) \<Longrightarrow> ty = ty'"
  using assms by (auto simp: devices_ok_def)

lemma io_step_keeps: "io_step x y \<Longrightarrow> devices_ok x \<Longrightarrow> devices_ok y"
proof (induction rule: io_step.induct)
  case (requests s b r)
  note ok = devices_okD [OF requests.prems]
  show ?case
    using requested_waits [of _ r s] requested_frees_none [of r s] ok
    by (intro devices_okI) (fastforce, simp add: ok(2))
next
  case (finishes io ty s b pid)
  note ok = devices_okD [OF finishes.prems]
  show ?case using finish_available [of pid io s] ok(1) by (intro devices_okI) (fastforce, simp add: ok(2))
next
  case (answers io s b)
  note ok = devices_okD [OF answers.prems]
  show ?case using ok(1) by (intro devices_okI) (auto split: if_splits dest: ok(2))
next
  case (takes io b ty s)
  note ok = devices_okD [OF takes.prems]
  show ?case
  proof (intro devices_okI)
    fix ty' io'
    assume a: "requests_wait ty' (handle_next_operation io ty s)" "io' \<in> set (devices ty' (handle_next_operation io ty s))"
      "is_available (clients (handle_next_operation io ty s) io')"
    have "io' \<in> set (devices ty' s)" using a(2) by simp
    then have "io' \<in> b" by (rule ok(1) [OF next_waits [OF a(1)] _ next_available(1) [OF a(3)]])
    moreover have "io' \<noteq> io"
    proof
      assume "io' = io"
      then have "\<not> requests_wait ty s" "ty' = ty"
        using next_available(2) [OF a(3)] ok(2) takes.hyps(2) a(2) by auto
      then show False using next_waits [OF a(1)] by simp
    qed
    ultimately show "io' \<in> b - {io}" by simp
  qed (simp add: ok(2))
next
  case (connects io_fd ty s io t b)
  note ok = devices_okD [OF connects.prems] and l = listed [OF connects.hyps]
  show ?case
  proof (intro devices_okI)
    fix ty' io'
    assume "requests_wait ty' t" "io' \<in> set (devices ty' t)" "is_available (clients t io')"
    then show "io' \<in> insert io b" using l ok(1) [of ty' io'] by (cases "io' = io") (auto split: if_splits)
  next
    fix ty' ty'' io'
    assume "io' \<in> set (devices ty' t)" "io' \<in> set (devices ty'' t)"
    then show "ty' = ty''" using l(1,4) ok(2) by (auto split: if_splits)
  qed
next
  case (leaves io b s ty)
  note ok = devices_okD [OF leaves.prems]
  show ?case by (intro devices_okI) (auto simp: gone(2,3) intro: ok(1) dest!: gone(1) [THEN subsetD] dest: ok(2))
next
  case (elsewhere t s b)
  note ok = devices_okD [OF elsewhere.prems]
  show ?case using ok elsewhere.hyps by (intro devices_okI) auto
qed

lemma io_run_keeps: "io_step\<^sup>*\<^sup>* x y \<Longrightarrow> devices_ok x \<Longrightarrow> devices_ok y"
  by (induction rule: rtranclp_induct) (auto intro: io_step_keeps)

text \<open>C31: no request waits for an idle device: from a start without devices, however the system calls
  and the threads of the devices interleave between their critical sections, when no thread is between
  marking its device free and looking for work, then a request is queued only while every device of
  its type is busy.\<close>
theorem no_request_waits_for_idle_device:
  assumes "ks_setup alg queues pre q time = Some s\<^sub>0" and "io_step\<^sup>*\<^sup>* (s\<^sub>0, {}) (s, {})"
    and "requests_wait ty s" and "io \<in> set (devices ty s)"
  shows "\<not> is_available (clients s io)"
proof -
  have "devices ty' s\<^sub>0 = []" for ty' using assms(1) by (cases ty') (auto simp: ks_setup_def Let_def split: if_splits)
  then have "devices_ok (s\<^sub>0, {})" by (intro devices_okI) simp_all
  then show ?thesis using devices_okD(1) [OF io_run_keeps [OF assms(2)] assms(3,4)] by blast
qed

text \<open>Two requests and one device; the device is listed, the requests come, and it takes one: it is
  busy when the second has to wait.\<close>

theorem no_request_waits_for_idle_device_witness:
  "\<exists>s io. requests_wait IO_TYPE_SLEEP s \<and> io \<in> set (devices IO_TYPE_SLEEP s) \<and> \<not> is_available (clients s io)"
proof -
  let ?r = "Sleep_request (t_io_numeric_process_create 1 50 IO_TYPE_SLEEP)"
  let ?r' = "Sleep_request (t_io_numeric_process_create 2 70 IO_TYPE_SLEEP)"
  have start: "ks_setup ''CMN'' [''FIFO'', ''RR'', ''RR''] ''TRUE'' 100 1000 = Some first_state"
    using setup_CMN by (auto simp: first_state_def)
  have empty: "list_cpu first_state = []" "list_io_sleep first_state = []" "list_io_stdin first_state = []"
    "list_io_stdout first_state = []" "pending_request_io_sleep first_state = []"
    by (simp_all add: first_state_def ks_setup_def Let_def scheduler_algorithm_from_string_def)
  let ?a = "io_requested ?r' (io_requested ?r first_state)"
  obtain t where l: "io_listed 7 IO_TYPE_SLEEP ?a = (1, t)"
    using empty by (simp add: io_listed_def get_available_io_type_def all_clients_def fresh_def Let_def id_assigner_def)
  let ?t = "handle_next_operation 1 IO_TYPE_SLEEP t"
  have dev: "1 \<in> set (devices IO_TYPE_SLEEP t)" using listed(1) [OF l, of IO_TYPE_SLEEP] by simp
  have 1: "io_step\<^sup>*\<^sup>* (first_state, {}) (?a, {})"
    by (rule rtranclp.rtrancl_into_rtrancl [OF r_into_rtranclp [of io_step] requests]) (rule requests)
  have 2: "io_step (?a, {}) (t, {1})" using connects [OF l, of "{}"] by simp
  have 3: "io_step (t, {1}) (?t, {})" using takes [of 1 "{1}" IO_TYPE_SLEEP t] dev by simp
  have run: "io_step\<^sup>*\<^sup>* (first_state, {}) (?t, {})"
    by (rule rtranclp.rtrancl_into_rtrancl [OF rtranclp.rtrancl_into_rtrancl [OF 1 2] 3])
  have "requests_wait IO_TYPE_SLEEP ?t"
    using l empty by (auto simp: io_listed_def handle_next_operation_def get_available_io_type_def Let_def id_assigner_def
        ks_send_def upd_client_def)
  moreover have "1 \<in> set (devices IO_TYPE_SLEEP ?t)" using dev by (simp del: devices.simps)
  ultimately show ?thesis using no_request_waits_for_idle_device [OF start run] by blast
qed

end
