(* ===== verification/CPU_Program.thy ===== *)
theory CPU_Program
  imports CPU_Cycle
begin

text \<open>
  The instruction cycle against a reference: \<open>advance\<close> is the plain sequential interpreter, one
  instruction after the other, that knows nothing of threads, fetches or evictions. Whatever
  messages arrive and however the threads of the CPU interleave, what the cycle does to the
  context, to the memory and to the outside world are the first steps of the interpreter.
\<close>

section \<open>What an instruction does not depend on\<close>

text \<open>The same CPU with more messages sent before, and another interrupt.\<close>

definition ext :: "(peer \<times> t_package) list \<Rightarrow> bool \<Rightarrow> t_interrupt_reason \<Rightarrow> cpu_state \<Rightarrow> cpu_state" where
  "ext l b r s = s\<lparr>interrupt_pending := b, interrupt_reason := r, sent := l @ sent s\<rparr>"

definition ext_exec :: "(peer \<times> t_package) list \<Rightarrow> bool \<Rightarrow> t_interrupt_reason \<Rightarrow> exec \<Rightarrow> exec" where
  "ext_exec l b r = (\<lambda>(c, jumped, s). (c, jumped, ext l b r s))"

lemma ext_simps [simp]:
  "should_exit (ext l b r s) = should_exit s" "should_stop (ext l b r s) = should_stop s"
  "cpu_memory (ext l b r s) = cpu_memory s" "cpu_segment_max_size (ext l b r s) = cpu_segment_max_size s"
  "send_to p pkg (ext l b r s) = ext l b r (send_to p pkg s)"
  "(ext l b r s)\<lparr>cpu_memory := m\<rparr> = ext l b r (s\<lparr>cpu_memory := m\<rparr>)"
  "(ext l b r s)\<lparr>should_exit := e\<rparr> = ext l b r (s\<lparr>should_exit := e\<rparr>)"
  "(ext l b r s)\<lparr>stop_reason := sr, should_stop := e\<rparr> = ext l b r (s\<lparr>stop_reason := sr, should_stop := e\<rparr>)"
  by (simp_all add: ext_def send_to_def)

lemma ext_exec_simp [simp]: "ext_exec l b r (c, jumped, s) = (c, jumped, ext l b r s)"
  by (simp add: ext_exec_def)

lemma map_run_and_then: "map_run f (and_then x g) = and_then x (\<lambda>y. map_run f (g y))"
  by (cases x) simp_all

lemma and_then_map_run: "and_then (map_run f x) g = and_then x (\<lambda>y. g (f y))"
  by (cases x) simp_all

lemma mmu_translate_ext:
  "mmu_translate a sz tbl pid (ext l b r s) = map_run (apsnd (ext l b r)) (mmu_translate a sz tbl pid s)"
  by (auto simp: mmu_translate_def segmentation_fault_def Let_def split: option.split)

lemmas ext_push = map_run_and_then and_then_map_run mmu_translate_ext if_distrib [of "map_run f" for f]
  option.case_distrib [of "map_run f" for f] prod.case_distrib [of "map_run f" for f]

lemma instruction_set_ext:
  "instruction_set decoded (ext_exec l b r e) = map_run (ext_exec l b r) (instruction_set decoded e)"
  "instruction_sum decoded (ext_exec l b r e) = map_run (ext_exec l b r) (instruction_sum decoded e)"
  "instruction_sub decoded (ext_exec l b r e) = map_run (ext_exec l b r) (instruction_sub decoded e)"
  "instruction_jnz decoded (ext_exec l b r e) = map_run (ext_exec l b r) (instruction_jnz decoded e)"
  by (cases e; simp add: instruction_defs ext_push cong: if_cong)+

lemma system_call_ext:
  "system_call reason pkg pid c (ext l b r s) = map_run (ext_exec l b r) (system_call reason pkg pid c s)"
  by (simp add: system_call_def stop_for_def Let_def)

lemma instruction_call_ext:
  "instruction_mutex_create decoded pid (ext_exec l b r e) = map_run (ext_exec l b r) (instruction_mutex_create decoded pid e)"
  "instruction_mutex_lock decoded pid (ext_exec l b r e) = map_run (ext_exec l b r) (instruction_mutex_lock decoded pid e)"
  "instruction_mutex_unlock decoded pid (ext_exec l b r e) = map_run (ext_exec l b r) (instruction_mutex_unlock decoded pid e)"
  "instruction_mem_alloc decoded pid (ext_exec l b r e) = map_run (ext_exec l b r) (instruction_mem_alloc decoded pid e)"
  "instruction_mem_free decoded pid (ext_exec l b r e) = map_run (ext_exec l b r) (instruction_mem_free decoded pid e)"
  "instruction_sleep decoded pid (ext_exec l b r e) = map_run (ext_exec l b r) (instruction_sleep decoded pid e)"
  "instruction_init_proc decoded pid (ext_exec l b r e) = map_run (ext_exec l b r) (instruction_init_proc decoded pid e)"
  "instruction_exit pid (ext_exec l b r e) = map_run (ext_exec l b r) (instruction_exit pid e)"
  by (cases e; simp add: instruction_defs ext_push system_call_ext)+

lemma instruction_std_ext:
  "instruction_std op decoded pid tbl (ext_exec l b r e) = map_run (ext_exec l b r) (instruction_std op decoded pid tbl e)"
  by (cases e) (simp add: instruction_std_def ext_push system_call_ext Let_def split_def cong: if_cong)

lemma instruction_memory_ext:
  "instruction_mov_in decoded pid tbl (ext_exec l b r e) = map_run (ext_exec l b r) (instruction_mov_in decoded pid tbl e)"
  "instruction_mov_out decoded pid tbl (ext_exec l b r e) = map_run (ext_exec l b r) (instruction_mov_out decoded pid tbl e)"
  "instruction_copy_mem decoded pid tbl (ext_exec l b r e) = map_run (ext_exec l b r) (instruction_copy_mem decoded pid tbl e)"
  by (cases e; simp add: instruction_defs ext_push Let_def split_def cong: if_cong option.case_cong)+

lemma execute_instruction_ext:
  "execute_instruction decoded pid tbl (ext_exec l b r e) =
   map_run (ext_exec l b r) (execute_instruction decoded pid tbl e)"
  unfolding execute_instruction_def instruction_stdout_def instruction_stdin_def
  by (cases "operand 0 decoded")
    (simp_all add: instruction_set_ext instruction_call_ext instruction_std_ext instruction_memory_ext
      split: t_instruction_type.split)

section \<open>The reference interpreter\<close>

text \<open>\<open>program\<close> gives the decoded instruction at each program counter. A process that has called
  the system, ended or faulted goes no further.\<close>

definition advance ::
  "(u32 \<Rightarrow> string list) \<Rightarrow> u32 \<Rightarrow> t_segment list \<Rightarrow> t_cpu_context \<times> cpu_state \<Rightarrow>
   (t_cpu_context \<times> cpu_state) option" where
  "advance program pid tbl = (\<lambda>(c, s).
     if should_exit s \<or> should_stop s then None
     else case execute_instruction (program (pc c)) pid tbl (c, False, s) of
            Ret (c', jumped, s') \<Rightarrow> Some (if jumped then c' else c'\<lparr>pc := pc c' + 1\<rparr>, s')
          | _ \<Rightarrow> None)"

fun advance_n ::
  "(u32 \<Rightarrow> string list) \<Rightarrow> u32 \<Rightarrow> t_segment list \<Rightarrow> nat \<Rightarrow> t_cpu_context \<times> cpu_state \<Rightarrow>
   (t_cpu_context \<times> cpu_state) option" where
  "advance_n program pid tbl 0 e = Some e"
| "advance_n program pid tbl (Suc n) e = Option.bind (advance_n program pid tbl n e) (advance program pid tbl)"

text \<open>A run of the CPU while it has a process of that program: the fetches are answered with the
  instructions of the program, everything else is free. The number counts the answers.\<close>

inductive program_run :: "(u32 \<Rightarrow> string list) \<Rightarrow> cpu_cycle \<Rightarrow> nat \<Rightarrow> cpu_cycle \<Rightarrow> bool" for program s where
  begins: "program_run program s 0 s"
| answered: "program_run program s n s' \<Longrightarrow>
    cpu_step (Instruction (Some (program (pc (exec_context s'))))) s' = Some s'' \<Longrightarrow>
    program_run program s (Suc n) s''"
| other: "program_run program s n s' \<Longrightarrow> ev \<in> {Executor, Handler, Recv_execute pid, Recv_evict reason} \<Longrightarrow>
    cpu_step ev s' = Some s'' \<Longrightarrow> program_run program s n s''"

text \<open>What Kernel Scheduler is told by the process, not by the CPU.\<close>

definition calls :: "(peer \<times> t_package) list \<Rightarrow> t_package list" where
  "calls l = map snd (filter (\<lambda>(p, pkg). p = To_scheduler \<and> pkg_op pkg \<notin> {PROCESS_INTERRUPTED, CONFIRMATION}) l)"

lemma calls_append [simp]: "calls (xs @ ys) = calls xs @ calls ys"
  by (simp add: calls_def)

lemma calls_send [simp]:
  "calls (sent (send_to To_memory pkg s)) = calls (sent s)"
  "calls (sent (send_process_interrupted pid reason s)) = calls (sent s)"
  "calls (sent (send_to To_scheduler (send_confirmation pid) s)) = calls (sent s)"
  by (simp_all add: calls_def send_to_def send_process_interrupted_def send_confirmation_def
      package_with_def)

section \<open>The cycle follows the program\<close>

definition core :: "cpu_state \<Rightarrow> cpu_state" where
  "core s = s\<lparr>interrupt_pending := False, interrupt_reason := QUANTUM_EXPIRED, sent := []\<rparr>"

lemma ext_core: "ext (sent s) (interrupt_pending s) (interrupt_reason s) (core s) = s"
  by (simp add: ext_def core_def)

lemma sent_ext: "sent (ext l b r s) = l @ sent s"
  by (simp add: ext_def)

lemma core_ext [simp]: "core (ext l b r s) = core s"
  by (simp add: ext_def core_def)

text \<open>Two states of a CPU that differ in what was sent and in the interrupt only execute the same.\<close>

lemma execute_core:
  assumes "core s = core u"
  shows "(execute_instruction d pid tbl (c, False, s) = Ret (c', j, s') \<longrightarrow>
      (\<exists>u'. execute_instruction d pid tbl (c, False, u) = Ret (c', j, u') \<and> core s' = core u' \<and>
        (calls (sent s) = calls (sent u) \<longrightarrow> calls (sent s') = calls (sent u')))) \<and>
    ((\<forall>x. execute_instruction d pid tbl (c, False, s) \<noteq> Ret x) \<longrightarrow>
      (\<forall>x. execute_instruction d pid tbl (c, False, u) \<noteq> Ret x))"
proof -
  define k where "k = core u"
  have e: "execute_instruction d pid tbl (c, False, v) =
      map_run (ext_exec (sent v) (interrupt_pending v) (interrupt_reason v))
        (execute_instruction d pid tbl (c, False, k))" if "core v = k" for v
  proof -
    have "ext (sent v) (interrupt_pending v) (interrupt_reason v) k = v"
      using ext_core [of v] by (simp add: that)
    then show ?thesis
      using execute_instruction_ext [of d pid tbl "sent v" "interrupt_pending v" "interrupt_reason v"
        "(c, False, k)"] by simp
  qed
  have s: "core s = k" "core u = k" using assms by (simp_all add: k_def)
  show ?thesis
    unfolding e [OF s(1)] e [OF s(2)]
    by (cases "execute_instruction d pid tbl (c, False, k)") (auto simp: ext_exec_def sent_ext)
qed

lemma core_simps [simp]:
  "core (s\<lparr>interrupt_pending := b\<rparr>) = core s"
  "core (s\<lparr>interrupt_pending := b, interrupt_reason := r\<rparr>) = core s"
  "core (send_to p pkg s) = core s"
  "core (send_process_interrupted pid reason s) = core s"
  by (simp_all add: core_def send_to_def send_process_interrupted_def)

lemma core_fields:
  "core s = core u \<Longrightarrow> should_exit s = should_exit u \<and> should_stop s = should_stop u \<and> cpu_memory s = cpu_memory u"
  by (auto simp: core_def dest: arg_cong [of _ _ should_exit] arg_cong [of _ _ should_stop] arg_cong [of _ _ cpu_memory])

text \<open>The CPU is where the interpreter is: in the loop it agrees in all that matters to an
  instruction; behind it, it says why it left.\<close>

definition follows :: "cpu_cycle \<Rightarrow> cpu_state \<Rightarrow> bool" where
  "follows s u \<longleftrightarrow>
     \<not> has_jumped s \<and> calls (sent (cpu s)) = calls (sent u) \<and> cpu_memory (cpu s) = cpu_memory u \<and>
     (case exe s of
        E_top \<Rightarrow> core (cpu s) = core u
      | E_exit _ \<Rightarrow> core (cpu s) = core u
      | E_poll \<Rightarrow> core (cpu s) = core u
      | E_stop _ \<Rightarrow> core (cpu s) = core u \<and> \<not> should_exit u
      | E_fetch \<Rightarrow> core (cpu s) = core u \<and> \<not> should_exit u \<and> \<not> should_stop u
      | E_response \<Rightarrow> core (cpu s) = core u \<and> \<not> should_exit u \<and> \<not> should_stop u
      | E_exited \<Rightarrow> should_exit u
      | E_stopped \<Rightarrow> should_stop u
      | E_evict \<Rightarrow> \<not> should_exit u \<and> \<not> should_stop u
      | E_clear \<Rightarrow> \<not> should_exit u \<and> \<not> should_stop u
      | _ \<Rightarrow> True)"

definition same_process :: "cpu_cycle \<Rightarrow> cpu_cycle \<Rightarrow> bool" where
  "same_process s s' \<longleftrightarrow>
     exec_pid s' = exec_pid s \<and> exec_table s' = exec_table s \<and> exec_context s' = exec_context s"

lemma handler_follows:
  assumes "cpu_step ev s = Some s'" and "ev \<in> {Handler, Recv_execute pid, Recv_evict reason}"
  shows "exe s' = exe s" and "same_process s s'" and "follows s u \<Longrightarrow> follows s' u"
proof -
  have "exe s' = exe s \<and> has_jumped s' = has_jumped s \<and> same_process s s' \<and> core (cpu s') = core (cpu s) \<and>
      calls (sent (cpu s')) = calls (sent (cpu s))"
    using assms by (cases "hdl s") (auto simp: cpu_step_def confirm_def same_process_def split: if_splits)
  then show "exe s' = exe s" and "same_process s s'" and "follows s u \<Longrightarrow> follows s' u"
    using core_fields [of "cpu s'" "cpu s"] by (auto simp: follows_def split: executor.splits)
qed

lemma post_if_cpu [simp]:
  "sent (cpu (post_if_interrupted i s)) = sent (cpu s)"
  "cpu_memory (cpu (post_if_interrupted i s)) = cpu_memory (cpu s)"
  "has_jumped (post_if_interrupted i s) = has_jumped s"
  "exec_pid (post_if_interrupted i s) = exec_pid s" "exec_table (post_if_interrupted i s) = exec_table s"
  "exec_context (post_if_interrupted i s) = exec_context s"
  by (simp_all add: post_if_interrupted_def)

lemma sends_memory [simp]:
  "cpu_memory (send_to p pkg s) = cpu_memory s" "cpu_memory (send_process_interrupted pid reason s) = cpu_memory s"
  by (simp_all add: send_to_def send_process_interrupted_def)

lemma executor_same: "executor_step s x = Some s' \<Longrightarrow> same_process s s' \<and> exe s' \<noteq> E_undefined"
  by (cases x) (auto simp: same_process_def split: if_splits)

lemma executor_follows:
  assumes "executor_step s (exe s) = Some s'" and "follows s u"
  shows "follows s' u"
proof -
  have c: "should_exit (cpu s) = should_exit u" "should_stop (cpu s) = should_stop u"
    if "core (cpu s) = core u" using core_fields [OF that] by simp_all
  show ?thesis
  proof (cases "exe s")
    case (E_exit i)
    with assms c show ?thesis by (cases "should_exit u") (auto simp: follows_def)
  next
    case (E_stop i)
    with assms c show ?thesis by (cases "should_stop u") (auto simp: follows_def)
  next
    case E_poll
    with assms c show ?thesis
      by (cases "should_exit u"; cases "should_stop u"; cases "interrupt_pending (cpu s)") (auto simp: follows_def)
  qed (use assms in \<open>auto simp: follows_def\<close>)
qed

lemma instruction_follows:
  fixes s :: cpu_cycle and program :: "u32 \<Rightarrow> string list"
  assumes "exe s = E_response" and "follows s u"
  defines "s' \<equiv> instruction_step s (Some (program (pc (exec_context s))))"
    and "next_state \<equiv> advance program (exec_pid s) (exec_table s) (exec_context s, u)"
  shows "exec_pid s' = exec_pid s" and "exec_table s' = exec_table s"
    and "if exe s' = E_undefined then next_state = None
      else \<exists>u'. next_state = Some (exec_context s', u') \<and> follows s' u'"
proof -
  show "exec_pid s' = exec_pid s" and "exec_table s' = exec_table s"
    by (simp_all add: s'_def instruction_step_def split: run.split)
  let ?ex = "execute_instruction (program (pc (exec_context s))) (exec_pid s) (exec_table s)"
  from assms(1,2) have f: "core (cpu s) = core u" "\<not> should_exit u" "\<not> should_stop u" "\<not> has_jumped s"
    "calls (sent (cpu s)) = calls (sent u)" by (simp_all add: follows_def)
  note x = execute_core [OF f(1), of "program (pc (exec_context s))" "exec_pid s" "exec_table s" "exec_context s"]
  show "if exe s' = E_undefined then next_state = None
      else \<exists>u'. next_state = Some (exec_context s', u') \<and> follows s' u'"
  proof (cases "?ex (exec_context s, False, cpu s)")
    case (Ret e)
    obtain c j t where e: "e = (c, j, t)" by (cases e)
    with Ret x f(5) obtain u' where u': "?ex (exec_context s, False, u) = Ret (c, j, u')" "core t = core u'"
      "calls (sent t) = calls (sent u')" by blast
    with Ret e f core_fields [OF u'(2)] show ?thesis
      by (auto simp: s'_def next_state_def instruction_step_def advance_def follows_def)
  next
    case Blocks
    with x f show ?thesis
      by (auto simp: s'_def next_state_def instruction_step_def advance_def split: run.split)
  next
    case Undef
    with x f show ?thesis
      by (auto simp: s'_def next_state_def instruction_step_def advance_def split: run.split)
  qed
qed

lemma program_run_follows:
  assumes "program_run program s n s'" and "exe s = E_top" and "\<not> has_jumped s"
  defines "reference \<equiv> advance_n program (exec_pid s) (exec_table s) n (exec_context s, cpu s)"
  shows "exec_pid s' = exec_pid s \<and> exec_table s' = exec_table s \<and>
    (if exe s' = E_undefined then reference = None
     else \<exists>u. reference = Some (exec_context s', u) \<and> follows s' u)"
  using assms(1) unfolding reference_def
proof (induction rule: program_run.induct)
  case begins
  with assms(2,3) show ?case by (simp add: follows_def)
next
  case (answered n s1 s2)
  from answered.hyps(2) have e: "exe s1 = E_response"
    and s2: "s2 = instruction_step s1 (Some (program (pc (exec_context s1))))"
    by (simp_all add: cpu_step_def split: if_splits)
  with answered.IH obtain u where u: "advance_n program (exec_pid s) (exec_table s) n (exec_context s, cpu s) =
      Some (exec_context s1, u)" "follows s1 u" "exec_pid s1 = exec_pid s" "exec_table s1 = exec_table s" by auto
  from instruction_follows [OF e u(2), of program, folded s2, unfolded u(3,4)] u(1) show ?case by simp
next
  case (other n s1 ev pid reason s2)
  show ?case
  proof (cases "ev = Executor")
    case True
    with other.hyps(3) have x: "executor_step s1 (exe s1) = Some s2" by (simp add: cpu_step_def)
    then have "exe s1 \<noteq> E_undefined" by auto
    with other.IH executor_same [OF x] executor_follows [OF x] show ?thesis
      by (auto simp: same_process_def)
  next
    case False
    with other.hyps(2) have ev: "ev \<in> {Handler, Recv_execute pid, Recv_evict reason}" by auto
    note h = handler_follows [OF other.hyps(3) ev]
    from other.IH h show ?thesis by (auto simp: same_process_def split: if_splits)
  qed
qed

text \<open>C4: the instruction cycle is the sequential execution of the program. Take a CPU that has just
  been given a process, and any run of it in which the fetches are answered with the instructions of
  a program, with whatever requests to evict and other messages of Kernel Scheduler, and any
  interleaving of the executor with the handler. After \<open>n\<close> answers the context and the
  memory are those of \<open>n\<close> instructions of the program executed one after the other from the
  context the process came with, and the process has told Kernel Scheduler exactly what those \<open>n\<close>
  instructions tell it; if the last of them never returns, the reference does not either. An eviction only
  ever comes between two instructions, when the reference has neither ended nor called the system,
  and the cycle is left for an end or a call only when the reference did.\<close>
theorem cycle_follows_program:
  assumes "program_run program s n s'" and "exe s = E_top" and "\<not> has_jumped s"
  defines "reference \<equiv> advance_n program (exec_pid s) (exec_table s) n (exec_context s, cpu s)"
  shows "if exe s' = E_undefined then reference = None
    else \<exists>u. reference = Some (exec_context s', u) \<and>
      cpu_memory (cpu s') = cpu_memory u \<and> calls (sent (cpu s')) = calls (sent u) \<and>
      (exe s' \<in> {E_evict, E_clear} \<longrightarrow> \<not> should_exit u \<and> \<not> should_stop u) \<and>
      (exe s' = E_exited \<longrightarrow> should_exit u) \<and> (exe s' = E_stopped \<longrightarrow> should_stop u)"
  using program_run_follows [OF assms(1-3)] by (auto simp: reference_def follows_def split: if_splits)

text \<open>Two instructions of a program, and an eviction that arrives while the first is executed.\<close>

definition program_example :: "u32 \<Rightarrow> string list" where
  "program_example i = (if i = 9 then [''SUM'', ''EAX'', ''EBX''] else [''NOOP''])"

lemma program_run_steps:
  "program_run program s0 n s \<Longrightarrow> set evs \<subseteq> {Executor, Handler} \<Longrightarrow> cpu_steps evs s = Some s' \<Longrightarrow>
   program_run program s0 n s'"
  by (induction evs arbitrary: s) (auto split: option.splits intro: program_run.other)

theorem cycle_follows_program_witness:
  "\<exists>s' u. program_run program_example cycle_running 1 s' \<and> exe s' = E_evict \<and>
     advance_n program_example 7 [] 1 (context_example, cpu cycle_running) = Some (exec_context s', u) \<and>
     exec_context s' = context_example\<lparr>eax := 11, pc := 10\<rparr> \<and> \<not> should_exit u \<and> \<not> should_stop u"
proof -
  let ?run = "program_run program_example cycle_running"
  have f: "exe cycle_running = E_top" "\<not> has_jumped cycle_running" "exec_pid cycle_running = 7"
    "exec_table cycle_running = []" "exec_context cycle_running = context_example"
    by (simp_all add: cycle_running_def cycle_example_def)
  obtain s1 where s1: "cpu_steps [Executor, Executor, Executor, Executor] cycle_running = Some s1"
    "exe s1 = E_response" "exec_context s1 = context_example" "hdl s1 = H_listen"
    "should_exit (cpu s1) = False" "should_stop (cpu s1) = False" "\<not> has_jumped s1"
    by (simp add: cycle_running_def cycle_example_def cpu_example_def cpu_step_def send_to_def)
  have 1: "?run 0 s1" using program_run_steps [OF program_run.begins _ s1(1), where program = program_example] by simp
  obtain s2 where s2: "cpu_step (Recv_evict QUANTUM_EXPIRED) s1 = Some s2" "exe s2 = E_response"
    "exec_context s2 = context_example" "interrupt_pending (cpu s2)"
    "should_exit (cpu s2) = False" "should_stop (cpu s2) = False" "\<not> has_jumped s2"
    using s1 by (simp add: cpu_step_def)
  have 2: "?run 0 s2" using program_run.other [OF 1 _ s2(1)] by blast
  have d: "get_register_descriptor ''EAX'' = Some EAX" "get_register_descriptor ''EBX'' = Some EBX"
    by code_simp+
  have np: "\<not> strcasecmp_eq ''EAX'' ''pc''" using d(1) descriptor_pc [of "''EAX''"] by simp
  have p: "program_example (pc (exec_context s2)) = [''SUM'', ''EAX'', ''EBX'']"
    by (simp add: s2 context_example_def program_example_def)
  obtain s3 where s3: "cpu_step (Instruction (Some (program_example (pc (exec_context s2))))) s2 = Some s3"
    "exe s3 = E_poll" "exec_context s3 = context_example\<lparr>eax := 11, pc := 10\<rparr>" "interrupt_pending (cpu s3)"
    "should_exit (cpu s3) = False" "should_stop (cpu s3) = False"
    using s2(2-) d np unfolding p
    by (simp add: cpu_step_def instruction_step_def execute_instruction_def operand_def instruction_to_type_def
        instruction_sum_def check_if_register_iff read_register_value_def write_register_value_def context_example_def)
  have 3: "?run (Suc 0) s3" by (rule program_run.answered [OF 2 s3(1)])
  obtain s4 where s4: "cpu_step Executor s3 = Some s4" "exe s4 = E_evict"
    "exec_context s4 = context_example\<lparr>eax := 11, pc := 10\<rparr>"
    using s3 by (simp add: cpu_step_def)
  have 4: "?run 1 s4" using program_run.other [OF 3 _ s4(1)] by simp
  from cycle_follows_program [OF 4 f(1,2)] s4 4 f(3-5) show ?thesis by auto
qed

end
