(* ===== verification/Servers.thy ===== *)
theory Servers
  imports IO_Module
begin

text \<open>
  The service loops. The three servers (\<open>kernel_scheduler/src/main.c\<close>,
  \<open>kernel_memory/src/main.c\<close>, \<open>memory_stick/src/main.c\<close>) accept connections forever and start
  a thread for each, which gets the descriptor in a block of its own: the main thread and the
  threads it starts share the heap, which is explicit here, and any time passes between the start
  of a thread and its first read. An I/O module serves the requests of its one connection.
\<close>

section \<open>Accepting connections\<close>

text \<open>The heap of the \<open>int\<close>s, the threads that have started and not read their argument, with
  the pointer they got, and the descriptors of the threads that have.\<close>

datatype start_routine = Client_handler_selector | Handle_module | Stick_cpu_handler

record server =
  heap :: "nat \<rightharpoonup> fd"
  threads :: "(start_routine \<times> nat) list"
  serving :: "(start_routine \<times> fd) list"

text \<open>\<open>server_client_wait\<close> returns what \<open>accept\<close> does, a descriptor or -1.\<close>

definition server_client_wait :: "fd \<Rightarrow> fd option" where
  "server_client_wait accepted = (if accepted = - 1 then None else Some accepted)"

text \<open>One round of a loop; \<open>a\<close> is the block that \<open>malloc\<close> returned.\<close>

definition start_thread :: "start_routine \<Rightarrow> nat \<Rightarrow> fd \<Rightarrow> server \<Rightarrow> server" where
  "start_thread routine a client_fd s =
     s\<lparr>heap := (heap s)(a \<mapsto> client_fd), threads := threads s @ [(routine, a)]\<rparr>"

definition ks_accept :: "nat \<Rightarrow> fd \<Rightarrow> server \<Rightarrow> server" where
  "ks_accept a accepted s =
     (case server_client_wait accepted of
        None \<Rightarrow> s
      | Some new_client_fd \<Rightarrow> start_thread Client_handler_selector a new_client_fd s)"

definition km_accept :: "nat \<Rightarrow> fd \<Rightarrow> server \<Rightarrow> server" where
  "km_accept a accepted s =
     (case server_client_wait accepted of
        None \<Rightarrow> s
      | Some new_client_fd \<Rightarrow> start_thread Handle_module a new_client_fd s)"

definition stick_accept :: "nat \<Rightarrow> fd \<Rightarrow> server \<Rightarrow> server" where
  "stick_accept a accepted s =
     (case server_client_wait accepted of
        None \<Rightarrow> s
      | Some new_client_fd \<Rightarrow> start_thread Stick_cpu_handler a new_client_fd s)"

text \<open>What every start routine does first: it takes the descriptor and frees the block.\<close>

definition thread_begins :: "start_routine \<times> nat \<Rightarrow> server \<Rightarrow> server run" where
  "thread_begins t s =
     and_then (of_option (heap s (snd t))) (\<lambda>client_fd.
       Ret (s\<lparr>heap := (heap s)(snd t := None), threads := remove1 t (threads s),
              serving := serving s @ [(fst t, client_fd)]\<rparr>))"

text \<open>The runs of a server: \<open>accepted\<close> collects what \<open>accept\<close> returned. \<open>malloc\<close> returns a block
  that is not in use.\<close>

inductive server_run ::
  "(nat \<Rightarrow> fd \<Rightarrow> server \<Rightarrow> server) \<Rightarrow> fd list \<Rightarrow> server \<Rightarrow> bool" for accept_round where
  started: "server_run accept_round [] \<lparr>heap = Map.empty, threads = [], serving = []\<rparr>"
| accepts: "server_run accept_round accepted s \<Longrightarrow> heap s a = None \<Longrightarrow>
    server_run accept_round (accepted @ [f]) (accept_round a f s)"
| begins: "server_run accept_round accepted s \<Longrightarrow> t \<in> set (threads s) \<Longrightarrow> thread_begins t s = Ret s' \<Longrightarrow>
    server_run accept_round accepted s'"

definition connections :: "fd list \<Rightarrow> fd list" where
  "connections = filter (\<lambda>f. f \<noteq> - 1)"

text \<open>Every block belongs to one thread, and the threads together have the connections.\<close>

definition held :: "(nat \<rightharpoonup> fd) \<Rightarrow> (start_routine \<times> nat) list \<Rightarrow> fd list" where
  "held h ts = map (\<lambda>t. the (h (snd t))) ts"

lemma held_simps [simp]:
  "held h [] = []" "held h (t # ts) = the (h (snd t)) # held h ts" "held h (xs @ ys) = held h xs @ held h ys"
  by (simp_all add: held_def)

lemma held_upd [simp]: "a \<notin> snd ` set ts \<Longrightarrow> held (h(a := x)) ts = held h ts"
  by (auto simp: held_def)

definition server_inv :: "start_routine \<Rightarrow> fd list \<Rightarrow> server \<Rightarrow> bool" where
  "server_inv routine accepted s \<longleftrightarrow>
     distinct (map snd (threads s)) \<and> snd ` set (threads s) = dom (heap s) \<and>
     mset (map snd (serving s)) + mset (held (heap s) (threads s)) = mset (connections accepted) \<and>
     fst ` set (threads s) \<union> fst ` set (serving s) \<subseteq> {routine}"

lemma server_inv_start:
  assumes "server_inv routine accepted s" and "heap s a = None" and "f \<noteq> - 1"
  shows "server_inv routine (accepted @ [f]) (start_thread routine a f s)"
proof -
  have n: "a \<notin> snd ` set (threads s)" using assms(1,2) by (auto simp: server_inv_def)
  then have "held ((heap s)(a \<mapsto> f)) (threads s) = held (heap s) (threads s)" by simp
  moreover have "mset (connections (accepted @ [f])) = add_mset f (mset (connections accepted))"
    using assms(3) by (simp add: connections_def)
  ultimately show ?thesis
    using assms(1) n unfolding server_inv_def start_thread_def by simp
qed

lemma server_inv_begins:
  assumes "server_inv routine accepted s" and "t \<in> set (threads s)"
  shows "\<exists>s'. thread_begins t s = Ret s' \<and> server_inv routine accepted s'"
proof -
  obtain r a where t: "t = (r, a)" by (cases t)
  from split_list [OF assms(2)] obtain xs ys where l: "threads s = xs @ t # ys" by blast
  have inv: "distinct (map snd (threads s))" "snd ` set (threads s) = dom (heap s)"
    "mset (map snd (serving s)) + mset (held (heap s) (threads s)) = mset (connections accepted)"
    "fst ` set (threads s) \<union> fst ` set (serving s) \<subseteq> {routine}"
    using assms(1) by (simp_all only: server_inv_def)
  then have d: "a \<notin> snd ` set xs" "a \<notin> snd ` set ys" "distinct (map snd (xs @ ys))"
    by (simp_all add: l t)
  have dom: "insert a (snd ` set (xs @ ys)) = dom (heap s)" using inv(2) by (simp add: l t)
  then have "a \<in> dom (heap s)" by blast
  then obtain f where f: "heap s a = Some f" by blast
  have "t \<notin> set xs" using d(1) t by (metis imageI snd_conv)
  then have b: "thread_begins t s =
      Ret (s\<lparr>heap := (heap s)(a := None), threads := xs @ ys, serving := serving s @ [(r, f)]\<rparr>)" (is "_ = Ret ?s")
    using f l by (simp add: thread_begins_def t remove1_append)
  have "snd ` set (xs @ ys) = dom (heap s) - {a}" using dom d(1,2) by auto
  moreover have "held ((heap s)(a := None)) (xs @ ys) = held (heap s) (xs @ ys)" using d by simp
  ultimately have "server_inv routine accepted ?s"
    using inv(3,4) d(3) f unfolding server_inv_def by (simp add: l t)
  with b show ?thesis by blast
qed

text \<open>The three loops are the same, but for the thread they start.\<close>

definition loop_of :: "start_routine \<Rightarrow> (nat \<Rightarrow> fd \<Rightarrow> server \<Rightarrow> server)" where
  "loop_of routine =
     (case routine of Client_handler_selector \<Rightarrow> ks_accept | Handle_module \<Rightarrow> km_accept
      | Stick_cpu_handler \<Rightarrow> stick_accept)"

lemma loop_of_round:
  "loop_of routine a f s = (if f = - 1 then s else start_thread routine a f s)"
  by (simp add: loop_of_def ks_accept_def km_accept_def stick_accept_def server_client_wait_def
      split: start_routine.split)

lemma server_run_inv: "server_run (loop_of routine) accepted s \<Longrightarrow> server_inv routine accepted s"
proof (induction rule: server_run.induct)
  case started
  then show ?case by (simp add: server_inv_def connections_def)
next
  case (accepts accepted s a f)
  show ?case
  proof (cases "f = - 1")
    case True
    with accepts.IH show ?thesis by (simp add: loop_of_round server_inv_def connections_def)
  next
    case False
    with server_inv_start [OF accepts.IH accepts.hyps(2)] show ?thesis by (simp add: loop_of_round)
  qed
next
  case (begins accepted s t s')
  then show ?case using server_inv_begins [OF begins.IH begins.hyps(2)] by auto
qed

text \<open>C21: no connection is lost, served twice or mixed up with another, however long the threads
  take to start: in every run of a server the threads that serve and those that are yet to read their
  argument have together exactly the connections that were accepted (a failed \<open>accept\<close> starts
  nothing), and a thread that begins always finds its descriptor, since no other thread has a
  pointer to its block.\<close>
theorem every_connection_served:
  assumes "server_run (loop_of routine) accepted s"
  shows "mset (map snd (serving s)) + mset (held (heap s) (threads s)) = mset (connections accepted) \<and>
    distinct (map snd (threads s)) \<and>
    (\<forall>t \<in> set (threads s). \<exists>s'. thread_begins t s = Ret s')"
proof (intro conjI ballI)
  note inv = server_run_inv [OF assms]
  then show "mset (map snd (serving s)) + mset (held (heap s) (threads s)) = mset (connections accepted)"
    and "distinct (map snd (threads s))" by (simp_all add: server_inv_def)
  show "\<exists>s'. thread_begins t s = Ret s'" if "t \<in> set (threads s)" for t
    using server_inv_begins [OF inv that] by blast
qed

text \<open>Two connections and a failure; the second thread begins first.\<close>

theorem every_connection_served_witness:
  "\<exists>s. server_run (loop_of Handle_module) [7, - 1, 8] s \<and> serving s = [(Handle_module, 8)] \<and>
     held (heap s) (threads s) = [7]"
proof -
  let ?run = "server_run (loop_of Handle_module)"
  let ?s0 = "\<lparr>heap = Map.empty, threads = [], serving = []\<rparr>"
  let ?s1 = "start_thread Handle_module 0 7 ?s0"
  let ?s2 = "start_thread Handle_module 1 8 ?s1"
  have 1: "?run [7] ?s1"
    using server_run.accepts [OF server_run.started, of 0 "loop_of Handle_module" 7] by (simp add: loop_of_round)
  then have "?run [7, - 1] ?s1"
    using server_run.accepts [OF 1, of 1 "- 1"] by (simp add: loop_of_round start_thread_def)
  then have 2: "?run [7, - 1, 8] ?s2"
    using server_run.accepts [of "loop_of Handle_module" "[7, - 1]" ?s1 1 8]
    by (simp add: loop_of_round) (simp add: start_thread_def)
  obtain s where s: "thread_begins (Handle_module, 1) ?s2 = Ret s" "serving s = [(Handle_module, 8)]"
    "threads s = [(Handle_module, 0)]"
    by (simp add: thread_begins_def start_thread_def)
  have "(Handle_module, 1) \<in> set (threads ?s2)" by (simp add: start_thread_def)
  from server_run.begins [OF 2 this s(1)] have r: "?run [7, - 1, 8] s" .
  from every_connection_served [OF r] s have "mset (held (heap s) (threads s)) = {#7#}"
    by (simp add: connections_def)
  with r s(2) show ?thesis by (auto simp: s(3))
qed

section \<open>An I/O module\<close>

text \<open>The loop of \<open>main\<close>: what the module did and answered, for the packages that arrive on the
  connection, until it is closed. The operation code is only compared with -1; \<open>typed\<close> are the
  lines of the user still to come.\<close>

fun io_service ::
  "t_io_type \<Rightarrow> string option list \<Rightarrow> (u32 \<times> byte list) list \<Rightarrow> (io_effect \<times> t_package) list run" where
  "io_service io_type typed [] = Ret []"
| "io_service io_type typed ((op, buffer) # rest) =
     and_then (io_handle_operation io_type (case typed of [] \<Rightarrow> None | line # _ \<Rightarrow> line) buffer) (\<lambda>r.
       case r of
         None \<Rightarrow> io_service io_type typed rest
       | Some answer \<Rightarrow>
           and_then (io_service io_type (if io_type = IO_TYPE_STDIN then tl typed else typed) rest)
             (\<lambda>answers. Ret (answer # answers)))"

text \<open>What Kernel Scheduler sends for a process, with a number (a time or a size) or a text; and
  what is to be done and answered. For input the text is the one the user types.\<close>

definition io_request :: "t_io_type \<Rightarrow> u32 \<times> u32 \<times> string \<Rightarrow> t_package" where
  "io_request io_type = (\<lambda>(pid, value, text).
     case io_type of
       IO_TYPE_SLEEP \<Rightarrow> io_numeric_process_send (t_io_numeric_process_create pid value IO_TYPE_SLEEP) SLEEP
     | IO_TYPE_STDIN \<Rightarrow> io_numeric_process_send (t_io_numeric_process_create pid value IO_TYPE_STDIN) STDIN
     | IO_TYPE_STDOUT \<Rightarrow> io_string_process_send (t_io_string_process_create pid text IO_TYPE_STDOUT) STDOUT)"

definition io_answer :: "t_io_type \<Rightarrow> u32 \<times> u32 \<times> string \<Rightarrow> io_effect \<times> t_package" where
  "io_answer io_type = (\<lambda>(pid, value, text).
     case io_type of
       IO_TYPE_SLEEP \<Rightarrow> (Slept (value * 1000), send_confirmation pid)
     | IO_TYPE_STDIN \<Rightarrow> (Typed (take (unat value) text), typed_answer pid (take (unat value) text))
     | IO_TYPE_STDOUT \<Rightarrow> (Printed text, send_confirmation pid))"

lemma io_request_served:
  assumes "sendable text" and "unat value < 2 ^ 31"
  shows "io_handle_operation io_type (Some text) (stream (io_request io_type (pid, value, text))) =
      Ret (Some (io_answer io_type (pid, value, text)))"
    and "io_type \<noteq> IO_TYPE_STDIN \<Longrightarrow>
      io_handle_operation io_type line (stream (io_request io_type (pid, value, text))) =
      Ret (Some (io_answer io_type (pid, value, text)))"
  using assms io_stdin_answer [OF assms(2,1), of pid]
  by (cases io_type; simp add: io_request_def io_answer_def io_handle_operation_def
      io_numeric_process_roundtrip io_string_process_roundtrip t_io_numeric_process_create_def
      t_io_string_process_create_def io_sleep_ms_def)+



end
