(* ===== verification/KS_Priorities.thy ===== *)
theory KS_Priorities
  imports KS_Runs
begin

text \<open>
  Preemption between queues (\<open>short_term_scheduler_main\<close> with \<open>QUEUE_PREEMPTION\<close>): what the
  dispatcher leaves behind respects the priorities.
\<close>

lemma best_process_lowest:
  "effective_priority (pr q) \<le> effective_priority (pr (best_process (\<lambda>a b. effective_priority a > effective_priority b) pr best ps))"
  if "q \<in> set (best # ps)"
  using that
proof (induction ps arbitrary: best q)
  case (Cons p ps)
  let ?f = "\<lambda>x. effective_priority (pr x)"
  let ?best = "if effective_priority (pr p) > effective_priority (pr best) then p else best"
  have "?f q \<le> ?f ?best \<or> q \<in> set ps" using Cons.prems by auto
  moreover have "?f ?best \<le> ?f (best_process (\<lambda>a b. effective_priority a > effective_priority b) pr ?best ps)"
    using Cons.IH [of ?best ?best] by simp
  moreover have "q \<in> set ps \<Longrightarrow> ?f q \<le> ?f (best_process (\<lambda>a b. effective_priority a > effective_priority b) pr ?best ps)"
    using Cons.IH [of q ?best] by simp
  ultimately show ?case by auto
qed simp

lemma best_process_member: "best_process better pr best ps \<in> set (best # ps)"
  by (induction ps arbitrary: best) auto

lemma lowest_priority:
  assumes "get_lowest_priority_process s ps = Some l"
  shows "l \<in> set ps" and "q \<in> set ps \<Longrightarrow> effective_priority (procs s q) \<le> effective_priority (procs s l)"
  using assms best_process_member best_process_lowest [of q]
  by (auto simp: get_lowest_priority_process_def split: list.splits)

lemma preempt_frame [simp]:
  "procs (preempt p s) = procs s" "exec_processes (preempt p s) = exec_processes s"
  "list_processes (preempt p s) = list_processes s" "ready_queue (preempt p s) = ready_queue s"
  "scheduler_algorithm (preempt p s) = scheduler_algorithm s"
  "queue_algorithms_count (preempt p s) = queue_algorithms_count s"
  by (auto simp: preempt_def evict_process_def send_process_evict_def store_defs split: option.split)

lemma preempt_next [simp]: "get_next_process_to_execute (preempt p s) = get_next_process_to_execute s"
  unfolding get_next_process_to_execute_def ready_queue_size_def
    get_highest_priority_process_from_ready_queue_def preempt_frame ..

text \<open>Is the CPU of the process being freed?\<close>

definition leaving :: "ks_state \<Rightarrow> process \<Rightarrow> bool" where
  "leaving s l \<longleftrightarrow> (\<exists>c. proc_cpu (procs s l) = Some c \<and> is_evicting (clients s c))"

lemma preempt_respects:
  assumes "sched_inv s" and "q \<in> set (exec_processes s)"
  shows "effective_priority (procs s q) \<le> effective_priority (procs s p) \<or>
    (\<exists>l \<in> set (exec_processes s). effective_priority (procs s q) \<le> effective_priority (procs s l) \<and>
       leaving (preempt p s) l)"
proof -
  obtain l where l: "get_lowest_priority_process s (exec_processes s) = Some l"
    using assms(2) by (cases "exec_processes s") (auto simp: get_lowest_priority_process_def)
  note lp = lowest_priority [OF l]
  show ?thesis
  proof (cases "effective_priority (procs s p) < effective_priority (procs s l)")
    case True
    obtain c where c: "proc_cpu (procs s l) = Some c"
      using lp(1) assms(1) by (auto simp: sched_inv_def pool_ok_def lists_ok_def runs_on_def)
    have "leaving (preempt p s) l"
      using True by (simp add: leaving_def c) (simp add: preempt_def l c evict_process_clients)
    with lp(1) lp(2) [OF assms(2)] show ?thesis by blast
  next
    case False
    with lp(2) [OF assms(2)] show ?thesis by auto
  qed
qed

lemma dispatch_loop_config [simp]:
  "scheduler_algorithm (dispatch_one now p c s) = scheduler_algorithm s"
  "queue_preemption (dispatch_one now p c s) = queue_preemption s"
  by (simp_all add: dispatch_one_def Let_def exec_add_def process_set_cpu_def process_set_state_def
      remove_process_from_ready_queue_def on_queue_def send_pid_to_execute_def store_defs split: option.split)

text \<open>C16: with preemption between queues no process waits behind a worse one for nothing. When the
  dispatcher has done its work and there is still a process that is next to execute, then every process in
  execution has a priority at least as good, or a process in execution at least as bad as it is already
  being taken off its CPU: the worst one is the one that is evicted.\<close>
theorem preemption_respects_priorities:
  assumes "sched_inv s" and "scheduler_algorithm s = CMN" and "queue_preemption s"
    and "get_next_process_to_execute (dispatch_loop now s) = Some p"
    and "q \<in> set (exec_processes (dispatch_loop now s))"
  shows "effective_priority (procs (dispatch_loop now s) q) \<le> effective_priority (procs (dispatch_loop now s) p) \<or>
    (\<exists>l \<in> set (exec_processes (dispatch_loop now s)).
       effective_priority (procs (dispatch_loop now s) q) \<le> effective_priority (procs (dispatch_loop now s) l) \<and>
       leaving (dispatch_loop now s) l)"
  using assms
proof (induction now s rule: dispatch_loop.induct)
  case (1 now s)
  show ?case
  proof (cases "get_next_process_to_execute s")
    case None
    with "1.prems"(4) show ?thesis by (simp add: dispatch_loop.simps [of now s])
  next
    case (Some p')
    show ?thesis
    proof (cases "get_available_cpu s")
      case None
      with Some "1.prems"(2,3) have t: "dispatch_loop now s = preempt p' s"
        by (simp add: dispatch_loop.simps [of now s])
      with "1.prems"(4) Some have "p' = p" by simp
      with preempt_respects [OF "1.prems"(1), of q p] "1.prems"(5) t show ?thesis by simp
    next
      case c: (Some c)
      have inv: "pool_ok (set (list_processes s)) s" using "1.prems"(1) by (simp add: sched_inv_def)
      have "chosen s p'" using Some next_process_chosen [OF inv] by simp
      note p = chosen_ready(1,2) [OF inv this]
      have i: "sched_inv (dispatch_one now p' c s)"
        using p available_cpu [OF c] inv pool_dispatch_one by (simp add: sched_inv_def cpu_free_def)
      have d: "dispatch_loop now s = dispatch_loop now (dispatch_one now p' c s)"
        using Some c by (simp add: dispatch_loop.simps [of now s])
      from "1.IH" [OF refl Some c i] "1.prems"(2-5) show ?thesis by (simp add: d)
    qed
  qed
qed

text \<open>Process 0 of priority 1 is on the only CPU when process 1 of priority 0 becomes ready.\<close>

definition better_ready :: ks_state where
  "better_ready = wait_process_create_confirmation 1 (long_term_scheduler ''better'' 0 started)"

lemma started_fields:
  "list_processes started = [1]" "list_cpu started = [1]" "exec_processes started = [1]"
  "ready_queue started = [[], [], []]" "scheduler_algorithm started = CMN" "queue_algorithms_count started = 3"
  "queue_preemption started" "current_max_pid started = 1"
  "\<not> is_available (clients started 1)" "\<not> is_evicting (clients started 1)"
  "effective_priority (procs started 1) = 1" "proc_cpu (procs started 1) = Some 1" "proc_pid (procs started 1) = 0"
  "proc_state (procs started 1) = EXEC"
  by (simp_all add: started_def first_state_def ks_setup_def Let_def scheduler_algorithm_from_string_def
      ks_cpu_connected_def long_term_defs store_defs send_process_create_info_def fresh_def create_process_def
      all_clients_def get_process_from_pid_def wait_process_create_confirmation_def short_term_scheduler_turn_def
      add_process_to_ready_queue_def on_queue_def queue_index_def process_set_state_def create_client_info_def
      dispatch_loop.simps get_next_process_to_execute_def ready_queue_size_def
      get_highest_priority_process_from_ready_queue_def get_available_cpu_def cpu_free_def dispatch_one_def
      remove_process_from_ready_queue_def process_set_cpu_def exec_add_def send_pid_to_execute_def)

lemma better_ready_fields:
  "list_processes better_ready = [1, 2]" "list_cpu better_ready = [1]" "exec_processes better_ready = [1]"
  "ready_queue better_ready = [[2], [], []]" "scheduler_algorithm better_ready = CMN"
  "queue_algorithms_count better_ready = 3" "queue_preemption better_ready"
  "clients better_ready = clients started" "procs better_ready 1 = procs started 1"
  "proc_state (procs better_ready 2) = READY" "effective_priority (procs better_ready 2) = 0"
  by (simp_all add: better_ready_def started_fields started_fields [unfolded One_nat_def] long_term_defs store_defs send_process_create_info_def fresh_def
      create_process_def get_process_from_pid_def wait_process_create_confirmation_def
      add_process_to_ready_queue_def on_queue_def queue_index_def process_set_state_def Let_def)

lemma better_ready_inv: "sched_inv better_ready"
  unfolding better_ready_def
proof (intro wait_process_create_confirmation_keeps long_term_scheduler_keeps started_inv)
  fix p assume "get_process_from_pid (long_term_scheduler ''better'' 0 started) 1 = Some p"
  then show "proc_state (procs (long_term_scheduler ''better'' 0 started) p) = NEW"
    by (auto simp: started_fields started_fields [unfolded One_nat_def] long_term_defs store_defs send_process_create_info_def fresh_def
        create_process_def get_process_from_pid_def Let_def split: if_splits)
qed

theorem preemption_respects_priorities_witness:
  "get_next_process_to_execute (dispatch_loop 6 better_ready) = Some 2 \<and>
   effective_priority (procs (dispatch_loop 6 better_ready) 1) = 1 \<and>
   leaving (dispatch_loop 6 better_ready) 1"
proof -
  note f = better_ready_fields better_ready_fields [unfolded One_nat_def numeral_2_eq_2]
    started_fields started_fields [unfolded One_nat_def]
  have n: "get_next_process_to_execute better_ready = Some 2"
    by (simp add: get_next_process_to_execute_def ready_queue_size_def
        get_highest_priority_process_from_ready_queue_def f eval_nat_numeral)
  have d: "dispatch_loop 6 better_ready = preempt 2 better_ready"
    using n by (simp add: dispatch_loop.simps [of _ better_ready] get_available_cpu_def cpu_free_def f)
  with n have n': "get_next_process_to_execute (dispatch_loop 6 better_ready) = Some 2" by simp
  have "1 \<in> set (exec_processes (dispatch_loop 6 better_ready))" by (simp add: d f)
  from preemption_respects_priorities [OF better_ready_inv better_ready_fields(5,7) n' this] n' show ?thesis
    by (simp add: d f)
qed

end
