(* ===== verification/Spec2Isabelle.thy ===== *)
theory Spec2Isabelle
  imports Suspension_Service KS_Shutdown KS_Races IO_Races KM_Refinement CPU_Program Servers KS_Priorities
begin

text \<open>
  An operating system in six kinds of processes that talk over sockets, in C: Kernel Scheduler
  (\<open>kernel_scheduler\<close>) decides which simulated process runs where, Kernel Memory
  (\<open>kernel_memory\<close>) gives out the user memory, CPUs (\<open>cpu\<close>) execute instructions, Memory Sticks
  (\<open>memory_stick\<close>) hold the bytes, SWAP (\<open>swap\<close>) the suspended processes, and I/O modules
  (\<open>io\<close>) are the devices. The paths in this library are relative to \<open>src/\<close>.

  \<^bold>\<open>How the code is modelled.\<close> A struct is a record with the fields of the code, an enum a
  datatype, \<open>uint32_t\<close> a 32-bit word that wraps, a \<open>t_list\<close> the list of its elements; objects
  that several lists share by pointer (processes, clients and mutexes of Kernel Scheduler) are
  entries of a store. A connection is the list of the packages, or bytes, that go over it.
  A call has the outcome \<open>run\<close> of \<open>Prelude\<close>: it returns, it waits for ever on a semaphore that
  nobody posts, or it is undefined (a NULL pointer, an access out of a buffer). Every function is
  total: the loops over sticks, blocks, processes and CPUs have a termination proof and no fuel is
  needed. Threads are steps: what the code does under a mutex, or between two waits, is one step,
  and the steps of several threads interleave in the step relations \<open>km_step\<close>, \<open>cpu_reach\<close> and
  \<open>ks_step\<close>.

  \<^bold>\<open>Shared.\<close> \<open>Prelude\<close>: outcomes, lists, slices of memory, 32-bit arithmetic. \<open>Net_Utils\<close> and
  \<open>Net_Messages\<close> (\<open>utils/net_utils.c\<close>): packages, their framing, the serialization of each kind
  of field as an instance of the interface \<open>field_codec\<close>, and lists of fields. \<open>Process_Utils\<close>
  (\<open>utils/process_utils.c\<close>, \<open>memory_utils.h\<close>): states, reasons, contexts, segments and I/O requests
  with their round trips.

  \<^bold>\<open>Memory.\<close> \<open>Memory_Stick\<close>: the block and the handlers of a stick. \<open>Memory_Access\<close>: splitting an
  access over the sticks, proved once in the interface \<open>stick_link\<close> for the two programs that do
  it, with the interface \<open>byte_store\<close> (a read is a slice, a write an overwrite of the flat memory)
  as its result; \<open>KM_Memory_Access\<close> and \<open>CPU_State\<close> interpret it. \<open>Swap\<close>: the SWAP file and the
  interface \<open>block_device\<close>. \<open>KM_State\<close>, \<open>KM_Segments\<close>, \<open>Compaction\<close> (\<open>memory_manage.c\<close>,
  \<open>utils.c\<close>): PCBs, holes, BEST and WORST fit, creation, deletion, compaction. \<open>KM_Swap\<close> and
  \<open>KM_Resume\<close>: suspension and resumption. \<open>KM_Handlers\<close> (\<open>module_handlers\<close>) and \<open>KM_System\<close>: every
  message, the threads that create segments, and the invariant of all runs: segments stay
  disjoint and inside of the memory. \<open>KM_Refinement\<close>: the abstract memory that every run of Kernel
  Memory is a run of, a map of processes to segments and contents with the answers to Kernel Scheduler,
  where neither the places of the segments nor compaction exist. \<open>KM_Store\<close>: the same with the SWAP as
  a store beside the memory, for runs with all messages in which only processes with at most one
  segment are suspended.

  \<^bold>\<open>CPU.\<close> \<open>CPU_State\<close>: registers, MMU, memory accesses. \<open>CPU_Instructions\<close>
  (\<open>manage_instructions.c\<close>): every instruction and system call; no instruction changes memory
  outside of the segments of its process, and a call that stops the cycle has saved the context
  first. \<open>CPU_Cycle\<close> (\<open>main.c\<close>): the executor and the handler of Kernel Scheduler as interleaving
  threads with their semaphores; what an eviction guarantees and where it does not end.
  \<open>CPU_Program\<close>: a reference interpreter that executes a program one instruction after the other, and
  that the cycle, with all its threads and evictions, does the same.

  \<^bold>\<open>Scheduler.\<close> \<open>KS_State\<close> (\<open>utils.c\<close>, \<open>setup\<close>): stores, queues, eviction. \<open>KS_Schedulers\<close>
  (\<open>schedulers\<close>): dispatching, preemption, quantum, creation, suspension. \<open>KS_Mutex\<close>,
  \<open>KS_Managers\<close> (\<open>managers\<close>): mutexes, memory calls, I/O calls. \<open>KS_Handlers\<close>
  (\<open>module_handlers\<close>): every message and the waiting threads. \<open>KS_Pool\<close> states when lists and
  processes agree (\<open>pool_ok\<close>, as steps that take a process out and put it back), and what the
  dispatcher chooses; \<open>KS_Invariant\<close> shows that every operation keeps it; \<open>KS_Locks\<close> has the
  invariant of the mutexes, the interface \<open>fifo_lock\<close> with the mutexes as its instance, and
  the inheritance of priorities; \<open>KS_Runs\<close> the step relation of the whole scheduler and its
  invariant; \<open>KS_Priorities\<close> what preemption between queues guarantees; \<open>KS_Faults\<close> the branches outside of the protocol of \<open>KS_Runs\<close>, and what they break.
  \<open>IO_Races\<close> and \<open>KS_Races\<close>: the devices, and the answers of a suspension, with the critical
  sections of a handler as steps of their own. \<open>KS_Shutdown\<close>: the release of everything at the end.

  \<^bold>\<open>Devices and service loops.\<close> \<open>IO_Module\<close>: what a device does with a request. \<open>Servers\<close>: the
  loop of a device over its connection, and the accept loops of the three servers, with the heap
  through which a thread gets its descriptor.

  \<^bold>\<open>Start-up.\<close> The \<open>main\<close> functions are functions of the configuration, the operating system and
  the bytes the other side sends. \<open>Module_Start\<close>: connections, and the start of sticks, SWAP,
  devices and CPUs; \<open>KM_Start\<close> (\<open>kernel_memory/src/main.c\<close>): the start of Kernel Memory and
  \<open>handle_module\<close>, for modules that connect one after the other (\<open>km_boot\<close>): the layout of memory
  holds and a CPU sees the memory Kernel Memory sees; \<open>KM_Connections\<close>: the same handlers as
  interleaving threads, what still holds and what does not; \<open>KS_Start\<close>
  (\<open>kernel_scheduler/src/main.c\<close>): \<open>setup\<close>, the first process, and the clients. \<open>Boot\<close> composes
  the starts up to the first instruction, \<open>Preemption\<close> an eviction through the three programs,
  \<open>Suspension\<close> shows what brings a suspended process back, \<open>Suspension_Service\<close> follows a suspension
  through both kernels to the end, and this theory has the other calls that cross modules.

  \<^bold>\<open>Parameters.\<close> \<open>list_sort\<close>, \<open>string_split\<close> and \<open>string_equals_ignore_case\<close> of the commons
  library, its configurations (\<open>t_config\<close>, \<open>config_create\<close>), the system calls that open sockets
  (\<open>t_os\<close>), the files of the programs, the line that \<open>readline\<close> returns and the clock are
  arguments of the definitions; \<open>sorts_by\<close> is the documented behaviour of the sort where a theorem
  needs it, and \<open>sort_by\<close> shows that it can hold.

  \<^bold>\<open>Not modelled.\<close> The loggers and the delays; \<open>free\<close> outside of \<open>shutdown_handler\<close> and of the
  accept loops; the races between the critical sections of
  one handler of Kernel Scheduler and of the message loops of Kernel Memory, where a handler is one
  step, except for those in \<open>IO_Races\<close> and \<open>KS_Races\<close> (the threads of a CPU and those of the
  connections of Kernel Memory have their single steps). \<open>ks_step\<close> assumes the protocol of its
  partners: a CPU reports on the process it runs, Kernel Memory answers once, a device confirms what
  it was asked. \<open>km_layout_invariant\<close> and
  \<open>km_refines_memory\<close> leave out \<open>SWAP_IN\<close>, which breaks the layout when the process has several
  segments (\<open>resumed_segments_overlap\<close>); \<open>km_refines_store\<close> has it for processes with one. Opening a connection and registering
  it are one step of \<open>km_boot\<close>; that a stick that has disconnected is still in the list of
  credentials is not followed up.
\<close>

section \<open>From one module to the next\<close>

text \<open>C25: the context of a process survives the change of CPU: what one CPU saves in Kernel Memory
  when the process leaves it is, with the segment table of the process, what any CPU gets that asks
  for the context of that process next.\<close>
theorem context_survives_migration:
  assumes "List.find (find_by_pid pid) (km_state.list_processes k) = Some pcb"
    and "length (segment_table pcb) < 2 ^ 32"
  shows "\<exists>k' reply. cpu_context_transfer (stream (context_send c pid)) k = Ret k' \<and>
     cpu_context_seek (stream (package_add (u32_bytes pid) (package_with CONTEXT_SEEK))) k' = Ret (Some reply) \<and>
     context_receive (stream reply) = Ret (Some (c, segment_table pcb))"
proof -
  obtain k' where "cpu_context_transfer (stream (context_send c pid)) k = Ret k'"
    "List.find (find_by_pid pid) (km_state.list_processes k') = Some (pcb\<lparr>pcb_context := c\<rparr>)"
    using context_transfer_stores [OF assms(1)] by blast
  then show ?thesis
    using context_load_roundtrip [OF assms(2), of c] by (simp add: cpu_context_seek_def)
qed

theorem context_survives_migration_witness:
  "\<exists>k' reply. cpu_context_seek (stream (package_add (u32_bytes 2) (package_with CONTEXT_SEEK))) k' = Ret (Some reply) \<and>
     context_receive (stream reply) = Ret (Some (context_example, [\<lparr>segment_id = 0, seg_base = 4, seg_size = 2\<rparr>]))"
proof -
  have "List.find (find_by_pid 2) (km_state.list_processes km_example) =
      Some (example_pcb 2 [\<lparr>segment_id = 0, seg_base = 4, seg_size = 2\<rparr>])"
    by (simp add: km_example_def find_by_pid_def)
  from context_survives_migration [OF this, of context_example] show ?thesis by auto
qed

text \<open>The three stages of an input: Kernel Scheduler forwards the text, Kernel Memory writes it,
  Kernel Scheduler is told.\<close>

definition write_request :: "u32 \<Rightarrow> u32 \<Rightarrow> u32 \<Rightarrow> string \<Rightarrow> t_package" where
  "write_request pid a n text = package_string_add text (package_add (u32_bytes n)
     (package_add (u32_bytes a) (package_add (u32_bytes pid) (package_with IO_MEMORY_WRITE))))"

lemma next_operation_effect:
  "waiters (handle_next_operation io ty s) = waiters s"
  "set (outbox s) \<subseteq> set (outbox (handle_next_operation io ty s))"
  by (auto simp: handle_next_operation_def upd_client_def ks_send_def split: t_io_type.split list.split)

lemma stdin_forwarded:
  assumes "get_pending_stdin_from_pid s pid = Some \<lparr>ps_pid = pid, ps_physical_address = a, ps_size = n\<rparr>"
    and "get_process_from_pid s pid = Some p" and "sendable text"
  shows "\<exists>t. ks_io_handler io IO_TYPE_STDIN STDIN (stream (typed_answer pid text)) s = Ret t \<and>
     (Kernel_Memory, write_request pid a n text) \<in> set (outbox t) \<and> Wait_memory_write p \<in> set (waiters t) \<and>
     procs t = procs s \<and> ks_state.list_processes t = ks_state.list_processes s"
proof -
  let ?u = "add_waiter (Wait_memory_write p) (set_available True io (send_memory_write pid a n text
      (s\<lparr>pending_io_stdin_reading := remove1 \<lparr>ps_pid = pid, ps_physical_address = a, ps_size = n\<rparr> (pending_io_stdin_reading s)\<rparr>)))"
  have "ks_io_handler io IO_TYPE_STDIN STDIN (stream (typed_answer pid text)) s =
      Ret (handle_next_operation io IO_TYPE_STDIN ?u)"
    using assms by (simp add: ks_io_handler_def typed_answer_received stdin_answer_def t_io_string_process_create_def
        Let_def get_process_from_pid_def send_memory_write_def)
  moreover have "(Kernel_Memory, write_request pid a n text) \<in> set (outbox ?u)" "Wait_memory_write p \<in> set (waiters ?u)"
    "procs ?u = procs s" "ks_state.list_processes ?u = ks_state.list_processes s"
    by (simp_all add: add_waiter_def upd_client_def send_memory_write_def ks_send_def write_request_def)
  ultimately show ?thesis
    using next_operation_effect [where s = ?u and io = io and ty = IO_TYPE_STDIN] by auto
qed

lemma write_executed:
  assumes "memory_valid (km_memory k)" and "unat a + unat n \<le> length (memory_content (km_memory k))" and "sendable text"
  shows "\<exists>k'. km_io_memory_write (stream (write_request pid a n text)) k = Ret k' \<and>
     memory_content (km_memory k') = overwrite (unat a) (padded text n) (memory_content (km_memory k)) \<and>
     package_add [bool_byte True] (package_add (u32_bytes pid) (package_with IO_MEMORY_WRITE)) \<in> set (to_scheduler k')"
proof -
  have "length (padded text n) = unat n" by (simp add: padded_def Let_def)
  then obtain m where "memory_write (km_memory k) a (padded text n) n = Ret (True, m)"
    "memory_content m = overwrite (unat a) (padded text n) (memory_content (km_memory k))"
    using km_write [OF assms(1,2), of "padded text n"] by auto
  then show ?thesis
    using assms(3) by (simp add: km_io_memory_write_def write_request_def send_to_scheduler_def)
qed

lemma write_confirmed:
  assumes "get_process_from_pid s pid = Some p"
  shows "ks_kernel_memory_handler list_sort now IO_MEMORY_WRITE
     (stream (package_add [bool_byte True] (package_add (u32_bytes pid) (package_with IO_MEMORY_WRITE)))) s =
     Ret (upd_proc p (\<lambda>r. r\<lparr>memory_request_sem := memory_request_sem r + 1\<rparr>) s)"
  using assms by (simp add: ks_kernel_memory_handler_def receive_confirmation_io_memory_write_def
      io_memory_write_answer_def)

text \<open>C14: what the user types reaches the memory: the answer of a \<open>STDIN\<close> device, handled by Kernel
  Scheduler and then by Kernel Memory, puts the text, cut to the size that was asked for and padded
  with zeros, at the physical address the process gave, and changes nothing else; the answer of
  Kernel Memory makes the process that waits ready to go on.\<close>
theorem stdin_reaches_memory:
  assumes "get_pending_stdin_from_pid s pid = Some \<lparr>ps_pid = pid, ps_physical_address = a, ps_size = n\<rparr>"
    and "get_process_from_pid s pid = Some p"
    and "sendable text" and "unat n < 2 ^ 31"
    and "memory_valid (km_memory k)" and "unat a + unat n \<le> length (memory_content (km_memory k))"
  shows "\<exists>answer s\<^sub>1 request k' reply s\<^sub>2.
     io_handle_operation IO_TYPE_STDIN (Some text)
       (stream (io_numeric_process_send (t_io_numeric_process_create pid n IO_TYPE_STDIN) STDIN)) =
         Ret (Some (Typed (take (unat n) text), answer)) \<and>
     ks_io_handler io IO_TYPE_STDIN (pkg_op answer) (stream answer) s = Ret s\<^sub>1 \<and>
     (Kernel_Memory, request) \<in> set (outbox s\<^sub>1) \<and> Wait_memory_write p \<in> set (waiters s\<^sub>1) \<and>
     km_io_memory_write (stream request) k = Ret k' \<and>
     memory_content (km_memory k') = overwrite (unat a) (padded (take (unat n) text) n) (memory_content (km_memory k)) \<and>
     reply \<in> set (to_scheduler k') \<and>
     ks_kernel_memory_handler list_sort now (pkg_op reply) (stream reply) s\<^sub>1 = Ret s\<^sub>2 \<and>
     memory_request_sem (procs s\<^sub>2 p) = memory_request_sem (procs s\<^sub>1 p) + 1"
proof -
  let ?text = "take (unat n) text"
  let ?reply = "package_add [bool_byte True] (package_add (u32_bytes pid) (package_with IO_MEMORY_WRITE))"
  have sent_text: "sendable ?text" using assms(3) by (rule sendable_take)
  obtain s1 where s1: "ks_io_handler io IO_TYPE_STDIN STDIN (stream (typed_answer pid ?text)) s = Ret s1"
    "(Kernel_Memory, write_request pid a n ?text) \<in> set (outbox s1)" "Wait_memory_write p \<in> set (waiters s1)"
    "procs s1 = procs s" "ks_state.list_processes s1 = ks_state.list_processes s"
    using stdin_forwarded [OF assms(1,2) sent_text, of io] by blast
  obtain k' where k': "km_io_memory_write (stream (write_request pid a n ?text)) k = Ret k'"
    "memory_content (km_memory k') = overwrite (unat a) (padded ?text n) (memory_content (km_memory k))"
    "?reply \<in> set (to_scheduler k')"
    using write_executed [OF assms(5,6) sent_text, of pid] by blast
  have "get_process_from_pid s1 pid = Some p" using assms(2) s1(4,5) by (simp add: get_process_from_pid_def)
  let ?s2 = "upd_proc p (\<lambda>r. r\<lparr>memory_request_sem := memory_request_sem r + 1\<rparr>) s1"
  have told: "ks_kernel_memory_handler list_sort now (pkg_op ?reply) (stream ?reply) s1 = Ret ?s2"
    using write_confirmed [OF \<open>get_process_from_pid s1 pid = Some p\<close>, of list_sort now] by simp
  show ?thesis
  proof (intro exI conjI)
    show "io_handle_operation IO_TYPE_STDIN (Some text)
       (stream (io_numeric_process_send (t_io_numeric_process_create pid n IO_TYPE_STDIN) STDIN)) =
         Ret (Some (Typed ?text, typed_answer pid ?text))" by (rule io_stdin_answer [OF assms(4,3)])
    show "ks_io_handler io IO_TYPE_STDIN (pkg_op (typed_answer pid ?text)) (stream (typed_answer pid ?text)) s = Ret s1"
      using s1(1) by (simp add: typed_answer_received(1))
  qed (fact s1(2) s1(3) k' told | simp)+
qed

theorem stdin_reaches_memory_witness:
  "\<exists>answer (request :: t_package) k'.
     io_handle_operation IO_TYPE_STDIN (Some ''hi!?'')
       (stream (io_numeric_process_send (t_io_numeric_process_create 3 2 IO_TYPE_STDIN) STDIN)) =
         Ret (Some (Typed ''hi'', answer)) \<and>
     km_io_memory_write (stream request) km_example = Ret k' \<and>
     memory_content (km_memory k') = overwrite 4 (padded ''hi'' 2) (memory_content (km_memory km_example))"
proof -
  let ?s = "three_processes\<lparr>pending_io_stdin_reading := [\<lparr>ps_pid = 3, ps_physical_address = 4, ps_size = 2\<rparr>]\<rparr>"
  have "get_pending_stdin_from_pid ?s 3 = Some \<lparr>ps_pid = 3, ps_physical_address = 4, ps_size = 2\<rparr>"
    by (simp add: get_pending_stdin_from_pid_def)
  moreover have "get_process_from_pid ?s 3 = Some 3" by (simp add: get_process_from_pid_def create_process_def)
  moreover have "sendable ''hi!?''" by (simp add: sendable_def c_str_def byte_of_char_def)
  moreover have "memory_valid (km_memory km_example)" "length (memory_content (km_memory km_example)) = 7"
    by (simp_all add: km_example_def)
  moreover have "take (unat (2 :: u32)) ''hi!?'' = ''hi''" by simp
  ultimately show ?thesis
    using stdin_reaches_memory [of ?s 3 4 2 3 "''hi!?''" km_example 20 sort_by 0] by auto
qed

text \<open>The stages of an allocation.\<close>

definition segment_request :: "u32 \<Rightarrow> u32 \<Rightarrow> u32 \<Rightarrow> t_package" where
  "segment_request pid sid sz = package_add (u32_bytes sz) (package_add (u32_bytes sid)
     (package_add (u32_bytes pid) (package_with SEGMENT_CREATE)))"

lemma allocation_forwarded:
  assumes "get_process_from_pid s pid = Some p" and "sz \<noteq> 0"
  shows "ks_cpu_handler eq now c MEM_ALLOC (stream (u32_triple_package MEM_ALLOC pid sid sz)) s =
     Ret (ks_send Kernel_Memory (segment_request pid sid sz) (set_pending True p s))"
  using assms by (simp add: ks_cpu_handler_def mem_alloc_message_def receive_instruction_mem_alloc_def
      read_u32_triple_def u32_triple_package_def mem_alloc_syscall_manager_def segment_request_def)

lemma allocation_queued:
  "kernel_scheduler_handler files split base hole_sort SEGMENT_CREATE (stream (segment_request pid sid sz)) srv =
     Ret (srv\<lparr>segment_threads := segment_threads srv @ [(pid, sid, sz)]\<rparr>)"
  by (simp add: kernel_scheduler_handler_def segment_request_def segment_create_args_def)

lemma allocation_answered:
  assumes "get_process_from_pid s pid = Some p" and "proc_cpu (procs s p) = Some c" and "\<not> is_evicting (clients s c)"
  shows "ks_kernel_memory_handler list_sort now SEGMENT_RESULT (stream (segment_answer pid sid SEGMENT_OK)) s =
     Ret (ks_send (Client c) (package_add (u32_bytes pid) (package_with PROCESS_EXECUTE)) (set_pending False p s))"
  using assms by (simp add: ks_kernel_memory_handler_def segment_answer_def receive_segment_result_def
      handle_segment_result_def send_pid_to_execute_def process_setters del: segment_result_int.simps)

lemma segment_create_sends_nothing:
  "segment_create hole_sort pid sid sz s = (Some r, k) \<Longrightarrow> to_scheduler k = to_scheduler s"
  by (auto simp: segment_create_def place_segment_def Let_def split: if_splits option.splits prod.splits)

text \<open>C15: an allocation that fits is served from end to end: the request of the CPU goes through
  Kernel Scheduler to a thread of Kernel Memory, which adds a segment of that size to the process
  and leaves every other process and segment as it was, and the answer makes Kernel Scheduler let
  the CPU go on with the process, which waits for no memory any more.\<close>
theorem allocation_served:
  assumes "get_process_from_pid s pid = Some p" and "proc_cpu (procs s p) = Some c"
    and "\<not> is_evicting (clients s c)" and "sz \<noteq> 0"
    and "km_inv (km srv)" and "sorts_by hole_sort compare_by_base"
    and "pid \<in> pcb_pid ` set (km_state.list_processes (km srv))"
    and "unat sz \<le> unat (total_memory_size (km srv)) - sizes (occupied (km srv))"
    and "\<exists>h \<in> set (get_free_holes hole_sort (km srv)). sz \<le> hole_size h"
  shows "\<exists>s\<^sub>1 request srv\<^sub>1 srv\<^sub>2 bytes answer s\<^sub>2.
     ks_cpu_handler eq now c MEM_ALLOC (stream (u32_triple_package MEM_ALLOC pid sid sz)) s = Ret s\<^sub>1 \<and>
     outbox s\<^sub>1 = outbox s @ [(Kernel_Memory, request)] \<and>
     kernel_scheduler_handler files split base hole_sort (pkg_op request) (stream request) srv = Ret srv\<^sub>1 \<and>
     km_step files split base seg_sort hole_sort srv\<^sub>1 (Thread_start (pid, sid, sz)) srv\<^sub>2 \<and>
     km_inv (km srv\<^sub>2) \<and> user_view (km srv\<^sub>2) = add_to_view pid (sid, sz, bytes) (user_view (km srv)) \<and>
     to_scheduler (km srv\<^sub>2) = to_scheduler (km srv) @ [answer] \<and>
     ks_kernel_memory_handler list_sort now (pkg_op answer) (stream answer) s\<^sub>1 = Ret s\<^sub>2 \<and>
     outbox s\<^sub>2 = outbox s\<^sub>1 @ [(Client c, package_add (u32_bytes pid) (package_with PROCESS_EXECUTE))] \<and>
     \<not> pending_memory_syscall (procs s\<^sub>2 p)"
proof -
  let ?s1 = "ks_send Kernel_Memory (segment_request pid sid sz) (set_pending True p s)"
  let ?srv1 = "srv\<lparr>segment_threads := segment_threads srv @ [(pid, sid, sz)]\<rparr>"
  obtain k bytes where k: "segment_create hole_sort pid sid sz (km srv) = (Some SEGMENT_OK, k)" "km_inv k"
    "user_view k = add_to_view pid (sid, sz, bytes) (user_view (km srv))"
    using segment_create_branches(2) [OF assms(5,6,4,7,8,9), of sid] by blast
  let ?k = "send_segment_result pid sid SEGMENT_OK k"
  let ?srv2 = "?srv1\<lparr>km := ?k, segment_threads := remove1 (pid, sid, sz) (segment_threads ?srv1)\<rparr>"
  let ?s2 = "ks_send (Client c) (package_add (u32_bytes pid) (package_with PROCESS_EXECUTE)) (set_pending False p ?s1)"
  have "km_step files split base seg_sort hole_sort ?srv1 (Thread_start (pid, sid, sz))
      (?srv1\<lparr>km := segment_create_thread hole_sort pid sid sz (km ?srv1),
             segment_threads := remove1 (pid, sid, sz) (segment_threads ?srv1)\<rparr>)"
    by (rule km_step.start) simp
  then have step: "km_step files split base seg_sort hole_sort ?srv1 (Thread_start (pid, sid, sz)) ?srv2"
    using k(1) by (simp add: segment_create_thread_def)
  have after: "km_inv ?k" "user_view ?k = user_view k" "to_scheduler ?k = to_scheduler (km srv) @ [segment_answer pid sid SEGMENT_OK]"
    using k(2) segment_create_sends_nothing [OF k(1)] by (simp_all add: send_segment_result_def send_to_scheduler_def km_inv_def occupied_def user_view_def
        segment_answer_def)
  have "get_process_from_pid ?s1 pid = Some p"
    using assms(1) by (auto simp: get_process_from_pid_def process_setters elim!: back_subst [where P = "\<lambda>x. List.find x _ = _"])
  then have told: "ks_kernel_memory_handler list_sort now SEGMENT_RESULT (stream (segment_answer pid sid SEGMENT_OK)) ?s1 = Ret ?s2"
    using assms(2,3) by (intro allocation_answered) (simp_all add: process_setters)
  show ?thesis
  proof (intro exI conjI)
    show "ks_cpu_handler eq now c MEM_ALLOC (stream (u32_triple_package MEM_ALLOC pid sid sz)) s = Ret ?s1"
      by (rule allocation_forwarded [OF assms(1,4)])
    show "outbox ?s1 = outbox s @ [(Kernel_Memory, segment_request pid sid sz)]"
      by (simp add: ks_send_def process_setters upd_proc_def)
    show "kernel_scheduler_handler files split base hole_sort (pkg_op (segment_request pid sid sz))
        (stream (segment_request pid sid sz)) srv = Ret ?srv1"
      using allocation_queued by (simp add: segment_request_def)
    show "km_step files split base seg_sort hole_sort ?srv1 (Thread_start (pid, sid, sz)) ?srv2" by (rule step)
    show "user_view (km ?srv2) = add_to_view pid (sid, sz, bytes) (user_view (km srv))" using after k by simp
    show "ks_kernel_memory_handler list_sort now (pkg_op (segment_answer pid sid SEGMENT_OK))
        (stream (segment_answer pid sid SEGMENT_OK)) ?s1 = Ret ?s2"
      using told by (simp add: segment_answer_def)
  qed (use after in \<open>simp_all add: process_setters upd_proc_def ks_send_def\<close>)
qed

theorem allocation_served_witness:
  "\<exists>s\<^sub>1 (request :: t_package) srv\<^sub>1 srv\<^sub>2 bytes.
     ks_cpu_handler (=) 0 11 MEM_ALLOC (stream (u32_triple_package MEM_ALLOC 2 5 1)) three_processes = Ret s\<^sub>1 \<and>
     kernel_scheduler_handler Map.empty (\<lambda>x _. [x]) [] sort_by (pkg_op request) (stream request) km_server_example = Ret srv\<^sub>1 \<and>
     km_step Map.empty (\<lambda>x _. [x]) [] sort_by sort_by srv\<^sub>1 (Thread_start (2, 5, 1)) srv\<^sub>2 \<and>
     user_view (km srv\<^sub>2) = add_to_view 2 (5, 1, bytes) (user_view km_example)"
proof -
  have "get_process_from_pid three_processes 2 = Some 2" "proc_cpu (procs three_processes 2) = Some 11"
    by (simp_all add: get_process_from_pid_def create_process_def)
  moreover have "\<not> is_evicting (clients three_processes 11)" by (simp add: create_client_info_def)
  moreover have "km km_server_example = km_example" by (simp add: km_server_example_def)
  ultimately show ?thesis
    using allocation_served [of three_processes 2 2 11 1 km_server_example sort_by "(=)" 0 5
        Map.empty "\<lambda>x _. [x]" "[]" sort_by sort_by] km_inv_example sorts_by_base
    by (simp add: example_holes) blast
qed

end
